theory Spec2Isabelle
  imports Main
begin


section \<open>Schema intermediate representation (BaseSchemaBuilder.ts)\<close>

text \<open>
  A JavaScript number is identified with its canonical decimal text (what \<open>String(n)\<close>
  prints); the generator only ever copies such numbers into the output.
\<close>

type_synonym jsnumber = string

datatype PseudoBigInt = PseudoBigInt (negative: bool) (base10Value: string)

datatype LiteralValue =
    VString string
  | VNumber jsnumber
  | VBigInt PseudoBigInt
  | VBoolean bool

datatype Indexer =
    IndexerNumber
  | IndexerString (pattern: "string option")

text \<open>
  The twelve variants \<open>IBaseSchemaType<'any'>\<close> ... \<open>IBaseSchemaType<'buffer'>\<close> carry only
  the tag and the optional \<open>required\<close> flag.
\<close>

datatype BaseKind =
    KAny | KUnknown | KBoolean | KBigint | KSymbol | KVoid
  | KUndefined | KNull | KNever | KFunc | KDate | KBuffer

text \<open>
  \<open>IStringSchemaType.regex\<close> is declared as a string and is produced as a string by the
  compiler and read as one by the Yup renderer; the Joi renderer destructures it as an
  object with the fields \<open>regex\<close> and \<open>name\<close>.  Both runtime shapes are kept.
\<close>

datatype RegexValue =
    RegexText string
  | RegexObject (regex_regex: "string option") (regex_name: "string option")

text \<open>
  Every variant ends with its \<open>required?: boolean\<close> flag (\<open>None\<close> is the unset flag).
  A member carries, besides the declared \<open>name\<close>, \<open>indexer\<close> and \<open>type\<close>, the two
  properties \<open>text\<close> and \<open>required\<close> that the renderers read
  (\<open>JoiSchemaBuilder.renderMember\<close>, \<open>YupSchemaBuilder.renderMember\<close>) although
  \<open>IMemberDeclaration\<close> does not declare them; the compiler never sets them.
  Likewise \<open>rawLiteral\<close> of a literal is read by \<open>YupSchemaBuilder.renderLiteral\<close> only.
\<close>

datatype SchemaType =
    TBase BaseKind "bool option"
  | TString "RegexValue option" "bool option"
  | TNumber "bool option" "jsnumber option" "jsnumber option" "bool option"
  | TObject "IMemberDeclaration list option" "bool option"
  | TTypeReference string "bool option"
  | TTypeAccess string string "bool option"
  | TArray SchemaType "jsnumber option" "jsnumber option" "bool option"
  | TTuple "SchemaType list" nat "SchemaType option" "bool option"
  | TUnion "SchemaType list" "bool option"
  | TIntersection "SchemaType list" "bool option"
  | TLiteral LiteralValue "string option" "bool option"
and IMemberDeclaration =
    IMemberDeclaration
      (member_name: string)
      (member_indexer: "Indexer option")
      (member_type: SchemaType)
      (member_text: "string option")
      (member_required: "bool option")

fun required :: "SchemaType \<Rightarrow> bool option" where
  "required (TBase _ r) = r"
| "required (TString _ r) = r"
| "required (TNumber _ _ _ r) = r"
| "required (TObject _ r) = r"
| "required (TTypeReference _ r) = r"
| "required (TTypeAccess _ _ r) = r"
| "required (TArray _ _ _ r) = r"
| "required (TTuple _ _ _ r) = r"
| "required (TUnion _ r) = r"
| "required (TIntersection _ r) = r"
| "required (TLiteral _ _ r) = r"

text \<open>The assignment \<open>type.required = r\<close>.\<close>

fun setRequired :: "bool \<Rightarrow> SchemaType \<Rightarrow> SchemaType" where
  "setRequired r (TBase k _) = TBase k (Some r)"
| "setRequired r (TString x _) = TString x (Some r)"
| "setRequired r (TNumber i lo hi _) = TNumber i lo hi (Some r)"
| "setRequired r (TObject ms _) = TObject ms (Some r)"
| "setRequired r (TTypeReference n _) = TTypeReference n (Some r)"
| "setRequired r (TTypeAccess n a _) = TTypeAccess n a (Some r)"
| "setRequired r (TArray t lo hi _) = TArray t lo hi (Some r)"
| "setRequired r (TTuple ts m rest _) = TTuple ts m rest (Some r)"
| "setRequired r (TUnion ts _) = TUnion ts (Some r)"
| "setRequired r (TIntersection ts _) = TIntersection ts (Some r)"
| "setRequired r (TLiteral v raw _) = TLiteral v raw (Some r)"

record INamedBinding =
  bound :: "string option"
  binding_name :: string

record IExportDeclaration =
  export_file :: "string option"
  export_namedBindings :: "INamedBinding list"

record IImportDeclaration =
  import_file :: string
  import_namedBindings :: "INamedBinding list"

record IInterfaceDeclaration =
  interface_name :: string
  heritages :: "SchemaType list"
  members :: "IMemberDeclaration list"

record ITypeDeclaration =
  type_name :: string
  type_type :: SchemaType

record IEnumMember =
  enum_member_name :: string
  enum_member_value :: string

record IEnumDeclaration =
  enum_name :: string
  enum_members :: "IEnumMember list"

record ISchema =
  schema_file :: string
  schema_exports :: "IExportDeclaration list"
  schema_imports :: "IImportDeclaration list"
  interfaces :: "IInterfaceDeclaration list"
  types :: "ITypeDeclaration list"
  enums :: "IEnumDeclaration list"

section \<open>File schemas and the orchestrator's store\<close>

record BaseSchemaBuilder =
  schema :: ISchema
  referencedNames :: "string set"
  finalized :: bool

text \<open>
  \<open>SchemaProgram.schemas\<close> is a map from file paths to builders whose values are
  mutated in place and reached both through the map and through \<open>this\<close>.  It is kept as
  a store: \<open>files\<close> lists the keys in insertion order and \<open>builders\<close> gives the object
  held under a key.  A builder is named by its key wherever the source has \<open>this\<close>.
\<close>

record SchemaProgram =
  files :: "string list"
  builders :: "string \<Rightarrow> BaseSchemaBuilder"

text \<open>
  Node's \<open>path\<close> module is outside the repository; the functions used by the builders
  are taken as parameters.
\<close>

record NodePath =
  path_dirname :: "string \<Rightarrow> string"
  path_join :: "string \<Rightarrow> string \<Rightarrow> string"

text \<open>
  The flag sets of the type checker (\<open>ts.TypeFlags\<close>, \<open>ts.ObjectFlags\<close>).  A flags word is kept as
  the list of the flags set in it; \<open>type.flags & (A | B)\<close> is non-zero when one of \<open>A\<close>, \<open>B\<close>
  is in the list.
\<close>

datatype TypeFlags =
    TF_Any | TF_Unknown | TF_String | TF_Number | TF_Boolean | TF_Enum | TF_BigInt
  | TF_StringLiteral | TF_NumberLiteral | TF_BooleanLiteral | TF_EnumLiteral | TF_BigIntLiteral
  | TF_ESSymbol | TF_UniqueESSymbol | TF_Void | TF_Undefined | TF_Null | TF_Never
  | TF_TypeParameter | TF_Object | TF_Union | TF_Intersection
  | TF_Index | TF_IndexedAccess | TF_Conditional | TF_Substitution | TF_NonPrimitive

datatype ObjectFlags =
    OF_Class | OF_Interface | OF_Reference | OF_Tuple | OF_Anonymous | OF_Mapped | OF_Instantiated

text \<open>
  What the generator throws: \<open>new Error(message)\<close>; the error of \<open>compileNonNullableType\<close>
  for a type that matches no classification (its message holds the type's text and the
  names of its flags); and the \<open>TypeError\<close> of reading a property of \<open>undefined\<close>.
\<close>

datatype error =
    Error string
  | UnknownType string "TypeFlags list"
  | TypeError

text \<open>
  Result of a call: \<open>None\<close> when the call stack is exhausted (the fuel bounds the depth of
  nested calls), \<open>Some (Inl e)\<close> when \<open>e\<close> was thrown, \<open>Some (Inr s)\<close> on normal return.
\<close>

type_synonym 'a result = "(error + 'a) option"

definition bind_result :: "'a result \<Rightarrow> ('a \<Rightarrow> 'b result) \<Rightarrow> 'b result" where
  "bind_result r f = (case r of None \<Rightarrow> None | Some (Inl e) \<Rightarrow> Some (Inl e) | Some (Inr x) \<Rightarrow> f x)"

definition getSchema :: "SchemaProgram \<Rightarrow> string \<Rightarrow> string option" where
  "getSchema S f =
     (if f @ '''' \<in> set (files S) then Some (f @ '''')
      else if f @ ''.ts'' \<in> set (files S) then Some (f @ ''.ts'')
      else None)"

definition resolveSourceFile :: "NodePath \<Rightarrow> BaseSchemaBuilder \<Rightarrow> string \<Rightarrow> string" where
  "resolveSourceFile P b f = path_join P (path_dirname P (schema_file (schema b))) f"

definition has :: "SchemaProgram \<Rightarrow> string \<Rightarrow> string \<Rightarrow> bool" where
  "has S k name = (name \<in> referencedNames (builders S k))"

definition add :: "SchemaProgram \<Rightarrow> string \<Rightarrow> string \<Rightarrow> SchemaProgram" where
  "add S k name =
     S\<lparr>builders := (builders S)
         (k := (builders S k)\<lparr>referencedNames := insert name (referencedNames (builders S k))\<rparr>)\<rparr>"

text \<open>\<open>binding.bound || binding.name\<close>: an empty string is falsy too.\<close>

definition boundOrName :: "INamedBinding \<Rightarrow> string" where
  "boundOrName b = (case bound b of None \<Rightarrow> binding_name b
                    | Some x \<Rightarrow> if x = '''' then binding_name b else x)"

definition useEnum :: "SchemaProgram \<Rightarrow> string \<Rightarrow> IEnumDeclaration \<Rightarrow> SchemaProgram" where
  "useEnum S k declaration =
     (if \<not> has S k (enum_name declaration) then add S k (enum_name declaration) else S)"

text \<open>A \<open>for ... of\<close> loop whose body may throw.\<close>

fun forEach :: "'x list \<Rightarrow> ('x \<Rightarrow> 's \<Rightarrow> 's result) \<Rightarrow> 's \<Rightarrow> 's result" where
  "forEach [] f S = Some (Inr S)"
| "forEach (x # xs) f S = bind_result (f x S) (forEach xs f)"

text \<open>
  \<open>use\<close>, \<open>useInterface\<close>, \<open>useType\<close> and \<open>reference\<close> of \<open>BaseSchemaBuilder\<close> and \<open>use\<close> of
  \<open>SchemaProgram\<close> call each other, on cyclic declaration graphs without a structural
  bound.  They are defined together by recursion on the remaining call depth: \<open>run n\<close>
  executes one pending call with \<open>n\<close> stack frames left, and every nested call runs
  with one frame less.  The first component of a call is the key of \<open>this\<close>.
\<close>

datatype call =
    Use string string
  | UseInterface string IInterfaceDeclaration
  | UseType string ITypeDeclaration
  | Reference string SchemaType
  | ProgramUse string string

primrec run :: "nat \<Rightarrow> NodePath \<Rightarrow> call \<Rightarrow> SchemaProgram \<Rightarrow> SchemaProgram result" where
  "run 0 P c S = None"
| "run (Suc n) P c S =
    (case c of
       Use k name \<Rightarrow>
         (case find (\<lambda>declaration. interface_name declaration = name) (interfaces (schema (builders S k))) of
            Some iface \<Rightarrow> run n P (UseInterface k iface) S
          | None \<Rightarrow>
         (case find (\<lambda>declaration. type_name declaration = name) (types (schema (builders S k))) of
            Some type \<Rightarrow> run n P (UseType k type) S
          | None \<Rightarrow>
         (case find (\<lambda>declaration. enum_name declaration = name) (enums (schema (builders S k))) of
            Some enumeration \<Rightarrow> Some (Inr (useEnum S k enumeration))
          | None \<Rightarrow>
            (if finalized (builders S k) then
               bind_result
                 (forEach (schema_imports (schema (builders S k))) (\<lambda>declaration.
                    forEach (import_namedBindings declaration) (\<lambda>binding S'.
                      if name = binding_name binding \<and> \<not> has S' k (binding_name binding)
                      then run n P (ProgramUse (resolveSourceFile P (builders S' k) (import_file declaration))
                                      (boundOrName binding)) S'
                      else Some (Inr S'))) S)
                 (\<lambda>S1.
               bind_result
                 (forEach (schema_exports (schema (builders S1 k))) (\<lambda>declaration S'.
                    case export_file declaration of
                      None \<Rightarrow> Some (Inr S')
                    | Some f \<Rightarrow>
                        if f = '''' then Some (Inr S')
                        else forEach (export_namedBindings declaration) (\<lambda>binding S''.
                          if name = binding_name binding \<and> \<not> has S'' k (binding_name binding)
                          then run n P (ProgramUse (resolveSourceFile P (builders S'' k) f)
                                          (boundOrName binding)) S''
                          else Some (Inr S'')) S') S1)
                 (\<lambda>S2. Some (Inr (add S2 k name))))
             else Some (Inr (add S k name))))))
     | UseInterface k declaration \<Rightarrow>
         (if \<not> has S k (interface_name declaration) then
            bind_result
              (forEach (heritages declaration) (\<lambda>heritage. run n P (Reference k heritage))
                 (add S k (interface_name declaration)))
              (forEach (members declaration) (\<lambda>member. run n P (Reference k (member_type member))))
          else Some (Inr S))
     | UseType k declaration \<Rightarrow>
         (if \<not> has S k (type_name declaration) then
            run n P (Reference k (type_type declaration)) (add S k (type_name declaration))
          else Some (Inr S))
     | Reference k t \<Rightarrow>
         (case t of
            TArray of' _ _ _ \<Rightarrow> run n P (Reference k of') S
          | TTypeAccess name _ _ \<Rightarrow>
              (if \<not> has S k name then
                 bind_result (run n P (Use k name) S) (\<lambda>S1. Some (Inr (add S1 k name)))
               else Some (Inr S))
          | TTypeReference name _ \<Rightarrow>
              (if \<not> has S k name then
                 bind_result (run n P (Use k name) S) (\<lambda>S1. Some (Inr (add S1 k name)))
               else Some (Inr S))
          | TObject ms _ \<Rightarrow>
              forEach (case ms of None \<Rightarrow> [] | Some l \<Rightarrow> l)
                (\<lambda>member. run n P (Reference k (member_type member))) S
          | TTuple of' _ _ _ \<Rightarrow> forEach of' (\<lambda>subType. run n P (Reference k subType)) S
          | TUnion of' _ \<Rightarrow> forEach of' (\<lambda>subType. run n P (Reference k subType)) S
          | TIntersection of' _ \<Rightarrow> forEach of' (\<lambda>subType. run n P (Reference k subType)) S
          | _ \<Rightarrow> Some (Inr S))
     | ProgramUse f name \<Rightarrow>
         (case getSchema S f of
            Some k \<Rightarrow> run n P (Use k name) S
          | None \<Rightarrow> Some (Inl (Error (''Couldn't find schema for: '' @ f)))))"

text \<open>\<open>BaseSchemaBuilder.use\<close> on the builder stored under \<open>k\<close>.\<close>

definition use :: "nat \<Rightarrow> NodePath \<Rightarrow> SchemaProgram \<Rightarrow> string \<Rightarrow> string \<Rightarrow> SchemaProgram result" where
  "use n P S k name = run n P (Use k name) S"

definition useInterface ::
  "nat \<Rightarrow> NodePath \<Rightarrow> SchemaProgram \<Rightarrow> string \<Rightarrow> IInterfaceDeclaration \<Rightarrow> SchemaProgram result" where
  "useInterface n P S k declaration = run n P (UseInterface k declaration) S"

definition useType ::
  "nat \<Rightarrow> NodePath \<Rightarrow> SchemaProgram \<Rightarrow> string \<Rightarrow> ITypeDeclaration \<Rightarrow> SchemaProgram result" where
  "useType n P S k declaration = run n P (UseType k declaration) S"

definition reference :: "nat \<Rightarrow> NodePath \<Rightarrow> SchemaProgram \<Rightarrow> string \<Rightarrow> SchemaType \<Rightarrow> SchemaProgram result" where
  "reference n P S k t = run n P (Reference k t) S"

text \<open>\<open>SchemaProgram.use(file, name)\<close>.\<close>

definition program_use :: "nat \<Rightarrow> NodePath \<Rightarrow> SchemaProgram \<Rightarrow> string \<Rightarrow> string \<Rightarrow> SchemaProgram result" where
  "program_use n P S f name = run n P (ProgramUse f name) S"

text \<open>
  \<open>writeInterface\<close>, \<open>writeType\<close> and \<open>writeEnum\<close> of \<open>BaseSchemaBuilder\<close>: the declaration is
  pushed onto the file schema and, when \<open>shouldRender\<close> is set (the declaration carries the
  \<open>@schema\<close> tag), marked as used.
\<close>

definition writeInterface ::
  "nat \<Rightarrow> NodePath \<Rightarrow> SchemaProgram \<Rightarrow> string \<Rightarrow> IInterfaceDeclaration \<Rightarrow> bool \<Rightarrow> SchemaProgram result" where
  "writeInterface n P S k declaration shouldRender =
     (let b = builders S k;
          S1 = S\<lparr>builders := (builders S)
                 (k := b\<lparr>schema := (schema b)\<lparr>interfaces := interfaces (schema b) @ [declaration]\<rparr>\<rparr>)\<rparr>
      in if shouldRender then useInterface n P S1 k declaration else Some (Inr S1))"

definition writeType ::
  "nat \<Rightarrow> NodePath \<Rightarrow> SchemaProgram \<Rightarrow> string \<Rightarrow> ITypeDeclaration \<Rightarrow> bool \<Rightarrow> SchemaProgram result" where
  "writeType n P S k declaration shouldRender =
     (let b = builders S k;
          S1 = S\<lparr>builders := (builders S)
                 (k := b\<lparr>schema := (schema b)\<lparr>types := types (schema b) @ [declaration]\<rparr>\<rparr>)\<rparr>
      in if shouldRender then useType n P S1 k declaration else Some (Inr S1))"

definition writeEnum ::
  "SchemaProgram \<Rightarrow> string \<Rightarrow> IEnumDeclaration \<Rightarrow> bool \<Rightarrow> SchemaProgram" where
  "writeEnum S k declaration shouldRender =
     (let b = builders S k;
          S1 = S\<lparr>builders := (builders S)
                 (k := b\<lparr>schema := (schema b)\<lparr>enums := enums (schema b) @ [declaration]\<rparr>\<rparr>)\<rparr>
      in if shouldRender then useEnum S1 k declaration else S1)"

definition getUsedImports :: "BaseSchemaBuilder \<Rightarrow> IImportDeclaration list" where
  "getUsedImports b =
     filter (\<lambda>declaration. length (import_namedBindings declaration) > 0)
       (map (\<lambda>declaration.
               \<lparr>import_file = import_file declaration,
                import_namedBindings =
                  filter (\<lambda>binding. binding_name binding \<in> referencedNames b)
                    (import_namedBindings declaration)\<rparr>)
          (schema_imports (schema b)))"

definition getUsedExports :: "BaseSchemaBuilder \<Rightarrow> IExportDeclaration list" where
  "getUsedExports b =
     filter (\<lambda>declaration. length (export_namedBindings declaration) > 0)
       (map (\<lambda>declaration.
               \<lparr>export_file = export_file declaration,
                export_namedBindings =
                  filter (\<lambda>binding. binding_name binding \<in> referencedNames b)
                    (export_namedBindings declaration)\<rparr>)
          (schema_exports (schema b)))"

text \<open>
  \<open>finalize\<close>: the used imports are computed once, before the first loop; the used
  exports after it; the flag is set last.
\<close>

definition finalize :: "nat \<Rightarrow> NodePath \<Rightarrow> SchemaProgram \<Rightarrow> string \<Rightarrow> SchemaProgram result" where
  "finalize n P S k =
     bind_result
       (forEach (getUsedImports (builders S k)) (\<lambda>declaration.
          forEach (import_namedBindings declaration) (\<lambda>binding S'.
            program_use n P S' (resolveSourceFile P (builders S' k) (import_file declaration))
              (boundOrName binding))) S)
       (\<lambda>S1.
     bind_result
       (forEach (getUsedExports (builders S1 k)) (\<lambda>declaration S'.
          case export_file declaration of
            None \<Rightarrow> Some (Inr S')
          | Some f \<Rightarrow>
              if f = '''' then Some (Inr S')
              else forEach (export_namedBindings declaration) (\<lambda>binding S''.
                program_use n P S'' (resolveSourceFile P (builders S'' k) f) (boundOrName binding)) S') S1)
       (\<lambda>S2. Some (Inr (S2\<lparr>builders := (builders S2)(k := (builders S2 k)\<lparr>finalized := True\<rparr>)\<rparr>))))"

text \<open>The second loop of \<open>SchemaProgram.compile\<close>: \<open>finalize\<close> on every schema, in map order.\<close>

definition finalizeAll :: "nat \<Rightarrow> NodePath \<Rightarrow> SchemaProgram \<Rightarrow> SchemaProgram result" where
  "finalizeAll n P S = forEach (files S) (\<lambda>k S'. finalize n P S' k) S"

section \<open>The Type IR Compiler (SchemaProgram)\<close>

text \<open>
  The type checker is an external collaborator.  A \<open>ts.Type\<close> handle is modelled by the
  answers the compiler reads from it: its flags, the name of its alias symbol, its
  symbol (name, the JSDoc tags of its value declaration, the \<open>Optional\<close> symbol flag),
  \<open>checker.typeToString\<close>, the number of call signatures, the \<open>value\<close> of a literal type,
  the constituents of a union or intersection, \<open>checker.getNonNullableType\<close> (\<open>None\<close> when
  it is the type itself), the object flags of the type and of its \<open>target\<close>, the tuple
  target's \<open>minLength\<close> and \<open>hasRestElement\<close>, the type arguments, and the properties with
  \<open>checker.getTypeOfSymbolAtLocation\<close>.  The ambient \<open>this.property\<close> is passed as the list of
  JSDoc tags of the current property declaration (\<open>None\<close> outside a property, or when the
  symbol has no value declaration).
\<close>

record JSDocTag =
  tagName :: string
  comment :: "string option"

record TsSymbol =
  symbol_name :: string
  symbol_valueDeclaration :: "JSDocTag list option"
  symbol_optional :: bool

datatype TsType = TsType
  (flags: "TypeFlags list")
  (aliasSymbol: "string option")
  (symbol: "TsSymbol option")
  (typeToString: string)
  (callSignatures: nat)
  (literal_value: LiteralValue)
  (ts_types: "TsType list")
  (nonNullableType: "TsType option")
  (objectFlags: "ObjectFlags list")
  (target_objectFlags: "ObjectFlags list")
  (target_minLength: nat)
  (target_hasRestElement: bool)
  (typeArguments: "TsType list option")
  (getProperties: "(TsSymbol \<times> TsType) list")

text \<open>
  \<open>strictNullChecks\<close> of the program and the builtin \<open>parseFloat\<close> (\<open>None\<close> for \<open>NaN\<close>).
\<close>

record Checker =
  strictNullChecks :: bool
  parseFloat :: "string \<Rightarrow> jsnumber option"

definition hasFlag :: "TsType \<Rightarrow> TypeFlags list \<Rightarrow> bool" where
  "hasFlag t fs = (\<exists>f \<in> set fs. f \<in> set (flags t))"

definition hasObjectFlag :: "ObjectFlags list \<Rightarrow> ObjectFlags \<Rightarrow> bool" where
  "hasObjectFlag ofs f = (f \<in> set ofs)"

definition symbolHasFlag_Optional :: "TsSymbol \<Rightarrow> bool" where
  "symbolHasFlag_Optional s = symbol_optional s"

text \<open>\<open>Array.prototype.map\<close> with a callback that may throw.\<close>

fun mapE :: "('a \<Rightarrow> error + 'b) \<Rightarrow> 'a list \<Rightarrow> error + 'b list" where
  "mapE f [] = Inr []"
| "mapE f (x # xs) =
     (case f x of Inl e \<Rightarrow> Inl e
      | Inr y \<Rightarrow> (case mapE f xs of Inl e \<Rightarrow> Inl e | Inr ys \<Rightarrow> Inr (y # ys)))"

lemma mapE_cong [fundef_cong]:
  "xs = ys \<Longrightarrow> (\<And>x. x \<in> set ys \<Longrightarrow> f x = g x) \<Longrightarrow> mapE f xs = mapE g ys"
  by (induction ys arbitrary: xs) (auto split: sum.splits)

text \<open>\<open>String.prototype.trim\<close>, on the ASCII white space characters.\<close>

definition isSpace :: "char \<Rightarrow> bool" where
  "isSpace c = (c \<in> {CHR 0x20, CHR 0x09, CHR 0x0A, CHR 0x0B, CHR 0x0C, CHR 0x0D})"

definition trim :: "string \<Rightarrow> string" where
  "trim s = rev (dropWhile isSpace (rev (dropWhile isSpace s)))"

text \<open>
  \<open>getTags(node, options)\<close>: a format is \<open>'exists'\<close>, \<open>'value'\<close> or a function, which is
  \<open>this.parseNumber\<close> at every call site.  The result object is a finite map from tag
  names to values; a later tag of the same name overwrites an earlier one.  A tag name
  is looked up among the keys written in the options literal; the members that the
  literal inherits from \<open>Object.prototype\<close> (a tag named \<open>valueOf\<close>, say) are not part of
  the model.
\<close>

datatype TagFormat = Exists | Value | Parse

datatype TagValue = TagBool bool | TagString string | TagNumber jsnumber

definition parseNumber :: "Checker \<Rightarrow> string \<Rightarrow> jsnumber option" where
  "parseNumber C v = parseFloat C v"

definition getTags :: "Checker \<Rightarrow> JSDocTag list \<Rightarrow> (string \<times> TagFormat) list \<Rightarrow> (string \<rightharpoonup> TagValue)" where
  "getTags C tags options =
     fold (\<lambda>tag result.
        case map_of options (tagName tag) of
          None \<Rightarrow> result
        | Some format \<Rightarrow>
            (case (case format of
                     Exists \<Rightarrow> Some (TagBool True)
                   | Value \<Rightarrow> (case comment tag of None \<Rightarrow> None
                                | Some c \<Rightarrow> Some (TagString (if c = '''' then c else trim c)))
                   | Parse \<Rightarrow> (case comment tag of None \<Rightarrow> None
                                | Some c \<Rightarrow> if c = '''' then None
                                            else map_option TagNumber (parseNumber C c))) of
               None \<Rightarrow> result
             | Some v \<Rightarrow> result(tagName tag \<mapsto> v)))
       tags Map.empty"

definition getPropertyTags :: "Checker \<Rightarrow> JSDocTag list option \<Rightarrow> (string \<times> TagFormat) list \<Rightarrow> (string \<rightharpoonup> TagValue)" where
  "getPropertyTags C property options =
     (case property of None \<Rightarrow> Map.empty | Some tags \<Rightarrow> getTags C tags options)"

definition tagBool :: "(string \<rightharpoonup> TagValue) \<Rightarrow> string \<Rightarrow> bool option" where
  "tagBool r key = (case r key of Some (TagBool b) \<Rightarrow> Some b | _ \<Rightarrow> None)"

definition tagString :: "(string \<rightharpoonup> TagValue) \<Rightarrow> string \<Rightarrow> string option" where
  "tagString r key = (case r key of Some (TagString s) \<Rightarrow> Some s | _ \<Rightarrow> None)"

definition tagNumber :: "(string \<rightharpoonup> TagValue) \<Rightarrow> string \<Rightarrow> jsnumber option" where
  "tagNumber r key = (case r key of Some (TagNumber n) \<Rightarrow> Some n | _ \<Rightarrow> None)"

text \<open>
  \<open>{ type: 'string', ...this.getPropertyTags({ regex: 'value' }) }\<close> and
  \<open>{ type: 'number', ...this.getPropertyTags({ integer: 'exists', min: ..., max: ... }) }\<close>.
\<close>

definition stringSchema :: "Checker \<Rightarrow> JSDocTag list option \<Rightarrow> SchemaType" where
  "stringSchema C property =
     (let tags = getPropertyTags C property [(''regex'', Value)]
      in TString (map_option RegexText (tagString tags ''regex'')) None)"

definition numberSchema :: "Checker \<Rightarrow> JSDocTag list option \<Rightarrow> SchemaType" where
  "numberSchema C property =
     (let tags = getPropertyTags C property [(''integer'', Exists), (''min'', Parse), (''max'', Parse)]
      in TNumber (tagBool tags ''integer'') (tagNumber tags ''min'') (tagNumber tags ''max'') None)"

text \<open>
  The union branch: \<open>findIndex\<close> (\<open>None\<close> for \<open>-1\<close>), the assignment
  \<open>union.of[trueIndex] = { type: 'boolean', required: true }\<close> and \<open>union.of.splice(falseIndex, 1)\<close>.
\<close>

fun findIndex :: "('a \<Rightarrow> bool) \<Rightarrow> 'a list \<Rightarrow> nat option" where
  "findIndex p [] = None"
| "findIndex p (x # xs) = (if p x then Some 0 else map_option Suc (findIndex p xs))"

definition splice1 :: "nat \<Rightarrow> 'a list \<Rightarrow> 'a list" where
  "splice1 i xs = take i xs @ drop (Suc i) xs"

definition isBooleanLiteral :: "bool \<Rightarrow> SchemaType \<Rightarrow> bool" where
  "isBooleanLiteral b t = (case t of TLiteral (VBoolean v) _ _ \<Rightarrow> v = b | _ \<Rightarrow> False)"

definition mergeBooleanLiterals :: "SchemaType list \<Rightarrow> SchemaType list" where
  "mergeBooleanLiterals of' =
     (case (findIndex (isBooleanLiteral True) of', findIndex (isBooleanLiteral False) of') of
        (Some trueIndex, Some falseIndex) \<Rightarrow>
          splice1 falseIndex (of'[trueIndex := TBase KBoolean (Some True)])
      | _ \<Rightarrow> of')"

text \<open>
  \<open>type.aliasSymbol && type.aliasSymbol.name !== ignoreRef\<close>, and the two constants of
  the tuple branch: \<open>types\<close> (\<open>typeArguments?.slice(0, hasRestElement ? -1 : undefined) ?? []\<close>)
  and \<open>rest\<close> (\<open>hasRestElement ? typeArguments?.slice(-1)[0] : undefined\<close>).
\<close>

definition endsWith :: "string \<Rightarrow> string \<Rightarrow> bool" where
  "endsWith s suffix = (length suffix \<le> length s \<and> drop (length s - length suffix) s = suffix)"

definition aliasReference :: "TsType \<Rightarrow> string option \<Rightarrow> string option" where
  "aliasReference t ignoreRef =
     (case aliasSymbol t of
        None \<Rightarrow> None
      | Some name \<Rightarrow> if Some name \<noteq> ignoreRef then Some name else None)"

definition tupleElementTypes :: "TsType \<Rightarrow> TsType list" where
  "tupleElementTypes t =
     (case typeArguments t of
        None \<Rightarrow> []
      | Some args \<Rightarrow> if target_hasRestElement t then butlast args else args)"

definition tupleRest :: "TsType \<Rightarrow> TsType option" where
  "tupleRest t =
     (if target_hasRestElement t then
        (case typeArguments t of
           None \<Rightarrow> None
         | Some args \<Rightarrow> if args = [] then None else Some (last args))
      else None)"

text \<open>Both functions recurse on constituents of the type handle only.\<close>

lemma size_types: "t' \<in> set (ts_types t) \<Longrightarrow> size t' < size t"
  by (cases t) (auto dest!: size_list_estimation'[where f=size and y="size t'"])

lemma size_nonNullableType: "nonNullableType t = Some t' \<Longrightarrow> size t' < size t"
  by (cases t) auto

lemma size_typeArguments: "typeArguments t = Some args \<Longrightarrow> t' \<in> set args \<Longrightarrow> size t' < size t"
  by (cases t) (auto dest!: size_list_estimation'[where f=size and y="size t'"])

lemma size_properties: "(p, t') \<in> set (getProperties t) \<Longrightarrow> size t' < size t"
  by (cases t) (auto dest!: size_list_estimation'[where f="size_prod (\<lambda>_. 0) size" and y="size t'"])

lemma size_typeArguments_hd: "typeArguments t = Some (a # as) \<Longrightarrow> size a < size t"
  using size_typeArguments[of t "a # as" a] by simp

lemma size_tupleRest: "tupleRest t = Some t' \<Longrightarrow> size t' < size t"
  by (cases "typeArguments t")
     (auto simp: tupleRest_def split: if_splits intro: size_typeArguments)

lemma size_tupleElementTypes: "t' \<in> set (tupleElementTypes t) \<Longrightarrow> size t' < size t"
  by (cases "typeArguments t")
     (auto simp: tupleElementTypes_def split: if_splits dest: in_set_butlastD size_typeArguments)

lemma size_enumerate_tupleElementTypes:
  "(i, t') \<in> set (enumerate n (tupleElementTypes t)) \<Longrightarrow> size t' < size t"
  by (auto simp: in_set_enumerate_eq intro: size_tupleElementTypes)

function compileTsType :: "Checker \<Rightarrow> JSDocTag list option \<Rightarrow> TsType \<Rightarrow> string option \<Rightarrow> error + SchemaType"
and compileNonNullableType :: "Checker \<Rightarrow> JSDocTag list option \<Rightarrow> TsType \<Rightarrow> string option \<Rightarrow> error + SchemaType"
where
  "compileTsType C property t ignoreRef =
     (if hasFlag t [TF_Null, TF_Undefined] then
        (case compileNonNullableType C property t None of
           Inl e \<Rightarrow> Inl e
         | Inr schemaType \<Rightarrow>
             Inr (if required schemaType = None then setRequired True schemaType else schemaType))
      else
        (let nullable =
               (if strictNullChecks C
                then hasFlag t [TF_Union] \<and> (\<exists>t' \<in> set (ts_types t). hasFlag t' [TF_Null])
                else (case symbol t of
                        None \<Rightarrow> False
                      | Some s \<Rightarrow>
                          (case symbol_valueDeclaration s of
                             None \<Rightarrow> False
                           | Some tags \<Rightarrow>
                               tagBool (getTags C tags [(''nullable'', Exists), (''undefineable'', Exists)])
                                 ''nullable'' = Some True)));
             undefineable =
               (if strictNullChecks C
                then hasFlag t [TF_Union] \<and> (\<exists>t' \<in> set (ts_types t). hasFlag t' [TF_Undefined])
                else (case symbol t of
                        None \<Rightarrow> False
                      | Some s \<Rightarrow>
                          (case symbol_valueDeclaration s of
                             None \<Rightarrow> False
                           | Some tags \<Rightarrow>
                               tagBool (getTags C tags [(''nullable'', Exists), (''undefineable'', Exists)])
                                 ''undefineable'' = Some True)))
         in
           (case compileNonNullableType C property
                   (case nonNullableType t of None \<Rightarrow> t | Some nonNullable \<Rightarrow> nonNullable) ignoreRef of
              Inl e \<Rightarrow> Inl e
            | Inr schemaType0 \<Rightarrow>
                (let schemaType =
                       (if required schemaType0 = None
                        then setRequired (\<not> undefineable) schemaType0 else schemaType0)
                 in if nullable
                    then Inr (TUnion [schemaType, TBase KNull (Some True)] (Some True))
                    else Inr schemaType))))"
| "compileNonNullableType C property t ignoreRef =
     (case aliasReference t ignoreRef of
        Some name \<Rightarrow> Inr (TTypeReference name None)
      | None \<Rightarrow>
     if hasFlag t [TF_Any] then Inr (TBase KAny None)
     else if hasFlag t [TF_Unknown] then Inr (TBase KUnknown None)
     else if hasFlag t [TF_String] then Inr (stringSchema C property)
     else if hasFlag t [TF_Number] then Inr (numberSchema C property)
     else if hasFlag t [TF_Boolean] then Inr (TBase KBoolean None)
     else if hasFlag t [TF_BigInt] then Inr (TBase KBigint None)
     else if hasFlag t [TF_ESSymbol, TF_UniqueESSymbol] then Inr (TBase KSymbol None)
     else if hasFlag t [TF_Void] then Inr (TBase KVoid (Some False))
     else if hasFlag t [TF_Undefined] then Inr (TBase KUndefined (Some False))
     else if hasFlag t [TF_Null] then Inr (TBase KNull None)
     else if hasFlag t [TF_Never] then Inr (TBase KNever (Some False))
     else if hasFlag t [TF_String] then Inr (TString None None)
     else if callSignatures t > 0 then Inr (TBase KFunc None)
     else if hasFlag t [TF_EnumLiteral] then
       (case symbol t of
          None \<Rightarrow> Inl TypeError
        | Some s \<Rightarrow>
            (let typeString = typeToString t; symbolName = symbol_name s
             in if symbolName = typeString \<or> \<not> endsWith typeString (''.'' @ symbolName)
                then Inr (TTypeReference typeString None)
                else Inr (TTypeAccess (take (length typeString - (length symbolName + 1)) typeString)
                            symbolName None)))
     else if hasFlag t [TF_BooleanLiteral] then
       Inr (TLiteral (VBoolean (typeToString t = ''true'')) None None)
     else if hasFlag t [TF_StringLiteral, TF_NumberLiteral, TF_BigIntLiteral] then
       Inr (TLiteral (literal_value t) None None)
     else if hasFlag t [TF_Union] then
       (case mapE (\<lambda>t'. compileTsType C property t' None) (ts_types t) of
          Inl e \<Rightarrow> Inl e
        | Inr of' \<Rightarrow> Inr (TUnion (mergeBooleanLiterals of') None))
     else if hasFlag t [TF_Intersection] then
       (case mapE (\<lambda>t'. compileTsType C property t' None) (ts_types t) of
          Inl e \<Rightarrow> Inl e
        | Inr of' \<Rightarrow> Inr (TIntersection of' None))
     else if hasFlag t [TF_Object] then
       (let symbolName = (case symbol t of None \<Rightarrow> ''__type'' | Some s \<Rightarrow> symbol_name s)
        in if symbolName \<noteq> ''__type'' then
             (if symbolName = ''Number'' then Inr (numberSchema C property)
              else if symbolName = ''String'' then Inr (stringSchema C property)
              else if symbolName = ''Boolean'' then Inr (TBase KBoolean None)
              else if symbolName = ''BigInt'' then Inr (TBase KBigint None)
              else if symbolName = ''Symbol'' then Inr (TBase KSymbol None)
              else if symbolName = ''Object'' then Inr (TObject None None)
              else if symbolName = ''Date'' then Inr (TBase KDate None)
              else if symbolName = ''Buffer'' then Inr (TBase KBuffer None)
              else if symbolName = ''Array'' then
                (case (case typeArguments t of None \<Rightarrow> [] | Some args \<Rightarrow> args) of
                   [] \<Rightarrow> Inl TypeError
                 | arg # _ \<Rightarrow>
                     (case compileTsType C property arg None of
                        Inl e \<Rightarrow> Inl e
                      | Inr of' \<Rightarrow>
                          (let tags = getPropertyTags C property [(''minLength'', Parse), (''maxLength'', Parse)]
                           in Inr (TArray of' (tagNumber tags ''minLength'') (tagNumber tags ''maxLength'') None))))
              else Inr (TTypeReference symbolName None))
           else if hasObjectFlag (objectFlags t) OF_Reference \<and> hasObjectFlag (target_objectFlags t) OF_Tuple then
             (case (case tupleRest t of
                      None \<Rightarrow> Inr None
                    | Some rest \<Rightarrow> map_sum id Some (compileTsType C property rest None)) of
                Inl e \<Rightarrow> Inl e
              | Inr restElement \<Rightarrow>
                  (case mapE (\<lambda>(i, t').
                          case compileTsType C property t' None of
                            Inl e \<Rightarrow> Inl e
                          | Inr type \<Rightarrow> Inr (setRequired (i < target_minLength t) type))
                        (enumerate 0 (tupleElementTypes t)) of
                     Inl e \<Rightarrow> Inl e
                   | Inr of' \<Rightarrow> Inr (TTuple of' (target_minLength t) restElement None)))
           else
             (case mapE (\<lambda>(prop, propType).
                     case compileTsType C (symbol_valueDeclaration prop) propType None of
                       Inl e \<Rightarrow> Inl e
                     | Inr t0 \<Rightarrow>
                         Inr (IMemberDeclaration (symbol_name prop) None
                                (if required t0 = Some True
                                 then setRequired (\<not> symbolHasFlag_Optional prop) t0 else t0)
                                None None))
                   (getProperties t) of
                Inl e \<Rightarrow> Inl e
              | Inr members' \<Rightarrow> Inr (TObject (Some members') None)))
     else Inl (UnknownType (typeToString t) (flags t)))"
  by pat_completeness auto

termination
  apply (relation "measure (\<lambda>x. case x of Inl (C, prop, t, ig) \<Rightarrow> 2 * size t + 1 | Inr (C, prop, t, ig) \<Rightarrow> 2 * size t)")
  apply (auto dest: size_types size_nonNullableType size_tupleRest size_enumerate_tupleElementTypes
      size_properties size_typeArguments_hd split: option.splits)
  done

declare compileTsType.simps [simp del] compileNonNullableType.simps [simp del]

subsection \<open>Rendering\<close>

text \<open>
  The two renderers, \<open>JoiSchemaBuilder\<close> and \<open>YupSchemaBuilder\<close>, turn the declarations of a
  file schema whose names are in \<open>referencedNames\<close> into source text.  The compiler options
  and everything the renderers take from outside the repository's sources are
  parameters: the module \<open>./defaults\<close> (the two default suffixes), \<open>JSON.stringify\<close> on
  strings, and \<open>path.parse\<close> (its \<open>dir\<close> and \<open>name\<close>), \<open>path.format\<close> (of \<open>dir\<close>, \<open>name\<close> and an
  optional \<open>ext\<close>) and \<open>path.relative\<close>.  A thrown \<open>Error\<close> is the left summand.
\<close>

record ICompilerOptions =
  tscArgs :: "string list"
  tsconfig :: "string option"
  outDir :: "string option"
  fileSuffix :: "string option"
  schemaSuffix :: "string option"
  render :: string

record Defaults =
  Defaults_schemaSuffix :: string
  Defaults_fileSuffix :: string

record RenderEnv =
  options :: ICompilerOptions
  defaults :: Defaults
  JSON_stringify :: "string \<Rightarrow> string"
  path_parse :: "string \<Rightarrow> string \<times> string"
  path_format :: "string \<Rightarrow> string \<Rightarrow> string option \<Rightarrow> string"
  path_relative :: "string \<Rightarrow> string \<Rightarrow> string"


text \<open>
  \<open>indent()\<close> reads the current indentation level, which \<open>indent(callback)\<close> raises by
  one for the duration of the callback; the level is passed down as an argument.
\<close>

definition indent :: "nat \<Rightarrow> int \<Rightarrow> string" where
  "indent indentation offset = replicate (nat ((int indentation + offset) * 2)) CHR '' ''"

definition toSchemaName :: "RenderEnv \<Rightarrow> string \<Rightarrow> string" where
  "toSchemaName E name =
     name @ (case schemaSuffix (options E) of None \<Rightarrow> Defaults_schemaSuffix (defaults E) | Some s \<Rightarrow> s)"

definition getAccessName :: "RenderEnv \<Rightarrow> string \<Rightarrow> string \<Rightarrow> string" where
  "getAccessName E type access =
     (let name = (if type \<noteq> '''' then toSchemaName E type @ ''.members'' else ''members'')
      in if take 1 access = [CHR 0x27] then name @ ''['' @ access @ '']'' else name @ ''.'' @ access)"

definition renderIndexerPattern :: "Indexer \<Rightarrow> string" where
  "renderIndexerPattern indexer =
     (case indexer of
        IndexerNumber \<Rightarrow> ''/^'' @ [CHR 0x5C] @ ''d+(.'' @ [CHR 0x5C] @ ''d+)?$/''
      | IndexerString p \<Rightarrow>
          (case p of None \<Rightarrow> ''/^.*$/'' | Some s \<Rightarrow> if s = '''' then ''/^.*$/'' else s))"


text \<open>
  \<open>JoiSchemaBuilder\<close>.  \<open>renderSchemaType(type, requiredOverride?)\<close> appends \<open>.required()\<close>
  when \<open>requiredOverride ?? type.required\<close> is truthy.  Its other branch, taken when a
  temporary type was registered during the rendering of the rule, is never taken:
  no renderer registers one.  \<open>renderMember\<close> prints \<open>member.text\<close>.
\<close>

definition Joi_renderLiteral :: "RenderEnv \<Rightarrow> LiteralValue \<Rightarrow> error + string" where
  "Joi_renderLiteral E v =
     (case v of
        VBigInt _ \<Rightarrow> Inl (Error ''BigInt not supported'')
      | VString s \<Rightarrow> Inr (''valid('' @ JSON_stringify E s @ '')'')
      | VNumber n \<Rightarrow> Inr (''valid('' @ n @ '')'')
      | VBoolean b \<Rightarrow> Inr (''valid('' @ (if b then ''true'' else ''false'') @ '')''))"

definition Joi_renderString :: "RenderEnv \<Rightarrow> RegexValue option \<Rightarrow> string" where
  "Joi_renderString E r =
     (let regex = (case r of Some (RegexObject x _) \<Rightarrow> x | _ \<Rightarrow> None);
          name = (case r of Some (RegexObject _ n) \<Rightarrow> n | _ \<Rightarrow> None)
      in ''string()'' @
         (case regex of
            None \<Rightarrow> ''''
          | Some x \<Rightarrow>
              if x = '''' then ''''
              else ''.regex('' @ x @
                   (case name of None \<Rightarrow> ''''
                    | Some n \<Rightarrow> if n = '''' then '''' else '', '' @ JSON_stringify E n) @ '')''))"

definition Joi_renderNumber :: "bool option \<Rightarrow> jsnumber option \<Rightarrow> jsnumber option \<Rightarrow> string" where
  "Joi_renderNumber integer min' max' =
     ''number()'' @ (if integer = Some True then ''.integer()'' else '''') @
     (case min' of None \<Rightarrow> '''' | Some m \<Rightarrow> ''.min('' @ m @ '')'') @
     (case max' of None \<Rightarrow> '''' | Some m \<Rightarrow> ''.max('' @ m @ '')'')"

lemma size_list_member: "x \<in> set xs \<Longrightarrow> f x < size_list f xs"
  by (induction xs) auto

lemma size_member_type: "size (member_type m) < size m"
  by (cases m) simp

lemma size_find_member: "xs \<noteq> [] \<Longrightarrow> size_option f (find P xs) \<le> size_list f xs"
proof (cases "find P xs")
  case None
  assume "xs \<noteq> []"
  then show ?thesis using None by (cases xs) simp_all
next
  case (Some x)
  then have "x \<in> set xs" by (auto simp: find_Some_iff)
  then have "f x < size_list f xs" by (rule size_list_member)
  then show ?thesis using Some by simp
qed

lemma size_member_type3: "Suc (3 * size (member_type m)) \<le> 3 * size m"
  using size_member_type[of m] by linarith

lemma find_member: "find P xs = Some x \<Longrightarrow> x \<in> set xs"
  by (auto simp: find_Some_iff)

function Joi_renderSchemaType :: "RenderEnv \<Rightarrow> nat \<Rightarrow> SchemaType \<Rightarrow> bool option \<Rightarrow> error + string"
and Joi_renderRule :: "RenderEnv \<Rightarrow> nat \<Rightarrow> SchemaType \<Rightarrow> error + string"
and Joi_renderTypeListItem :: "RenderEnv \<Rightarrow> nat \<Rightarrow> SchemaType \<Rightarrow> error + string"
and Joi_renderMembers :: "RenderEnv \<Rightarrow> nat \<Rightarrow> IMemberDeclaration list option \<Rightarrow> error + string"
and Joi_renderMember :: "RenderEnv \<Rightarrow> nat \<Rightarrow> IMemberDeclaration \<Rightarrow> error + string"
and Joi_renderIndexer :: "RenderEnv \<Rightarrow> nat \<Rightarrow> IMemberDeclaration option \<Rightarrow> error + string"
where
  "Joi_renderSchemaType E ind t requiredOverride =
     (case Joi_renderRule E ind t of
        Inl e \<Rightarrow> Inl e
      | Inr rule \<Rightarrow>
          Inr (''Joi.'' @ rule @
               (if (case requiredOverride of Some b \<Rightarrow> b | None \<Rightarrow> required t = Some True)
                then ''.required()'' else '''')))"
| "Joi_renderRule E ind t =
     (case t of
        TBase k _ \<Rightarrow>
          (case k of
             KUnknown \<Rightarrow> Inr ''any()''
           | KAny \<Rightarrow> Inr ''any()''
           | KFunc \<Rightarrow> Inr ''func()''
           | KDate \<Rightarrow> Inr ''date()''
           | KBuffer \<Rightarrow> Inr ''binary()''
           | KSymbol \<Rightarrow> Inr ''symbol()''
           | KNull \<Rightarrow> Inr ''valid(null)''
           | KNever \<Rightarrow> Inr ''forbidden()''
           | KBoolean \<Rightarrow> Inr ''boolean()''
           | KVoid \<Rightarrow> Inr ''valid([]).optional()''
           | KUndefined \<Rightarrow> Inr ''valid([]).optional()''
           | KBigint \<Rightarrow> Inl (Error ''BigInt not supported''))
      | TLiteral v _ _ \<Rightarrow> Joi_renderLiteral E v
      | TTypeReference name _ \<Rightarrow> Inr (''lazy(() => '' @ toSchemaName E name @ '')'')
      | TTypeAccess name access _ \<Rightarrow> Inr (''lazy(() => '' @ getAccessName E name access @ '')'')
      | TString r _ \<Rightarrow> Inr (Joi_renderString E r)
      | TObject ms _ \<Rightarrow>
          (case Joi_renderMembers E ind ms of
             Inl e \<Rightarrow> Inl e
           | Inr s \<Rightarrow> Inr (''object()'' @ s))
      | TArray of' minLength maxLength _ \<Rightarrow>
          (case Joi_renderSchemaType E ind of' (Some False) of
             Inl e \<Rightarrow> Inl e
           | Inr items \<Rightarrow>
               Inr (''array().items('' @ items @ '')'' @
                    (case minLength of None \<Rightarrow> '''' | Some m \<Rightarrow> ''.min('' @ m @ '')'') @
                    (case maxLength of None \<Rightarrow> '''' | Some m \<Rightarrow> ''.max('' @ m @ '')'') @
                    (if required of' = Some True then '''' else ''.sparse()'')))
      | TUnion of' _ \<Rightarrow>
          (case mapE (Joi_renderTypeListItem E ind) of' of
             Inl e \<Rightarrow> Inl e
           | Inr items \<Rightarrow>
               Inr (''alternatives(\<newline>'' @ concat items @ indent ind (- 1) @ '')''))
      | TTuple of' _ rest _ \<Rightarrow>
          (case mapE (Joi_renderTypeListItem E ind) of' of
             Inl e \<Rightarrow> Inl e
           | Inr items \<Rightarrow>
               (let rule = ''array().ordered(\<newline>'' @ concat items @ indent ind (- 1) @ '')''
                in case rest of
                     None \<Rightarrow> Inr rule
                   | Some r \<Rightarrow>
                       (case Joi_renderSchemaType E ind r (Some False) of
                          Inl e \<Rightarrow> Inl e
                        | Inr s \<Rightarrow> Inr (rule @ ''.items('' @ s @ '')''))))
      | TNumber integer min' max' _ \<Rightarrow> Inr (Joi_renderNumber integer min' max')
      | TIntersection _ _ \<Rightarrow> Inl (Error ''Intersection not supported for @hapi/joi@1.15''))"
| "Joi_renderTypeListItem E ind t =
     (case Joi_renderSchemaType E (Suc ind) t None of
        Inl e \<Rightarrow> Inl e
      | Inr schemaType \<Rightarrow> Inr (indent ind 0 @ schemaType @ '',\<newline>''))"
| "Joi_renderMembers E ind ms =
     (case ms of
        None \<Rightarrow> Inr ''''
      | Some l \<Rightarrow>
          if length l > 0 then
            (case mapE (Joi_renderMember E ind) l of
               Inl e \<Rightarrow> Inl e
             | Inr properties \<Rightarrow>
                 (case Joi_renderIndexer E ind (find (\<lambda>m. member_indexer m \<noteq> None) l) of
                    Inl e \<Rightarrow> Inl e
                  | Inr indexer \<Rightarrow>
                      Inr (''.keys({\<newline>'' @ concat properties @ indent ind (- 1) @ ''})'' @ indexer)))
          else Inr '''')"
| "Joi_renderMember E ind m =
     (if member_indexer m \<noteq> None then Inr ''''
      else
        (case Joi_renderSchemaType E (Suc ind) (member_type m) None of
           Inl e \<Rightarrow> Inl e
         | Inr type \<Rightarrow>
             Inr (indent ind 0 @ (case member_text m of None \<Rightarrow> ''undefined'' | Some x \<Rightarrow> x) @
                  '': '' @ type @ '',\<newline>'')))"
| "Joi_renderIndexer E ind mo =
     (case mo of
        None \<Rightarrow> Inr ''''
      | Some m \<Rightarrow>
          (case member_indexer m of
             None \<Rightarrow> Inr ''''
           | Some indexer \<Rightarrow>
               (case Joi_renderSchemaType E ind (member_type m) None of
                  Inl e \<Rightarrow> Inl e
                | Inr s \<Rightarrow> Inr (''.pattern('' @ renderIndexerPattern indexer @ '', '' @ s @ '')''))))"
  by pat_completeness auto
termination
  apply (relation "measure (\<lambda>x. case x of
      Inl (Inl (E, ind, t, ov)) \<Rightarrow> 3 * size t + 1
    | Inl (Inr (Inl (E, ind, t))) \<Rightarrow> 3 * size t
    | Inl (Inr (Inr (E, ind, t))) \<Rightarrow> 3 * size t + 2
    | Inr (Inl (E, ind, ms)) \<Rightarrow> 3 * size_option (size_list size) ms + 2
    | Inr (Inr (Inl (E, ind, m))) \<Rightarrow> 3 * size m + 1
    | Inr (Inr (Inr (E, ind, mo))) \<Rightarrow> 3 * size_option size mo + 2)")
  apply (auto dest: size_list_member[where f=size]
      simp: less_Suc_eq_le size_member_type3 intro: less_imp_le)
  subgoal for E ind l
    using size_find_member[of l size "\<lambda>m. \<exists>y. member_indexer m = Some y"] by simp
  subgoal for m
    using size_member_type3[of m] by simp
  done


text \<open>
  \<open>YupSchemaBuilder\<close>.  \<open>renderSchemaType(type, required = false)\<close> pushes the flag as
  \<open>context.isRequired\<close>, which \<open>required(text)\<close> reads while the rule is rendered; the flag
  is passed down as an argument.  Unions, tuples, intersections and indexers throw.
\<close>

definition Yup_required :: "bool \<Rightarrow> string \<Rightarrow> string" where
  "Yup_required isRequired type = type @ (if isRequired then ''.required()'' else '''')"

definition Yup_renderString :: "RegexValue option \<Rightarrow> string" where
  "Yup_renderString r =
     ''string()'' @
     (case r of
        None \<Rightarrow> ''''
      | Some (RegexText x) \<Rightarrow> if x = '''' then '''' else ''.matches('' @ x @ '')''
      | Some (RegexObject _ _) \<Rightarrow> ''.matches([object Object])'')"

definition Yup_renderNumber :: "bool option \<Rightarrow> jsnumber option \<Rightarrow> jsnumber option \<Rightarrow> string" where
  "Yup_renderNumber integer min' max' =
     concat (map (\<lambda>part. case part of None \<Rightarrow> '''' | Some x \<Rightarrow> x)
       (filter (\<lambda>part. part \<noteq> None)
          [Some ''number()'',
           if integer = Some True then Some ''.integer()'' else None,
           case min' of None \<Rightarrow> None | Some m \<Rightarrow> Some (''.min('' @ m @ '')''),
           case max' of None \<Rightarrow> None | Some m \<Rightarrow> Some (''.max('' @ m @ '')'')]))"

definition Yup_renderIndexer :: "IMemberDeclaration option \<Rightarrow> error + string" where
  "Yup_renderIndexer mo =
     (case mo of
        None \<Rightarrow> Inr ''''
      | Some m \<Rightarrow>
          if member_indexer m \<noteq> None then Inl (Error ''Indexer currently not supported'')
          else Inr '''')"

function Yup_renderSchemaType :: "RenderEnv \<Rightarrow> nat \<Rightarrow> SchemaType \<Rightarrow> bool option \<Rightarrow> error + string"
and Yup_renderRule :: "RenderEnv \<Rightarrow> nat \<Rightarrow> bool \<Rightarrow> SchemaType \<Rightarrow> error + string"
and Yup_renderMembers :: "RenderEnv \<Rightarrow> nat \<Rightarrow> IMemberDeclaration list option \<Rightarrow> error + string"
and Yup_renderMember :: "RenderEnv \<Rightarrow> nat \<Rightarrow> IMemberDeclaration \<Rightarrow> error + string"
where
  "Yup_renderSchemaType E ind t required' =
     (case Yup_renderRule E ind (case required' of None \<Rightarrow> False | Some b \<Rightarrow> b) t of
        Inl e \<Rightarrow> Inl e
      | Inr rule \<Rightarrow> Inr (''Yup.'' @ rule))"
| "Yup_renderRule E ind isRequired t =
     (case t of
        TBase k _ \<Rightarrow>
          (case k of
             KUnknown \<Rightarrow> Inr ''mixed()''
           | KAny \<Rightarrow> Inr ''mixed()''
           | KFunc \<Rightarrow> Inl (Error ''Function not supported'')
           | KDate \<Rightarrow> Inr (Yup_required isRequired ''date()'')
           | KBuffer \<Rightarrow> Inl (Error ''Buffer not supported'')
           | KSymbol \<Rightarrow> Inl (Error ''Symbol not supported'')
           | KNull \<Rightarrow> Inr (Yup_required isRequired ''mixed().oneOf([null] as const)'')
           | KNever \<Rightarrow> Inl (Error ''Never not supported'')
           | KBoolean \<Rightarrow> Inr (Yup_required isRequired ''boolean()'')
           | KVoid \<Rightarrow> Inr (Yup_required isRequired ''mixed().oneOf([undefined] as const)'')
           | KUndefined \<Rightarrow> Inr (Yup_required isRequired ''mixed().oneOf([undefined] as const)'')
           | KBigint \<Rightarrow> Inl (Error ''BigInt not supported''))
      | TLiteral v rawLiteral _ \<Rightarrow>
          Inr (Yup_required isRequired
                 (''mixed().oneOf(['' @ (case rawLiteral of None \<Rightarrow> ''undefined'' | Some x \<Rightarrow> x) @
                  ''] as const)''))
      | TTypeReference name _ \<Rightarrow>
          Inr (''lazy(() => '' @ Yup_required isRequired (toSchemaName E name) @ '')'')
      | TTypeAccess name access _ \<Rightarrow>
          Inr (''lazy(() => '' @ Yup_required isRequired (getAccessName E name access) @ '')'')
      | TString r _ \<Rightarrow> Inr (Yup_required isRequired (Yup_renderString r))
      | TObject ms _ \<Rightarrow>
          (case Yup_renderMembers E ind ms of
             Inl e \<Rightarrow> Inl e
           | Inr s \<Rightarrow> Inr (Yup_required isRequired (''object()'' @ s)))
      | TArray of' _ _ _ \<Rightarrow>
          (case Yup_renderSchemaType E ind of' None of
             Inl e \<Rightarrow> Inl e
           | Inr s \<Rightarrow> Inr (Yup_required isRequired (''array().of('' @ s @ '')'')))
      | TUnion _ _ \<Rightarrow> Inl (Error ''Union not supported'')
      | TTuple _ _ _ _ \<Rightarrow> Inl (Error ''Tuple not supported'')
      | TNumber integer min' max' _ \<Rightarrow> Inr (Yup_required isRequired (Yup_renderNumber integer min' max'))
      | TIntersection _ _ \<Rightarrow> Inl (Error ''Intersection currently not supported''))"
| "Yup_renderMembers E ind ms =
     (case ms of
        None \<Rightarrow> Inr ''''
      | Some l \<Rightarrow>
          if length l > 0 then
            (case mapE (Yup_renderMember E ind) l of
               Inl e \<Rightarrow> Inl e
             | Inr properties \<Rightarrow>
                 (case Yup_renderIndexer (find (\<lambda>m. member_indexer m \<noteq> None) l) of
                    Inl e \<Rightarrow> Inl e
                  | Inr indexer \<Rightarrow>
                      Inr (''.shape({\<newline>'' @ concat properties @ indent ind (- 1) @ ''})'' @ indexer)))
          else Inr '''')"
| "Yup_renderMember E ind m =
     (if member_indexer m \<noteq> None then Inr ''''
      else
        (case Yup_renderSchemaType E (Suc ind) (member_type m) (member_required m) of
           Inl e \<Rightarrow> Inl e
         | Inr type \<Rightarrow> Inr (indent ind 0 @ member_name m @ '': '' @ type @ '',\<newline>'')))"
  by pat_completeness auto
termination
  apply (relation "measure (\<lambda>x. case x of
      Inl (Inl (E, ind, t, r)) \<Rightarrow> 3 * size t + 1
    | Inl (Inr (E, ind, r, t)) \<Rightarrow> 3 * size t
    | Inr (Inl (E, ind, ms)) \<Rightarrow> 3 * size_option (size_list size) ms + 2
    | Inr (Inr (E, ind, m)) \<Rightarrow> 3 * size m + 1)")
  apply (auto dest: size_list_member[where f=size]
      simp: less_Suc_eq_le size_member_type3 intro: less_imp_le)
  done

declare Joi_renderSchemaType.simps [simp del] Joi_renderRule.simps [simp del]
  Joi_renderTypeListItem.simps [simp del] Joi_renderMembers.simps [simp del]
  Joi_renderMember.simps [simp del] Joi_renderIndexer.simps [simp del]
  Yup_renderSchemaType.simps [simp del] Yup_renderRule.simps [simp del]
  Yup_renderMembers.simps [simp del] Yup_renderMember.simps [simp del]


text \<open>
  The comparison function both renderers pass to \<open>Array.prototype.sort\<close> in
  \<open>renderInterfaces\<close>, and the sort as Node's engine performs it on an array of fewer
  than 64 elements: the run at the start of the array is taken, ascending (each element
  not less than the one before) or strictly descending (then reversed) according to the
  comparison of the second element with the first, and every further element is put
  into the sorted part at the place a binary search with \<open>compareFn(pivot, element)\<close>
  finds.  Longer arrays, which the engine cuts into several such runs and merges, are
  sorted here the same way.
\<close>

definition heritageCompare :: "IInterfaceDeclaration \<Rightarrow> IInterfaceDeclaration \<Rightarrow> int" where
  "heritageCompare a b =
     (if \<exists>decl \<in> set (heritages a).
           (case decl of TTypeReference name _ \<Rightarrow> name = interface_name b | _ \<Rightarrow> False) then - 1
      else if \<exists>decl \<in> set (heritages b).
           (case decl of TTypeReference name _ \<Rightarrow> name = interface_name a | _ \<Rightarrow> False) then 1
      else 0)"

fun countRun :: "('a \<Rightarrow> 'a \<Rightarrow> int) \<Rightarrow> bool \<Rightarrow> 'a \<Rightarrow> 'a list \<Rightarrow> nat" where
  "countRun compareFn isDescending previousElement [] = 0"
| "countRun compareFn isDescending previousElement (currentElement # rest) =
     (let order = compareFn currentElement previousElement
      in if (if isDescending then order \<ge> 0 else order < 0) then 0
         else Suc (countRun compareFn isDescending currentElement rest))"

definition countAndMakeRun :: "('a \<Rightarrow> 'a \<Rightarrow> int) \<Rightarrow> 'a list \<Rightarrow> 'a list \<times> 'a list" where
  "countAndMakeRun compareFn workArray =
     (case workArray of
        elementHigh # elementLow # rest \<Rightarrow>
          (let isDescending = (compareFn elementLow elementHigh < 0);
               runLength = 2 + countRun compareFn isDescending elementLow rest
           in (if isDescending then rev (take runLength workArray) else take runLength workArray,
               drop runLength workArray))
      | _ \<Rightarrow> (workArray, []))"

function binarySearch :: "('a \<Rightarrow> 'a \<Rightarrow> int) \<Rightarrow> 'a \<Rightarrow> 'a list \<Rightarrow> nat \<Rightarrow> nat \<Rightarrow> nat" where
  "binarySearch compareFn pivot workArray left right =
     (if left < right then
        (if compareFn pivot (workArray ! (left + (right - left) div 2)) < 0
         then binarySearch compareFn pivot workArray left (left + (right - left) div 2)
         else binarySearch compareFn pivot workArray (left + (right - left) div 2 + 1) right)
      else left)"
  by pat_completeness auto
termination
  by (relation "measure (\<lambda>(compareFn, pivot, workArray, left, right). right - left)") auto

declare binarySearch.simps [simp del]

fun binaryInsertionSort :: "('a \<Rightarrow> 'a \<Rightarrow> int) \<Rightarrow> 'a list \<Rightarrow> 'a list \<Rightarrow> 'a list" where
  "binaryInsertionSort compareFn sortedPart [] = sortedPart"
| "binaryInsertionSort compareFn sortedPart (pivot # rest) =
     (let left = binarySearch compareFn pivot sortedPart 0 (length sortedPart)
      in binaryInsertionSort compareFn (take left sortedPart @ [pivot] @ drop left sortedPart) rest)"

definition sort_js :: "('a \<Rightarrow> 'a \<Rightarrow> int) \<Rightarrow> 'a list \<Rightarrow> 'a list" where
  "sort_js compareFn xs =
     (let (run, rest) = countAndMakeRun compareFn xs in binaryInsertionSort compareFn run rest)"


text \<open>
  \<open>Array.prototype.join\<close>, and \<open>a || b\<close> on an optional string.  An array interpolated into
  a template string is joined with commas (\<open>renderHeritage\<close>).
\<close>

definition join :: "string \<Rightarrow> string list \<Rightarrow> string" where
  "join sep xs = (case xs of [] \<Rightarrow> '''' | x # rest \<Rightarrow> x @ concat (map (\<lambda>y. sep @ y) rest))"

definition orElse :: "string option \<Rightarrow> string \<Rightarrow> string" where
  "orElse a b = (case a of None \<Rightarrow> b | Some x \<Rightarrow> if x = '''' then b else x)"

definition renderImportExport :: "RenderEnv \<Rightarrow> string \<Rightarrow> string option \<Rightarrow> INamedBinding list \<Rightarrow> string" where
  "renderImportExport E type declaration_file declaration_namedBindings =
     (let namedBindings =
            map (\<lambda>binding.
                   case bound binding of
                     None \<Rightarrow> toSchemaName E (binding_name binding)
                   | Some b \<Rightarrow>
                       if b = '''' then toSchemaName E (binding_name binding)
                       else toSchemaName E b @ '' as '' @ toSchemaName E (binding_name binding))
              declaration_namedBindings;
          from' =
            (case declaration_file of
               None \<Rightarrow> ''''
             | Some filePath \<Rightarrow>
                 if filePath = '''' then ''''
                 else
                   (let (dir, name) = path_parse E filePath;
                        outPath = path_format E (orElse (outDir (options E)) dir)
                                    (name @ orElse (fileSuffix (options E)) (Defaults_fileSuffix (defaults E)))
                                    None
                    in '' from '' @ [CHR 0x27] @ ''./'' @
                       path_relative E (orElse (outDir (options E)) ''./'') outPath @ [CHR 0x27]))
      in type @ '' { '' @ join '', '' namedBindings @ '' }'' @ from' @ '';\<newline>'')"

definition renderImports :: "RenderEnv \<Rightarrow> BaseSchemaBuilder \<Rightarrow> string" where
  "renderImports E b =
     concat (map (\<lambda>declaration.
                    renderImportExport E ''import'' (Some (import_file declaration))
                      (import_namedBindings declaration))
               (getUsedImports b))"

definition renderExports :: "RenderEnv \<Rightarrow> BaseSchemaBuilder \<Rightarrow> string" where
  "renderExports E b =
     concat (map (\<lambda>declaration.
                    renderImportExport E ''export'' (export_file declaration)
                      (export_namedBindings declaration))
               (getUsedExports b))"

definition Joi_renderEnum :: "RenderEnv \<Rightarrow> IEnumDeclaration \<Rightarrow> string" where
  "Joi_renderEnum E declaration =
     join ''\<newline>''
       ([''export const '' @ toSchemaName E (enum_name declaration) @ '' = (() => {'',
         ''  const members = {''] @
        map (\<lambda>member. ''    '' @ enum_member_name member @ '': Joi.valid('' @ enum_member_value member @
                        '').required(),'') (enum_members declaration) @
        [''  };'',
         ''  return {'',
         ''    ...Joi.valid('' @ join '', '' (map enum_member_value (enum_members declaration)) @
           '').required(),'',
         ''    members,'',
         ''  };'',
         ''})();\<newline>\<newline>''])"

definition Yup_renderEnum :: "RenderEnv \<Rightarrow> IEnumDeclaration \<Rightarrow> string" where
  "Yup_renderEnum E declaration =
     join ''\<newline>''
       ([''export const '' @ toSchemaName E (enum_name declaration) @ '' = (() => {'',
         ''  const members = {''] @
        map (\<lambda>member. ''    '' @ enum_member_name member @ '': Yup.mixed().oneOf(['' @
                        enum_member_value member @ ''] as const),'') (enum_members declaration) @
        [''  };'',
         ''  return {'',
         ''    ...Yup.mixed().oneOf(['' @ join '', '' (map enum_member_value (enum_members declaration)) @
           ''] as const),'',
         ''    members,'',
         ''  };'',
         ''})()\<newline>\<newline>''])"

definition renderHeritage :: "RenderEnv \<Rightarrow> IInterfaceDeclaration \<Rightarrow> string" where
  "renderHeritage E declaration =
     join '',''
       (map (\<lambda>heritage.
               case heritage of
                 TTypeReference name _ \<Rightarrow> ''.concat('' @ toSchemaName E name @ '')''
               | _ \<Rightarrow> '''')
          (heritages declaration))"

definition referencedInterfaces :: "BaseSchemaBuilder \<Rightarrow> IInterfaceDeclaration list" where
  "referencedInterfaces b =
     sort_js heritageCompare
       (filter (\<lambda>declaration. interface_name declaration \<in> referencedNames b) (interfaces (schema b)))"

definition Joi_renderInterface :: "RenderEnv \<Rightarrow> IInterfaceDeclaration \<Rightarrow> error + string" where
  "Joi_renderInterface E declaration =
     (case Joi_renderMembers E 1 (Some (members declaration)) of
        Inl e \<Rightarrow> Inl e
      | Inr members' \<Rightarrow>
          Inr (''export const '' @ toSchemaName E (interface_name declaration) @ '' = Joi.object()'' @
               renderHeritage E declaration @ members' @ ''.required().strict();\<newline>\<newline>''))"

definition Joi_renderType :: "RenderEnv \<Rightarrow> ITypeDeclaration \<Rightarrow> error + string" where
  "Joi_renderType E declaration =
     (case Joi_renderSchemaType E 1 (type_type declaration) None of
        Inl e \<Rightarrow> Inl e
      | Inr s \<Rightarrow>
          Inr (''export const '' @ toSchemaName E (type_name declaration) @ '' = '' @ s @
               ''.strict();\<newline>\<newline>''))"

definition Yup_renderInterface :: "RenderEnv \<Rightarrow> IInterfaceDeclaration \<Rightarrow> error + string" where
  "Yup_renderInterface E declaration =
     (case Yup_renderMembers E 1 (Some (members declaration)) of
        Inl e \<Rightarrow> Inl e
      | Inr members' \<Rightarrow>
          Inr (''export const '' @ toSchemaName E (interface_name declaration) @ '' = Yup.object()'' @
               renderHeritage E declaration @ members' @ ''.strict(true);\<newline>\<newline>''))"

definition Yup_renderType :: "RenderEnv \<Rightarrow> ITypeDeclaration \<Rightarrow> error + string" where
  "Yup_renderType E declaration =
     (case Yup_renderSchemaType E 1 (type_type declaration) None of
        Inl e \<Rightarrow> Inl e
      | Inr s \<Rightarrow>
          Inr (''export const '' @ toSchemaName E (type_name declaration) @ '' = '' @ s @
               ''.strict(true);\<newline>\<newline>''))"

definition Joi_renderInterfaces :: "RenderEnv \<Rightarrow> BaseSchemaBuilder \<Rightarrow> error + string" where
  "Joi_renderInterfaces E b = map_sum id concat (mapE (Joi_renderInterface E) (referencedInterfaces b))"

definition Yup_renderInterfaces :: "RenderEnv \<Rightarrow> BaseSchemaBuilder \<Rightarrow> error + string" where
  "Yup_renderInterfaces E b = map_sum id concat (mapE (Yup_renderInterface E) (referencedInterfaces b))"

definition Joi_renderTypes :: "RenderEnv \<Rightarrow> BaseSchemaBuilder \<Rightarrow> error + string" where
  "Joi_renderTypes E b =
     map_sum id concat
       (mapE (Joi_renderType E)
          (filter (\<lambda>declaration. type_name declaration \<in> referencedNames b) (types (schema b))))"

definition Yup_renderTypes :: "RenderEnv \<Rightarrow> BaseSchemaBuilder \<Rightarrow> error + string" where
  "Yup_renderTypes E b =
     map_sum id concat
       (mapE (Yup_renderType E)
          (filter (\<lambda>declaration. type_name declaration \<in> referencedNames b) (types (schema b))))"

definition Joi_renderEnums :: "RenderEnv \<Rightarrow> BaseSchemaBuilder \<Rightarrow> string" where
  "Joi_renderEnums E b =
     concat (map (Joi_renderEnum E)
               (filter (\<lambda>declaration. enum_name declaration \<in> referencedNames b) (enums (schema b))))"

definition Yup_renderEnums :: "RenderEnv \<Rightarrow> BaseSchemaBuilder \<Rightarrow> string" where
  "Yup_renderEnums E b =
     concat (map (Yup_renderEnum E)
               (filter (\<lambda>declaration. enum_name declaration \<in> referencedNames b) (enums (schema b))))"


text \<open>
  \<open>createSchemaBuilder\<close> chooses the renderer by the \<open>render\<close> option; \<open>render\<close> of the chosen
  builder returns \<open>null\<close> (here \<open>None\<close>) when nothing but white space was rendered.
\<close>

definition Joi_render :: "RenderEnv \<Rightarrow> BaseSchemaBuilder \<Rightarrow> error + string option" where
  "Joi_render E b =
     (case Joi_renderInterfaces E b of
        Inl e \<Rightarrow> Inl e
      | Inr interfaces' \<Rightarrow>
          (case Joi_renderTypes E b of
             Inl e \<Rightarrow> Inl e
           | Inr types' \<Rightarrow>
               (let result = trim (renderImports E b @ renderExports E b @ ''\<newline>'' @
                                   Joi_renderEnums E b @ interfaces' @ types')
                in if result \<noteq> ''''
                   then Inr (Some (''import * as Joi from '' @ [CHR 0x27] @ ''@hapi/joi'' @ [CHR 0x27] @
                                   '';\<newline>\<newline>'' @ result))
                   else Inr None)))"

definition Yup_render :: "RenderEnv \<Rightarrow> BaseSchemaBuilder \<Rightarrow> error + string option" where
  "Yup_render E b =
     (case Yup_renderInterfaces E b of
        Inl e \<Rightarrow> Inl e
      | Inr interfaces' \<Rightarrow>
          (case Yup_renderTypes E b of
             Inl e \<Rightarrow> Inl e
           | Inr types' \<Rightarrow>
               (let result = trim (renderImports E b @ renderExports E b @ ''\<newline>'' @
                                   Yup_renderEnums E b @ interfaces' @ types')
                in if result \<noteq> ''''
                   then Inr (Some (''import * as Yup from '' @ [CHR 0x27] @ ''yup'' @ [CHR 0x27] @
                                   '';\<newline>\<newline>'' @ result))
                   else Inr None)))"

definition builder_render :: "RenderEnv \<Rightarrow> BaseSchemaBuilder \<Rightarrow> error + string option" where
  "builder_render E b =
     (if render (options E) = ''yup'' \<or> render (options E) = ''yup-0.29'' then Yup_render E b
      else if render (options E) = ''joi'' \<or> render (options E) = ''joi-15'' then Joi_render E b
      else Inl (Error (''Invalid render option: '' @ render (options E))))"


text \<open>
  The last two loops of \<open>SchemaProgram.compile\<close>: every schema is finalized, then every
  schema is rendered, in map order.  Neither loop catches an exception.
\<close>

record ICompilationResult =
  schemaFile :: string
  content :: string

definition renderAll :: "RenderEnv \<Rightarrow> SchemaProgram \<Rightarrow> error + ICompilationResult list" where
  "renderAll E S =
     map_sum id (\<lambda>rs. concat (map (\<lambda>r. case r of None \<Rightarrow> [] | Some x \<Rightarrow> [x]) rs))
       (mapE (\<lambda>f.
           case builder_render E (builders S f) of
             Inl e \<Rightarrow> Inl e
           | Inr None \<Rightarrow> Inr None
           | Inr (Some c) \<Rightarrow>
               (let (dir, name) = path_parse E f;
                    outFile = path_format E (orElse (outDir (options E)) dir)
                                (name @ orElse (fileSuffix (options E)) (Defaults_fileSuffix (defaults E)))
                                (Some ''.ts'')
                in Inr (Some \<lparr>schemaFile = path_relative E ''./'' outFile, content = c\<rparr>)))
         (files S))"

definition compile_finish :: "nat \<Rightarrow> NodePath \<Rightarrow> RenderEnv \<Rightarrow> SchemaProgram \<Rightarrow> ICompilationResult list result" where
  "compile_finish n P E S = bind_result (finalizeAll n P S) (\<lambda>S'. Some (renderAll E S'))"


text \<open>A schema type that holds a tuple node, at any depth below arrays, object members,
  unions and intersections; a member whose type does.\<close>

primrec containsTuple :: "SchemaType \<Rightarrow> bool"
and memberContainsTuple :: "IMemberDeclaration \<Rightarrow> bool" where
  "containsTuple (TBase k r) = False"
| "containsTuple (TString x r) = False"
| "containsTuple (TNumber i lo hi r) = False"
| "containsTuple (TObject ms r) =
     (case map_option (map memberContainsTuple) ms of None \<Rightarrow> False | Some bs \<Rightarrow> True \<in> set bs)"
| "containsTuple (TTypeReference n r) = False"
| "containsTuple (TTypeAccess n a r) = False"
| "containsTuple (TArray t lo hi r) = containsTuple t"
| "containsTuple (TTuple ts m rest r) = True"
| "containsTuple (TUnion ts r) = (True \<in> set (map containsTuple ts))"
| "containsTuple (TIntersection ts r) = (True \<in> set (map containsTuple ts))"
| "containsTuple (TLiteral v raw r) = False"
| "memberContainsTuple (IMemberDeclaration n i t x q) = containsTuple t"

text \<open>A schema type that holds a node \<open>JoiSchemaBuilder\<close> throws on: a \<open>bigint\<close>, a bigint
  literal or an intersection.\<close>

primrec joiUnsupported :: "SchemaType \<Rightarrow> bool"
and memberJoiUnsupported :: "IMemberDeclaration \<Rightarrow> bool" where
  "joiUnsupported (TBase k r) = (k = KBigint)"
| "joiUnsupported (TString x r) = False"
| "joiUnsupported (TNumber i lo hi r) = False"
| "joiUnsupported (TObject ms r) =
     (case map_option (map memberJoiUnsupported) ms of None \<Rightarrow> False | Some bs \<Rightarrow> True \<in> set bs)"
| "joiUnsupported (TTypeReference n r) = False"
| "joiUnsupported (TTypeAccess n a r) = False"
| "joiUnsupported (TArray t lo hi r) = joiUnsupported t"
| "joiUnsupported (TTuple ts m rest r) =
     (True \<in> set (map joiUnsupported ts) \<or>
      (case map_option joiUnsupported rest of None \<Rightarrow> False | Some b \<Rightarrow> b))"
| "joiUnsupported (TUnion ts r) = (True \<in> set (map joiUnsupported ts))"
| "joiUnsupported (TIntersection ts r) = True"
| "joiUnsupported (TLiteral v raw r) = (case v of VBigInt x \<Rightarrow> True | _ \<Rightarrow> False)"
| "memberJoiUnsupported (IMemberDeclaration n i t x q) = joiUnsupported t"

text \<open>A schema type with the \<open>required\<close> flag of every node in it unset; the \<open>required\<close>
  property of a member, which is not a flag of a node, stays.\<close>

primrec stripRequired :: "SchemaType \<Rightarrow> SchemaType"
and stripMember :: "IMemberDeclaration \<Rightarrow> IMemberDeclaration" where
  "stripRequired (TBase k r) = TBase k None"
| "stripRequired (TString x r) = TString x None"
| "stripRequired (TNumber i lo hi r) = TNumber i lo hi None"
| "stripRequired (TObject ms r) = TObject (map_option (map stripMember) ms) None"
| "stripRequired (TTypeReference n r) = TTypeReference n None"
| "stripRequired (TTypeAccess n a r) = TTypeAccess n a None"
| "stripRequired (TArray t lo hi r) = TArray (stripRequired t) lo hi None"
| "stripRequired (TTuple ts m rest r) =
     TTuple (map stripRequired ts) m (map_option stripRequired rest) None"
| "stripRequired (TUnion ts r) = TUnion (map stripRequired ts) None"
| "stripRequired (TIntersection ts r) = TIntersection (map stripRequired ts) None"
| "stripRequired (TLiteral v raw r) = TLiteral v raw None"
| "stripMember (IMemberDeclaration n i t x q) = IMemberDeclaration n i (stripRequired t) x q"

section \<open>Concrete inputs\<close>

text \<open>
  Node's \<open>path.dirname\<close> and \<open>path.join\<close> on the inputs used below: an absolute POSIX path
  with a directory part, joined with a sibling specifier \<open>./name\<close>.
\<close>

definition posix_dirname :: "string \<Rightarrow> string" where
  "posix_dirname p = rev (tl (dropWhile (\<lambda>c. c \<noteq> CHR ''/'') (rev p)))"

definition posix_join :: "string \<Rightarrow> string \<Rightarrow> string" where
  "posix_join d f = d @ ''/'' @ (if take 2 f = ''./'' then drop 2 f else f)"

definition posixPath :: NodePath where
  "posixPath = \<lparr>path_dirname = posix_dirname, path_join = posix_join\<rparr>"

definition newBuilder :: "string \<Rightarrow> BaseSchemaBuilder" where
  "newBuilder f =
     \<lparr>schema = \<lparr>schema_file = f, schema_exports = [], schema_imports = [],
                 interfaces = [], types = [], enums = []\<rparr>,
      referencedNames = {}, finalized = False\<rparr>"

text \<open>
  Three files, all finalized, nothing referenced yet:
  \<^verbatim>\<open>a.ts:    export { X as Q } from './b';\<close>
  \<^verbatim>\<open>b.ts:    import { Q as X } from './a';  export { X } from './real';\<close>
  \<^verbatim>\<open>real.ts: export interface X { v: number }\<close>
\<close>

definition importCycle :: SchemaProgram where
  "importCycle =
     \<lparr>files = [''/src/a.ts'', ''/src/b.ts'', ''/src/real.ts''],
      builders = (\<lambda>f. newBuilder f)
        (''/src/a.ts'' :=
           \<lparr>schema = \<lparr>schema_file = ''/src/a.ts'',
               schema_exports = [\<lparr>export_file = Some ''./b'',
                  export_namedBindings = [\<lparr>bound = Some ''X'', binding_name = ''Q''\<rparr>]\<rparr>],
               schema_imports = [], interfaces = [], types = [], enums = []\<rparr>,
            referencedNames = {}, finalized = True\<rparr>,
         ''/src/b.ts'' :=
           \<lparr>schema = \<lparr>schema_file = ''/src/b.ts'',
               schema_exports = [\<lparr>export_file = Some ''./real'',
                  export_namedBindings = [\<lparr>bound = None, binding_name = ''X''\<rparr>]\<rparr>],
               schema_imports = [\<lparr>import_file = ''./a'',
                  import_namedBindings = [\<lparr>bound = Some ''Q'', binding_name = ''X''\<rparr>]\<rparr>],
               interfaces = [], types = [], enums = []\<rparr>,
            referencedNames = {}, finalized = True\<rparr>,
         ''/src/real.ts'' :=
           \<lparr>schema = \<lparr>schema_file = ''/src/real.ts'', schema_exports = [], schema_imports = [],
               interfaces = [\<lparr>interface_name = ''X'', heritages = [],
                  members = [IMemberDeclaration ''v'' None (TNumber None None None (Some True)) None None]\<rparr>],
               types = [], enums = []\<rparr>,
            referencedNames = {}, finalized = True\<rparr>)\<rparr>"


text \<open>
  The store after phase one for the root files \<open>h.ts\<close>, \<open>f.ts\<close> (in this order):
  \<^verbatim>\<open>h.ts: import { J } from './f';  export interface A { j: J }\<close>
  \<^verbatim>\<open>f.ts: import { A } from './h';  import { M } from './k';\<close>
  \<^verbatim>\<open>      /** @schema */ export interface Root { a: A }   export interface J { m: M }\<close>
  \<^verbatim>\<open>k.ts: export interface M { v: number }\<close>
  \<open>Root\<close> is tagged, so \<open>writeInterface\<close> has already marked \<open>Root\<close> and \<open>A\<close> in \<open>f.ts\<close>.
\<close>

definition reentrantFinalize :: SchemaProgram where
  "reentrantFinalize =
     \<lparr>files = [''/src/h.ts'', ''/src/f.ts'', ''/src/k.ts''],
      builders = (\<lambda>f. newBuilder f)
        (''/src/h.ts'' :=
           \<lparr>schema = \<lparr>schema_file = ''/src/h.ts'', schema_exports = [],
               schema_imports = [\<lparr>import_file = ''./f'',
                  import_namedBindings = [\<lparr>bound = None, binding_name = ''J''\<rparr>]\<rparr>],
               interfaces = [\<lparr>interface_name = ''A'', heritages = [],
                  members = [IMemberDeclaration ''j'' None (TTypeReference ''J'' (Some True)) None None]\<rparr>],
               types = [], enums = []\<rparr>,
            referencedNames = {}, finalized = False\<rparr>,
         ''/src/f.ts'' :=
           \<lparr>schema = \<lparr>schema_file = ''/src/f.ts'', schema_exports = [],
               schema_imports = [
                 \<lparr>import_file = ''./h'',
                  import_namedBindings = [\<lparr>bound = None, binding_name = ''A''\<rparr>]\<rparr>,
                 \<lparr>import_file = ''./k'',
                  import_namedBindings = [\<lparr>bound = None, binding_name = ''M''\<rparr>]\<rparr>],
               interfaces = [
                 \<lparr>interface_name = ''Root'', heritages = [],
                  members = [IMemberDeclaration ''a'' None (TTypeReference ''A'' (Some True)) None None]\<rparr>,
                 \<lparr>interface_name = ''J'', heritages = [],
                  members = [IMemberDeclaration ''m'' None (TTypeReference ''M'' (Some True)) None None]\<rparr>],
               types = [], enums = []\<rparr>,
            referencedNames = {''Root'', ''A''}, finalized = False\<rparr>,
         ''/src/k.ts'' :=
           \<lparr>schema = \<lparr>schema_file = ''/src/k.ts'', schema_exports = [], schema_imports = [],
               interfaces = [\<lparr>interface_name = ''M'', heritages = [],
                  members = [IMemberDeclaration ''v'' None (TNumber None None None (Some True)) None None]\<rparr>],
               types = [], enums = []\<rparr>,
            referencedNames = {}, finalized = False\<rparr>)\<rparr>"


text \<open>A finalized file with one interface and one import, and nothing called \<open>Ghost\<close>.\<close>

definition ghostProgram :: SchemaProgram where
  "ghostProgram =
     \<lparr>files = [''/src/a.ts''],
      builders = (\<lambda>f. newBuilder f)
        (''/src/a.ts'' :=
           \<lparr>schema = \<lparr>schema_file = ''/src/a.ts'', schema_exports = [],
               schema_imports = [\<lparr>import_file = ''./b'',
                  import_namedBindings = [\<lparr>bound = None, binding_name = ''Other''\<rparr>]\<rparr>],
               interfaces = [\<lparr>interface_name = ''Known'', heritages = [], members = []\<rparr>],
               types = [], enums = []\<rparr>,
            referencedNames = {}, finalized = True\<rparr>)\<rparr>"

text \<open>\<^verbatim>\<open>list.ts: export interface INode { next: INode }\<close>, before \<open>finalize\<close>.\<close>

definition linkedList :: SchemaProgram where
  "linkedList =
     \<lparr>files = [''/src/list.ts''],
      builders = (\<lambda>f. newBuilder f)
        (''/src/list.ts'' :=
           \<lparr>schema = \<lparr>schema_file = ''/src/list.ts'', schema_exports = [], schema_imports = [],
               interfaces = [\<lparr>interface_name = ''INode'', heritages = [],
                  members = [IMemberDeclaration ''next'' None (TTypeReference ''INode'' (Some True)) None None]\<rparr>],
               types = [], enums = []\<rparr>,
            referencedNames = {}, finalized = False\<rparr>)\<rparr>"

text \<open>
  Type handles as the checker reports them under \<open>strict\<close>: \<open>null\<close>, \<open>undefined\<close>,
  \<open>string | boolean\<close> (whose constituents are \<open>string\<close>, \<open>false\<close>, \<open>true\<close>) and the tuple
  \<open>[number, string?]\<close> (two positional elements, minimum length one).
\<close>

definition strictChecker :: Checker where
  "strictChecker = \<lparr>strictNullChecks = True, parseFloat = (\<lambda>s. if s = '''' then None else Some s)\<rparr>"

definition plainType :: "TypeFlags list \<Rightarrow> string \<Rightarrow> TsType" where
  "plainType fs text = TsType fs None None text 0 (VBoolean False) [] None [] [] 0 False None []"

definition nullType :: TsType where
  "nullType = plainType [TF_Null] ''null''"

definition undefinedType :: TsType where
  "undefinedType = plainType [TF_Undefined] ''undefined''"




text \<open>
  A rendering environment with the default suffixes \<open>Schema\<close> and \<open>-schema\<close> (those of the
  generated files among the test fixtures) and no option set but the dialect.
  \<open>JSON.stringify\<close> is given on strings that need no escaping, and Node's \<open>path.parse\<close>,
  \<open>path.format\<close> and \<open>path.relative\<close> on the inputs used below: the absolute POSIX path of a
  file with a directory part, a non-empty \<open>dir\<close>, and the start \<open>./\<close> with the working
  directory \<open>/\<close>.
\<close>

definition quoteJSON :: "string \<Rightarrow> string" where
  "quoteJSON s = [CHR 0x22] @ s @ [CHR 0x22]"

definition posix_parse :: "string \<Rightarrow> string \<times> string" where
  "posix_parse p =
     (let base = rev (takeWhile (\<lambda>c. c \<noteq> CHR ''/'') (rev p))
      in (posix_dirname p,
          if CHR ''.'' \<in> set base then rev (tl (dropWhile (\<lambda>c. c \<noteq> CHR ''.'') (rev base)))
          else base))"

definition posix_format :: "string \<Rightarrow> string \<Rightarrow> string option \<Rightarrow> string" where
  "posix_format dir name ext = dir @ ''/'' @ name @ (case ext of None \<Rightarrow> '''' | Some e \<Rightarrow> e)"

definition posix_relative :: "string \<Rightarrow> string \<Rightarrow> string" where
  "posix_relative from' to = (if take 1 to = ''/'' then drop 1 to else to)"

definition renderEnv :: "string \<Rightarrow> RenderEnv" where
  "renderEnv dialect =
     \<lparr>options = \<lparr>tscArgs = [], tsconfig = None, outDir = None, fileSuffix = None,
                  schemaSuffix = None, render = dialect\<rparr>,
      defaults = \<lparr>Defaults_schemaSuffix = ''Schema'', Defaults_fileSuffix = ''-schema''\<rparr>,
      JSON_stringify = quoteJSON, path_parse = posix_parse, path_format = posix_format,
      path_relative = posix_relative\<rparr>"

text \<open>
  \<^verbatim>\<open>t.ts: export type Pair = [number, string];\<close>
  \<^verbatim>\<open>      /** @schema */ export interface IUses { p: Pair }\<close>
  as the first loop of \<open>compile\<close> leaves it: \<open>writeType\<close> stores \<open>Pair\<close> unmarked, and
  \<open>writeInterface\<close> stores \<open>IUses\<close> and, the interface being tagged, marks it and the \<open>Pair\<close>
  it references.
\<close>

definition pairAlias :: SchemaProgram where
  "pairAlias =
     \<lparr>files = [''/src/t.ts''],
      builders = (\<lambda>f. newBuilder f)
        (''/src/t.ts'' :=
           \<lparr>schema = \<lparr>schema_file = ''/src/t.ts'', schema_exports = [], schema_imports = [],
               interfaces = [\<lparr>interface_name = ''IUses'', heritages = [],
                  members = [IMemberDeclaration ''p'' None (TTypeReference ''Pair'' (Some True)) None None]\<rparr>],
               types = [\<lparr>type_name = ''Pair'',
                  type_type = TTuple [TNumber None None None (Some True), TString None (Some True)]
                                2 None (Some True)\<rparr>],
               enums = []\<rparr>,
            referencedNames = {''IUses'', ''Pair''}, finalized = False\<rparr>)\<rparr>"

text \<open>
  \<^verbatim>\<open>i.ts: export interface IBase {}\<close>
  \<^verbatim>\<open>      /** @schema */ export interface IDerived extends IBase {}\<close>
  after \<open>finalize\<close>.
\<close>

definition baseAndDerived :: BaseSchemaBuilder where
  "baseAndDerived =
     \<lparr>schema = \<lparr>schema_file = ''/src/i.ts'', schema_exports = [], schema_imports = [],
         interfaces = [\<lparr>interface_name = ''IBase'', heritages = [], members = []\<rparr>,
                       \<lparr>interface_name = ''IDerived'',
                        heritages = [TTypeReference ''IBase'' (Some True)], members = []\<rparr>],
         types = [], enums = []\<rparr>,
      referencedNames = {''IBase'', ''IDerived''}, finalized = True\<rparr>"

text \<open>
  \<^verbatim>\<open>a.ts: import { Other } from './b';\<close>
  \<^verbatim>\<open>b.ts: export interface Other {}\<close>
  both finalized, nothing marked.
\<close>

definition importedName :: SchemaProgram where
  "importedName =
     \<lparr>files = [''/src/a.ts'', ''/src/b.ts''],
      builders = (\<lambda>f. newBuilder f)
        (''/src/a.ts'' :=
           \<lparr>schema = \<lparr>schema_file = ''/src/a.ts'', schema_exports = [],
               schema_imports = [\<lparr>import_file = ''./b'',
                  import_namedBindings = [\<lparr>bound = None, binding_name = ''Other''\<rparr>]\<rparr>],
               interfaces = [], types = [], enums = []\<rparr>,
            referencedNames = {}, finalized = True\<rparr>,
         ''/src/b.ts'' :=
           \<lparr>schema = \<lparr>schema_file = ''/src/b.ts'', schema_exports = [], schema_imports = [],
               interfaces = [\<lparr>interface_name = ''Other'', heritages = [], members = []\<rparr>],
               types = [], enums = []\<rparr>,
            referencedNames = {}, finalized = True\<rparr>)\<rparr>"

text \<open>One file, \<open>t.ts\<close>, with nothing written to its schema yet.\<close>

definition emptyFile :: SchemaProgram where
  "emptyFile = \<lparr>files = [''/src/t.ts''], builders = (\<lambda>f. newBuilder f)\<rparr>"

section \<open>Properties\<close>

subsection \<open>The usage tracker\<close>

lemma bind_result_Inr_iff:
  "bind_result r f = Some (Inr y) \<longleftrightarrow> (\<exists>x. r = Some (Inr x) \<and> f x = Some (Inr y))"
  by (auto simp: bind_result_def split: option.splits sum.splits)

lemma bind_result_simps [simp]:
  "bind_result None f = None"
  "bind_result (Some (Inl e)) f = Some (Inl e)"
  "bind_result (Some (Inr x)) f = f x"
  by (simp_all add: bind_result_def)

lemma forEach_skip:
  "(\<And>x s. x \<in> set xs \<Longrightarrow> f x s = Some (Inr s)) \<Longrightarrow> forEach xs f S = Some (Inr S)"
  by (induction xs arbitrary: S) simp_all

lemma forEach_preserves:
  assumes "forEach xs f S = Some (Inr S')" and "I S"
    and "\<And>x s s'. x \<in> set xs \<Longrightarrow> I s \<Longrightarrow> f x s = Some (Inr s') \<Longrightarrow> I s'"
  shows "I S'"
  using assms
proof (induction xs arbitrary: S)
  case Nil
  then show ?case by simp
next
  case (Cons x xs)
  from Cons.prems(1) obtain S1 where a: "f x S = Some (Inr S1)" and b: "forEach xs f S1 = Some (Inr S')"
    by (auto simp: bind_result_Inr_iff)
  have "I S1" using Cons.prems(3)[OF _ Cons.prems(2) a] by simp
  show ?case by (rule Cons.IH[OF b \<open>I S1\<close>]) (auto intro: Cons.prems(3))
qed

lemma has_add [simp]: "has (add S k name) k' name' \<longleftrightarrow> (k' = k \<and> name' = name) \<or> has S k' name'"
  by (auto simp: has_def add_def)

lemma add_has: "has S k name \<Longrightarrow> add S k name = S"
  by (simp add: has_def add_def insert_absorb)

lemma useEnum_has: "has S k0 nm \<Longrightarrow> has (useEnum S k declaration) k0 nm"
  by (simp add: useEnum_def)

lemma run_has_mono:
  "run n P c S = Some (Inr S') \<Longrightarrow> has S k0 nm \<Longrightarrow> has S' k0 nm"
proof (induction n arbitrary: c S S')
  case 0
  then show ?case by simp
next
  case (Suc n)
  note IH = Suc.IH
  have loop: "\<And>xs g T T'. forEach xs (\<lambda>x. run n P (g x)) T = Some (Inr T') \<Longrightarrow> has T k0 nm \<Longrightarrow> has T' k0 nm"
    by (erule forEach_preserves[where I="\<lambda>s. has s k0 nm"]) (auto intro: IH)
  have bindings: "\<And>bs name k f T T'. forEach bs (\<lambda>binding S'.
                      if name = binding_name binding \<and> \<not> has S' k (binding_name binding)
                      then run n P (ProgramUse (f S') (boundOrName binding)) S'
                      else Some (Inr S')) T = Some (Inr T') \<Longrightarrow> has T k0 nm \<Longrightarrow> has T' k0 nm"
    by (erule forEach_preserves[where I="\<lambda>s. has s k0 nm"]) (auto intro: IH split: if_splits)
  show ?case
  proof (cases c)
    case (Use k name)
    have imps: "\<And>ds T T'. forEach ds (\<lambda>declaration.
                    forEach (import_namedBindings declaration) (\<lambda>binding S'.
                      if name = binding_name binding \<and> \<not> has S' k (binding_name binding)
                      then run n P (ProgramUse (resolveSourceFile P (builders S' k) (import_file declaration))
                                      (boundOrName binding)) S'
                      else Some (Inr S'))) T = Some (Inr T') \<Longrightarrow> has T k0 nm \<Longrightarrow> has T' k0 nm"
      by (erule forEach_preserves[where I="\<lambda>s. has s k0 nm"]) (auto dest: bindings)
    have exps: "\<And>ds T T'. forEach ds (\<lambda>declaration S'.
                    case export_file declaration of
                      None \<Rightarrow> Some (Inr S')
                    | Some f \<Rightarrow>
                        if f = [] then Some (Inr S')
                        else forEach (export_namedBindings declaration) (\<lambda>binding S''.
                          if name = binding_name binding \<and> \<not> has S'' k (binding_name binding)
                          then run n P (ProgramUse (resolveSourceFile P (builders S'' k) f)
                                          (boundOrName binding)) S''
                          else Some (Inr S'')) S') T = Some (Inr T') \<Longrightarrow> has T k0 nm \<Longrightarrow> has T' k0 nm"
      by (erule forEach_preserves[where I="\<lambda>s. has s k0 nm"]) (auto dest: bindings split: option.splits if_splits)
    show ?thesis using Suc.prems unfolding Use
      by (auto split: option.splits if_splits simp: bind_result_Inr_iff useEnum_has dest: IH imps exps)
  next
    case (UseInterface k d)
    then show ?thesis using Suc.prems
      by (auto simp: bind_result_Inr_iff split: if_splits dest!: loop)
  next
    case (UseType k d)
    then show ?thesis using Suc.prems
      by (auto split: if_splits dest: IH)
  next
    case (Reference k t)
    then show ?thesis using Suc.prems
      by (cases t) (auto simp: bind_result_Inr_iff split: if_splits option.splits dest: IH loop)
  next
    case (ProgramUse f name)
    then show ?thesis using Suc.prems
      by (auto split: option.splits dest: IH)
  qed
qed


lemma find_name:
  "find (\<lambda>d. f d = name) xs = Some x \<Longrightarrow> f x = name"
  by (auto simp: find_Some_iff)

lemma use_marks:
  assumes "use n P S k name = Some (Inr S')"
  shows "has S' k name"
proof (cases n)
  case 0
  with assms show ?thesis by (simp add: use_def)
next
  case (Suc m)
  show ?thesis
  proof (cases "find (\<lambda>d. interface_name d = name) (interfaces (schema (builders S k)))")
    case (Some iface)
    then have nm: "interface_name iface = name" by (rule find_name)
    from assms Suc Some have r: "run m P (UseInterface k iface) S = Some (Inr S')"
      by (simp add: use_def)
    show ?thesis
    proof (cases m)
      case 0
      with r show ?thesis by simp
    next
      case (Suc j)
      show ?thesis
      proof (cases "has S k name")
        case True
        then show ?thesis using r by (rule run_has_mono[rotated])
      next
        case False
        with r Suc nm obtain S1 where
          a: "forEach (heritages iface) (\<lambda>heritage. run j P (Reference k heritage)) (add S k name) = Some (Inr S1)"
          and b: "forEach (members iface) (\<lambda>member. run j P (Reference k (member_type member))) S1 = Some (Inr S')"
          by (auto simp: bind_result_Inr_iff)
        have "has S1 k name"
          by (rule forEach_preserves[OF a, where I="\<lambda>s. has s k name"]) (auto intro: run_has_mono)
        then show ?thesis
          by (rule forEach_preserves[OF b, where I="\<lambda>s. has s k name"]) (auto intro: run_has_mono)
      qed
    qed
  next
    case None
    note noIface = None
    show ?thesis
    proof (cases "find (\<lambda>d. type_name d = name) (types (schema (builders S k)))")
      case (Some ty)
      then have nm: "type_name ty = name" by (rule find_name)
      from assms Suc Some noIface have r: "run m P (UseType k ty) S = Some (Inr S')"
        by (simp add: use_def)
      show ?thesis
      proof (cases m)
        case 0
        with r show ?thesis by simp
      next
        case (Suc j)
        show ?thesis
        proof (cases "has S k name")
          case True
          then show ?thesis using r by (rule run_has_mono[rotated])
        next
          case False
          with r Suc nm have "run j P (Reference k (type_type ty)) (add S k name) = Some (Inr S')"
            by simp
          then show ?thesis by (rule run_has_mono) simp
        qed
      qed
    next
      case None
      note noType = None
      show ?thesis
      proof (cases "find (\<lambda>d. enum_name d = name) (enums (schema (builders S k)))")
        case (Some en)
        then have nm: "enum_name en = name" by (rule find_name)
        from assms Suc Some noIface noType have "S' = useEnum S k en"
          by (simp add: use_def)
        then show ?thesis using nm by (simp add: useEnum_def)
      next
        case None
        with assms Suc noIface noType show ?thesis
          by (auto simp: use_def bind_result_Inr_iff split: if_splits)
      qed
    qed
  qed
qed

lemma forEach_skip_inv:
  "I S \<Longrightarrow> (\<And>x s. x \<in> set xs \<Longrightarrow> I s \<Longrightarrow> f x s = Some (Inr s)) \<Longrightarrow> forEach xs f S = Some (Inr S)"
  by (induction xs) simp_all

lemma use_again:
  assumes "has S k name"
  shows "use (Suc (Suc m)) P S k name = Some (Inr S)"
proof -
  let ?I = "\<lambda>s. has s k name"
  have bs: "\<And>bs g T. has T k name \<Longrightarrow> forEach bs (\<lambda>binding S'.
                      if name = binding_name binding \<and> \<not> has S' k (binding_name binding)
                      then run (Suc m) P (ProgramUse (g S') (boundOrName binding)) S'
                      else Some (Inr S')) T = Some (Inr T)"
    by (rule forEach_skip_inv[where I="?I"]) auto
  have imps: "forEach (schema_imports (schema (builders S k))) (\<lambda>declaration.
                    forEach (import_namedBindings declaration) (\<lambda>binding S'.
                      if name = binding_name binding \<and> \<not> has S' k (binding_name binding)
                      then run (Suc m) P (ProgramUse (resolveSourceFile P (builders S' k) (import_file declaration))
                                      (boundOrName binding)) S'
                      else Some (Inr S'))) S = Some (Inr S)"
    by (rule forEach_skip_inv[where I="?I"]) (auto simp: assms intro: bs)
  have exps: "forEach (schema_exports (schema (builders S k))) (\<lambda>declaration S'.
                    case export_file declaration of
                      None \<Rightarrow> Some (Inr S')
                    | Some f \<Rightarrow>
                        if f = [] then Some (Inr S')
                        else forEach (export_namedBindings declaration) (\<lambda>binding S''.
                          if name = binding_name binding \<and> \<not> has S'' k (binding_name binding)
                          then run (Suc m) P (ProgramUse (resolveSourceFile P (builders S'' k) f)
                                          (boundOrName binding)) S''
                          else Some (Inr S'')) S') S = Some (Inr S)"
    by (rule forEach_skip_inv[where I="?I"]) (auto simp: assms intro: bs split: option.splits)
  show ?thesis
    using assms imps exps
    by (auto simp: use_def useEnum_def add_has split: option.splits dest: find_name)
qed

lemma run_preserves:
  assumes I_add: "\<And>s k nm. I s \<Longrightarrow> I (add s k nm)"
  shows "run n P c S = Some (Inr S') \<Longrightarrow> I S \<Longrightarrow> I S'"
proof (induction n arbitrary: c S S')
  case 0
  then show ?case by simp
next
  case (Suc n)
  note IH = Suc.IH
  have en: "\<And>s k d. I s \<Longrightarrow> I (useEnum s k d)" by (simp add: useEnum_def I_add)
  have loop: "\<And>xs g T T'. forEach xs (\<lambda>x. run n P (g x)) T = Some (Inr T') \<Longrightarrow> I T \<Longrightarrow> I T'"
    by (erule forEach_preserves[where I=I]) (auto intro: IH)
  have bindings: "\<And>bs name k f T T'. forEach bs (\<lambda>binding S'.
                      if name = binding_name binding \<and> \<not> has S' k (binding_name binding)
                      then run n P (ProgramUse (f S') (boundOrName binding)) S'
                      else Some (Inr S')) T = Some (Inr T') \<Longrightarrow> I T \<Longrightarrow> I T'"
    by (erule forEach_preserves[where I=I]) (auto intro: IH split: if_splits)
  show ?case
  proof (cases c)
    case (Use k name)
    have imps: "\<And>ds T T'. forEach ds (\<lambda>declaration.
                    forEach (import_namedBindings declaration) (\<lambda>binding S'.
                      if name = binding_name binding \<and> \<not> has S' k (binding_name binding)
                      then run n P (ProgramUse (resolveSourceFile P (builders S' k) (import_file declaration))
                                      (boundOrName binding)) S'
                      else Some (Inr S'))) T = Some (Inr T') \<Longrightarrow> I T \<Longrightarrow> I T'"
      by (erule forEach_preserves[where I=I]) (auto dest: bindings)
    have exps: "\<And>ds T T'. forEach ds (\<lambda>declaration S'.
                    case export_file declaration of
                      None \<Rightarrow> Some (Inr S')
                    | Some f \<Rightarrow>
                        if f = [] then Some (Inr S')
                        else forEach (export_namedBindings declaration) (\<lambda>binding S''.
                          if name = binding_name binding \<and> \<not> has S'' k (binding_name binding)
                          then run n P (ProgramUse (resolveSourceFile P (builders S'' k) f)
                                          (boundOrName binding)) S''
                          else Some (Inr S'')) S') T = Some (Inr T') \<Longrightarrow> I T \<Longrightarrow> I T'"
      by (erule forEach_preserves[where I=I]) (auto dest: bindings split: option.splits if_splits)
    show ?thesis using Suc.prems unfolding Use
      by (auto split: option.splits if_splits simp: bind_result_Inr_iff en I_add dest: IH imps exps)
  next
    case (UseInterface k d)
    then show ?thesis using Suc.prems
      by (auto simp: bind_result_Inr_iff I_add split: if_splits dest!: loop)
  next
    case (UseType k d)
    then show ?thesis using Suc.prems
      by (auto split: if_splits simp: I_add dest: IH)
  next
    case (Reference k t)
    then show ?thesis using Suc.prems
      by (cases t) (auto simp: bind_result_Inr_iff I_add split: if_splits option.splits dest: IH loop)
  next
    case (ProgramUse f name)
    then show ?thesis using Suc.prems
      by (auto split: option.splits dest: IH)
  qed
qed

lemma run_files: "run n P c S = Some (Inr S') \<Longrightarrow> files S' = files S"
  by (erule run_preserves[where I="\<lambda>s. files s = files S", rotated]) (simp_all add: add_def)

lemma run_frame:
  "run n P c S = Some (Inr S') \<Longrightarrow>
     schema (builders S' k) = schema (builders S k) \<and>
     finalized (builders S' k) = finalized (builders S k)"
  by (erule run_preserves[where I="\<lambda>s. schema (builders s k) = schema (builders S k) \<and>
        finalized (builders s k) = finalized (builders S k)", rotated])
     (auto simp: add_def)

lemma forEach_error:
  assumes "forEach xs f S = Some (Inl e)" and "I S"
    and "\<And>x s s'. x \<in> set xs \<Longrightarrow> I s \<Longrightarrow> f x s = Some (Inr s') \<Longrightarrow> I s'"
  shows "\<exists>x \<in> set xs. \<exists>T. I T \<and> f x T = Some (Inl e)"
  using assms
proof (induction xs arbitrary: S)
  case Nil
  then show ?case by simp
next
  case (Cons x xs)
  show ?case
  proof (cases "f x S")
    case None
    with Cons.prems(1) show ?thesis by simp
  next
    case (Some r)
    show ?thesis
    proof (cases r)
      case (Inl e')
      with Some Cons.prems(1) have "f x S = Some (Inl e)" by simp
      with Cons.prems(2) show ?thesis by auto
    next
      case (Inr S1)
      with Some Cons.prems(1) have b: "forEach xs f S1 = Some (Inl e)" by simp
      have "I S1" using Cons.prems(3)[of x S S1] Cons.prems(2) Some Inr by simp
      from Cons.IH[OF b this] Cons.prems(3) show ?thesis by auto
    qed
  qed
qed

lemma bind_result_Inl_iff:
  "bind_result r f = Some (Inl e) \<longleftrightarrow>
     r = Some (Inl e) \<or> (\<exists>x. r = Some (Inr x) \<and> f x = Some (Inl e))"
  by (auto simp: bind_result_def split: option.splits sum.splits)

lemma getSchema_files: "files T = files S \<Longrightarrow> getSchema T f = getSchema S f"
  by (simp add: getSchema_def)

lemma run_error:
  "run n P c S = Some (Inl e) \<Longrightarrow>
     \<exists>f. e = Error (''Couldn't find schema for: '' @ f) \<and> getSchema S f = None"
proof (induction n arbitrary: c S)
  case 0
  then show ?case by simp
next
  case (Suc n)
  define Q where "Q \<longleftrightarrow> (\<exists>f. e = Error (''Couldn't find schema for: '' @ f) \<and> getSchema S f = None)"
  let ?I = "\<lambda>T. files T = files S"
  have IH: "\<And>c T. ?I T \<Longrightarrow> run n P c T = Some (Inl e) \<Longrightarrow> Q"
  proof -
    fix c T
    assume i: "?I T" and r: "run n P c T = Some (Inl e)"
    from Suc.IH[OF r] obtain f where
      "e = Error (''Couldn't find schema for: '' @ f)" "getSchema T f = None" by blast
    moreover have "getSchema T f = getSchema S f" using i by (rule getSchema_files)
    ultimately show "Q" unfolding Q_def by auto
  qed
  have pres: "\<And>c T T'. ?I T \<Longrightarrow> run n P c T = Some (Inr T') \<Longrightarrow> ?I T'"
    using run_files by fastforce
  have loop: "\<And>xs g T. forEach xs (\<lambda>x. run n P (g x)) T = Some (Inl e) \<Longrightarrow> ?I T \<Longrightarrow> Q"
  proof -
    fix xs g T
    assume a: "forEach xs (\<lambda>x. run n P (g x)) T = Some (Inl e)" and i: "?I T"
    from forEach_error[where I="?I", OF a i] pres
    obtain x T1 where "?I T1" "run n P (g x) T1 = Some (Inl e)" by blast
    then show "Q" by (rule IH)
  qed
  have loopI: "\<And>xs g T T'. forEach xs (\<lambda>x. run n P (g x)) T = Some (Inr T') \<Longrightarrow> ?I T \<Longrightarrow> ?I T'"
    by (erule forEach_preserves[where I="?I"]) (auto intro: pres)
  have bindingsI: "\<And>bs name k f T T'. forEach bs (\<lambda>binding S'.
                      if name = binding_name binding \<and> \<not> has S' k (binding_name binding)
                      then run n P (ProgramUse (f S') (boundOrName binding)) S'
                      else Some (Inr S')) T = Some (Inr T') \<Longrightarrow> ?I T \<Longrightarrow> ?I T'"
    by (erule forEach_preserves[where I="?I"]) (auto intro: pres split: if_splits)
  have bindings: "\<And>bs name k f T. forEach bs (\<lambda>binding S'.
                      if name = binding_name binding \<and> \<not> has S' k (binding_name binding)
                      then run n P (ProgramUse (f S') (boundOrName binding)) S'
                      else Some (Inr S')) T = Some (Inl e) \<Longrightarrow> ?I T \<Longrightarrow> Q"
  proof -
    fix bs name k f T
    assume a: "forEach bs (\<lambda>binding S'.
                      if name = binding_name binding \<and> \<not> has S' k (binding_name binding)
                      then run n P (ProgramUse (f S') (boundOrName binding)) S'
                      else Some (Inr S')) T = Some (Inl e)" and i: "?I T"
    have "\<exists>x \<in> set bs. \<exists>T1. ?I T1 \<and> (if name = binding_name x \<and> \<not> has T1 k (binding_name x)
                      then run n P (ProgramUse (f T1) (boundOrName x)) T1
                      else Some (Inr T1)) = Some (Inl e)"
      by (rule forEach_error[where I="?I", OF a i]) (auto intro: pres split: if_splits)
    then show "Q" by (auto split: if_splits intro: IH)
  qed
  have Q
  proof (cases c)
    case (Use k name)
    have impsI: "\<And>ds T T'. forEach ds (\<lambda>declaration.
                    forEach (import_namedBindings declaration) (\<lambda>binding S'.
                      if name = binding_name binding \<and> \<not> has S' k (binding_name binding)
                      then run n P (ProgramUse (resolveSourceFile P (builders S' k) (import_file declaration))
                                      (boundOrName binding)) S'
                      else Some (Inr S'))) T = Some (Inr T') \<Longrightarrow> ?I T \<Longrightarrow> ?I T'"
      by (erule forEach_preserves[where I="?I"]) (auto dest: bindingsI)
    have imps: "\<And>ds T. forEach ds (\<lambda>declaration.
                    forEach (import_namedBindings declaration) (\<lambda>binding S'.
                      if name = binding_name binding \<and> \<not> has S' k (binding_name binding)
                      then run n P (ProgramUse (resolveSourceFile P (builders S' k) (import_file declaration))
                                      (boundOrName binding)) S'
                      else Some (Inr S'))) T = Some (Inl e) \<Longrightarrow> ?I T \<Longrightarrow> Q"
    proof -
      fix ds T
      assume a: "forEach ds (\<lambda>declaration.
                    forEach (import_namedBindings declaration) (\<lambda>binding S'.
                      if name = binding_name binding \<and> \<not> has S' k (binding_name binding)
                      then run n P (ProgramUse (resolveSourceFile P (builders S' k) (import_file declaration))
                                      (boundOrName binding)) S'
                      else Some (Inr S'))) T = Some (Inl e)" and i: "?I T"
      have "\<exists>d \<in> set ds. \<exists>T1. ?I T1 \<and>
                    forEach (import_namedBindings d) (\<lambda>binding S'.
                      if name = binding_name binding \<and> \<not> has S' k (binding_name binding)
                      then run n P (ProgramUse (resolveSourceFile P (builders S' k) (import_file d))
                                      (boundOrName binding)) S'
                      else Some (Inr S')) T1 = Some (Inl e)"
        by (rule forEach_error[where I="?I", OF a i]) (auto dest: bindingsI)
      then show "Q" by (auto dest: bindings)
    qed
    have exps: "\<And>ds T. forEach ds (\<lambda>declaration S'.
                    case export_file declaration of
                      None \<Rightarrow> Some (Inr S')
                    | Some f \<Rightarrow>
                        if f = [] then Some (Inr S')
                        else forEach (export_namedBindings declaration) (\<lambda>binding S''.
                          if name = binding_name binding \<and> \<not> has S'' k (binding_name binding)
                          then run n P (ProgramUse (resolveSourceFile P (builders S'' k) f)
                                          (boundOrName binding)) S''
                          else Some (Inr S'')) S') T = Some (Inl e) \<Longrightarrow> ?I T \<Longrightarrow> Q"
    proof -
      fix ds T
      assume a: "forEach ds (\<lambda>declaration S'.
                    case export_file declaration of
                      None \<Rightarrow> Some (Inr S')
                    | Some f \<Rightarrow>
                        if f = [] then Some (Inr S')
                        else forEach (export_namedBindings declaration) (\<lambda>binding S''.
                          if name = binding_name binding \<and> \<not> has S'' k (binding_name binding)
                          then run n P (ProgramUse (resolveSourceFile P (builders S'' k) f)
                                          (boundOrName binding)) S''
                          else Some (Inr S'')) S') T = Some (Inl e)" and i: "?I T"
      have "\<exists>d \<in> set ds. \<exists>T1. ?I T1 \<and>
                    (case export_file d of
                      None \<Rightarrow> Some (Inr T1)
                    | Some f \<Rightarrow>
                        if f = [] then Some (Inr T1)
                        else forEach (export_namedBindings d) (\<lambda>binding S''.
                          if name = binding_name binding \<and> \<not> has S'' k (binding_name binding)
                          then run n P (ProgramUse (resolveSourceFile P (builders S'' k) f)
                                          (boundOrName binding)) S''
                          else Some (Inr S'')) T1) = Some (Inl e)"
        by (rule forEach_error[where I="?I", OF a i])
           (auto dest: bindingsI split: option.splits if_splits)
      then show "Q" by (auto dest: bindings split: option.splits if_splits)
    qed
    show ?thesis using Suc.prems unfolding Use
      by (auto split: option.splits if_splits simp: bind_result_Inl_iff
            dest: IH[rotated] imps exps impsI)
  next
    case (UseInterface k d)
    have "?I (add S k (interface_name d))" by (simp add: add_def)
    then show ?thesis using Suc.prems UseInterface
      by (auto simp: bind_result_Inl_iff split: if_splits dest: loop loopI)
  next
    case (UseType k d)
    have "?I (add S k (type_name d))" by (simp add: add_def)
    then show ?thesis using Suc.prems UseType
      by (auto split: if_splits dest: IH)
  next
    case (Reference k t)
    then show ?thesis using Suc.prems
      by (cases t) (auto simp: bind_result_Inl_iff split: if_splits option.splits dest: IH[rotated] loop)
  next
    case (ProgramUse f name)
    show ?thesis
    proof (cases "getSchema S f")
      case None
      with Suc.prems ProgramUse have "e = Error (''Couldn't find schema for: '' @ f)" by simp
      with None show ?thesis unfolding Q_def by blast
    next
      case (Some k')
      with Suc.prems ProgramUse have "run n P (Use k' name) S = Some (Inl e)" by simp
      then show ?thesis by (rule IH[rotated]) simp
    qed
  qed
  then show ?case unfolding Q_def .
qed

lemma forEach_mono:
  assumes "forEach xs f S = Some r"
    and "\<And>x s r. x \<in> set xs \<Longrightarrow> f x s = Some r \<Longrightarrow> g x s = Some r"
  shows "forEach xs g S = Some r"
  using assms
proof (induction xs arbitrary: S)
  case Nil
  then show ?case by simp
next
  case (Cons x xs)
  show ?case
  proof (cases "f x S")
    case None
    with Cons.prems(1) show ?thesis by simp
  next
    case (Some r1)
    then have g: "g x S = Some r1" using Cons.prems(2) by simp
    show ?thesis
    proof (cases r1)
      case (Inl e)
      with Some Cons.prems(1) have "r = Inl e" by simp
      with g Inl show ?thesis by simp
    next
      case (Inr S1)
      with Some Cons.prems(1) have "forEach xs f S1 = Some r" by simp
      then have "forEach xs g S1 = Some r" by (rule Cons.IH) (auto intro: Cons.prems(2))
      with g Inr show ?thesis by simp
    qed
  qed
qed

lemma bind_mono:
  assumes "bind_result a f = Some r"
    and "\<And>r'. a = Some r' \<Longrightarrow> a' = Some r'"
    and "\<And>x. a = Some (Inr x) \<Longrightarrow> f x = Some r \<Longrightarrow> f' x = Some r"
  shows "bind_result a' f' = Some r"
proof (cases a)
  case None
  with assms(1) show ?thesis by simp
next
  case (Some r1)
  then have a': "a' = Some r1" by (rule assms(2))
  show ?thesis
  proof (cases r1)
    case (Inl e)
    with Some a' assms(1) show ?thesis by simp
  next
    case (Inr x)
    with Some assms(1) have "f x = Some r" by simp
    with Some Inr have "f' x = Some r" by (intro assms(3)) simp_all
    with a' Inr show ?thesis by simp
  qed
qed

lemma run_mono: "run n P c S = Some r \<Longrightarrow> run (Suc n) P c S = Some r"
proof (induction n arbitrary: c S r)
  case 0
  then show ?case by simp
next
  case (Suc n)
  note IH = Suc.IH
  have bindings: "\<And>bs name k f T r. forEach bs (\<lambda>binding S'.
                      if name = binding_name binding \<and> \<not> has S' k (binding_name binding)
                      then run n P (ProgramUse (f S') (boundOrName binding)) S'
                      else Some (Inr S')) T = Some r \<Longrightarrow>
                 forEach bs (\<lambda>binding S'.
                      if name = binding_name binding \<and> \<not> has S' k (binding_name binding)
                      then run (Suc n) P (ProgramUse (f S') (boundOrName binding)) S'
                      else Some (Inr S')) T = Some r"
    by (erule forEach_mono) (auto simp del: run.simps split: if_splits intro: IH)
  have loop: "\<And>xs g T r. forEach xs (\<lambda>x. run n P (g x)) T = Some r \<Longrightarrow>
                 forEach xs (\<lambda>x. run (Suc n) P (g x)) T = Some r"
    by (erule forEach_mono) (auto simp del: run.simps intro: IH)
  show ?case
  proof (cases c)
    case (Use k name)
    have imps: "\<And>ds T r. forEach ds (\<lambda>declaration.
                    forEach (import_namedBindings declaration) (\<lambda>binding S'.
                      if name = binding_name binding \<and> \<not> has S' k (binding_name binding)
                      then run n P (ProgramUse (resolveSourceFile P (builders S' k) (import_file declaration))
                                      (boundOrName binding)) S'
                      else Some (Inr S'))) T = Some r \<Longrightarrow>
                 forEach ds (\<lambda>declaration.
                    forEach (import_namedBindings declaration) (\<lambda>binding S'.
                      if name = binding_name binding \<and> \<not> has S' k (binding_name binding)
                      then run (Suc n) P (ProgramUse (resolveSourceFile P (builders S' k) (import_file declaration))
                                      (boundOrName binding)) S'
                      else Some (Inr S'))) T = Some r"
      by (erule forEach_mono) (rule bindings)
    have exps: "\<And>ds T r. forEach ds (\<lambda>declaration S'.
                    case export_file declaration of
                      None \<Rightarrow> Some (Inr S')
                    | Some f \<Rightarrow>
                        if f = [] then Some (Inr S')
                        else forEach (export_namedBindings declaration) (\<lambda>binding S''.
                          if name = binding_name binding \<and> \<not> has S'' k (binding_name binding)
                          then run n P (ProgramUse (resolveSourceFile P (builders S'' k) f)
                                          (boundOrName binding)) S''
                          else Some (Inr S'')) S') T = Some r \<Longrightarrow>
                 forEach ds (\<lambda>declaration S'.
                    case export_file declaration of
                      None \<Rightarrow> Some (Inr S')
                    | Some f \<Rightarrow>
                        if f = [] then Some (Inr S')
                        else forEach (export_namedBindings declaration) (\<lambda>binding S''.
                          if name = binding_name binding \<and> \<not> has S'' k (binding_name binding)
                          then run (Suc n) P (ProgramUse (resolveSourceFile P (builders S'' k) f)
                                          (boundOrName binding)) S''
                          else Some (Inr S'')) S') T = Some r"
      by (erule forEach_mono) (auto simp del: run.simps split: option.splits if_splits intro: bindings)
    show ?thesis using Suc.prems unfolding Use
      apply (subst run.simps(2))
      apply (subst (asm) run.simps(2))
      apply (simp only: call.case)
      apply (auto simp del: run.simps split: option.splits if_splits intro: IH
               elim!: bind_mono intro: imps exps)
      done
  next
    case (UseInterface k d)
    show ?thesis using Suc.prems unfolding UseInterface
      apply (subst run.simps(2))
      apply (subst (asm) run.simps(2))
      apply (simp only: call.case)
      apply (auto simp del: run.simps split: if_splits elim!: bind_mono intro: loop)
      done
  next
    case (UseType k d)
    show ?thesis using Suc.prems unfolding UseType
      apply (subst run.simps(2))
      apply (subst (asm) run.simps(2))
      apply (simp only: call.case)
      apply (auto simp del: run.simps split: if_splits intro: IH)
      done
  next
    case (Reference k t)
    show ?thesis using Suc.prems unfolding Reference
      apply (subst run.simps(2))
      apply (subst (asm) run.simps(2))
      apply (simp only: call.case)
      apply (cases t; auto simp del: run.simps split: if_splits option.splits
               elim!: bind_mono intro: IH loop)
      done
  next
    case (ProgramUse f name)
    show ?thesis using Suc.prems unfolding ProgramUse
      apply (subst run.simps(2))
      apply (subst (asm) run.simps(2))
      apply (simp only: call.case)
      apply (auto simp del: run.simps split: option.splits intro: IH)
      done
  qed
qed

lemma run_mono_le: "run n P c S = Some r \<Longrightarrow> n \<le> N \<Longrightarrow> run N P c S = Some r"
  by (induction N) (auto simp del: run.simps simp: le_Suc_eq intro: run_mono)

lemma forEach_run_mono_le:
  "forEach xs (\<lambda>x. run n P (g x)) S = Some r \<Longrightarrow> n \<le> N \<Longrightarrow>
   forEach xs (\<lambda>x. run N P (g x)) S = Some r"
  by (erule forEach_mono) (rule run_mono_le)

lemma forEach_total:
  assumes step: "\<And>x T. x \<in> set xs \<Longrightarrow> J T \<Longrightarrow> \<exists>n T'. run n P (g x) T = Some (Inr T')"
    and pres: "\<And>x T n T'. J T \<Longrightarrow> run n P (g x) T = Some (Inr T') \<Longrightarrow> J T'"
    and "J S"
  shows "\<exists>n S'. forEach xs (\<lambda>x. run n P (g x)) S = Some (Inr S') \<and> J S'"
  using assms
proof (induction xs arbitrary: S)
  case Nil
  then show ?case by simp
next
  case (Cons x xs)
  from Cons.prems(1)[of x S] Cons.prems(3) obtain n1 T1 where
    a: "run n1 P (g x) S = Some (Inr T1)" by auto
  then have "J T1" using Cons.prems(2,3) by blast
  from Cons.IH[OF _ _ this] Cons.prems(1,2) obtain n2 S' where
    b: "forEach xs (\<lambda>x. run n2 P (g x)) T1 = Some (Inr S')" and j: "J S'"
    by (metis list.set_intros(2))
  have "run (max n1 n2) P (g x) S = Some (Inr T1)"
    by (rule run_mono_le[OF a]) simp
  moreover have "forEach xs (\<lambda>x. run (max n1 n2) P (g x)) T1 = Some (Inr S')"
    by (rule forEach_run_mono_le[OF b]) simp
  ultimately have "forEach (x # xs) (\<lambda>x. run (max n1 n2) P (g x)) S = Some (Inr S')"
    by simp
  with j show ?case by blast
qed

lemma run_local_total:
  assumes nf: "\<not> finalized (builders S k)"
  shows "\<exists>n S'. run n P (Use k name) S = Some (Inr S')"
proof -
  define sch where "sch = schema (builders S k)"
  define D where "D = interface_name ` set (interfaces sch) \<union> type_name ` set (types sch)"
  define U where "U = (\<lambda>T. {x \<in> D. \<not> has T k x})"
  define J where "J = (\<lambda>m T. schema (builders T k) = sch \<and> \<not> finalized (builders T k) \<and>
                              card (U T) \<le> m)"
  have finU: "\<And>T. finite (U T)" by (simp add: U_def D_def)
  have monoU: "\<And>n c T T'. run n P c T = Some (Inr T') \<Longrightarrow> card (U T') \<le> card (U T)"
  proof -
    fix n c T T'
    assume r: "run n P c T = Some (Inr T')"
    have "U T' \<subseteq> U T" using run_has_mono[OF r] by (auto simp: U_def)
    then show "card (U T') \<le> card (U T)" by (rule card_mono[OF finU])
  qed
  have presJ: "\<And>m n c T T'. J m T \<Longrightarrow> run n P c T = Some (Inr T') \<Longrightarrow> J m T'"
    using run_frame monoU unfolding J_def by (metis le_trans)
  have addJ: "\<And>m T nm. J m T \<Longrightarrow> nm \<in> D \<Longrightarrow> \<not> has T k nm \<Longrightarrow>
                \<exists>m'. m' < m \<and> J m' (add T k nm)"
  proof -
    fix m T nm
    assume j: "J m T" and d: "nm \<in> D" and h: "\<not> has T k nm"
    have "U (add T k nm) = U T - {nm}" by (auto simp: U_def)
    moreover have "nm \<in> U T" using d h by (simp add: U_def)
    ultimately have "card (U (add T k nm)) < card (U T)"
      using card_Diff1_less[OF finU[of T], of nm] by simp
    moreover have "schema (builders (add T k nm) k) = sch \<and> \<not> finalized (builders (add T k nm) k)"
      using j by (simp add: J_def add_def)
    ultimately show "\<exists>m'. m' < m \<and> J m' (add T k nm)"
      using j unfolding J_def by (intro exI[of _ "card (U (add T k nm))"]) auto
  qed
  have main: "\<forall>T. J m T \<longrightarrow>
      (\<forall>d. interface_name d \<in> D \<longrightarrow> (\<exists>n T'. run n P (UseInterface k d) T = Some (Inr T'))) \<and>
      (\<forall>d. type_name d \<in> D \<longrightarrow> (\<exists>n T'. run n P (UseType k d) T = Some (Inr T'))) \<and>
      (\<forall>name. \<exists>n T'. run n P (Use k name) T = Some (Inr T')) \<and>
      (\<forall>t. \<exists>n T'. run n P (Reference k t) T = Some (Inr T'))" for m
  proof (induction m rule: less_induct)
    case (less m)
    have refLow: "\<And>m' T t. m' < m \<Longrightarrow> J m' T \<Longrightarrow> \<exists>n T'. run n P (Reference k t) T = Some (Inr T')"
      using less.IH by blast
    have ui: "\<exists>n T'. run n P (UseInterface k d) T = Some (Inr T')"
      if j: "J m T" and d: "interface_name d \<in> D" for T d
    proof (cases "has T k (interface_name d)")
      case True
      then have "run (Suc 0) P (UseInterface k d) T = Some (Inr T)" by simp
      then show ?thesis by blast
    next
      case False
      from addJ[OF j d False] obtain m' where m': "m' < m" and j1: "J m' (add T k (interface_name d))"
        by blast
      from forEach_total[where J="J m'" and g="Reference k" and xs="heritages d" and P=P, OF _ _ j1]
        refLow[OF m'] presJ
      obtain n1 S1 where
        a: "forEach (heritages d) (\<lambda>x. run n1 P (Reference k x)) (add T k (interface_name d)) = Some (Inr S1)"
        and j2: "J m' S1" by blast
      from forEach_total[where J="J m'" and g="\<lambda>member. Reference k (member_type member)"
          and xs="members d" and P=P, OF _ _ j2] refLow[OF m'] presJ
      obtain n2 S2 where
        b: "forEach (members d) (\<lambda>member. run n2 P (Reference k (member_type member))) S1 = Some (Inr S2)"
        by blast
      have a': "forEach (heritages d) (\<lambda>x. run (max n1 n2) P (Reference k x))
                  (add T k (interface_name d)) = Some (Inr S1)"
        by (rule forEach_run_mono_le[OF a]) simp
      have b': "forEach (members d) (\<lambda>member. run (max n1 n2) P (Reference k (member_type member))) S1
                  = Some (Inr S2)"
        by (rule forEach_run_mono_le[OF b]) simp
      have "run (Suc (max n1 n2)) P (UseInterface k d) T = Some (Inr S2)"
        using False a' b' by (simp del: run.simps add: run.simps(2)[of "max n1 n2"])
      then show ?thesis by blast
    qed
    have ut: "\<exists>n T'. run n P (UseType k d) T = Some (Inr T')"
      if j: "J m T" and d: "type_name d \<in> D" for T d
    proof (cases "has T k (type_name d)")
      case True
      then have "run (Suc 0) P (UseType k d) T = Some (Inr T)" by simp
      then show ?thesis by blast
    next
      case False
      from addJ[OF j d False] obtain m' where m': "m' < m" and j1: "J m' (add T k (type_name d))"
        by blast
      from refLow[OF m' j1] obtain n1 S1 where
        "run n1 P (Reference k (type_type d)) (add T k (type_name d)) = Some (Inr S1)" by blast
      then have "run (Suc n1) P (UseType k d) T = Some (Inr S1)"
        using False by (simp del: run.simps add: run.simps(2)[of n1])
      then show ?thesis by blast
    qed
    have us: "\<exists>n T'. run n P (Use k name) T = Some (Inr T')" if j: "J m T" for T name
    proof -
      from j have s: "schema (builders T k) = sch" and nfT: "\<not> finalized (builders T k)"
        by (simp_all add: J_def)
      show ?thesis
      proof (cases "find (\<lambda>declaration. interface_name declaration = name) (interfaces sch)")
        case (Some iface)
        then have "interface_name iface \<in> D"
          by (auto simp: D_def find_Some_iff intro!: imageI)
        from ui[OF j this] obtain n T' where "run n P (UseInterface k iface) T = Some (Inr T')"
          by blast
        then have "run (Suc n) P (Use k name) T = Some (Inr T')"
          using Some s by (simp del: run.simps add: run.simps(2)[of n])
        then show ?thesis by blast
      next
        case None
        note noIface = None
        show ?thesis
        proof (cases "find (\<lambda>declaration. type_name declaration = name) (types sch)")
          case (Some ty)
          then have "type_name ty \<in> D"
            by (auto simp: D_def find_Some_iff intro!: imageI)
          from ut[OF j this] obtain n T' where "run n P (UseType k ty) T = Some (Inr T')"
            by blast
          then have "run (Suc n) P (Use k name) T = Some (Inr T')"
            using Some noIface s by (simp del: run.simps add: run.simps(2)[of n])
          then show ?thesis by blast
        next
          case None
          then have "\<exists>T'. run (Suc 0) P (Use k name) T = Some (Inr T')"
            using noIface s nfT by (simp split: option.splits)
          then show ?thesis by blast
        qed
      qed
    qed
    have ref: "\<forall>T. J m T \<longrightarrow> (\<exists>n T'. run n P (Reference k t) T = Some (Inr T'))"
      and "\<forall>T. J m T \<longrightarrow> (\<exists>n T'. run n P (Reference k (member_type mem)) T = Some (Inr T'))"
      for t mem
    proof (induction t and mem)
      case (TObject ms r)
      show ?case
      proof (intro allI impI)
        fix T assume j: "J m T"
        have "\<exists>n S'. forEach (case ms of None \<Rightarrow> [] | Some l \<Rightarrow> l)
                 (\<lambda>member. run n P (Reference k (member_type member))) T = Some (Inr S') \<and> J m S'"
          by (rule forEach_total[where J="J m", OF _ _ j])
             (use TObject presJ in \<open>auto split: option.splits\<close>)
        then obtain n S' where "forEach (case ms of None \<Rightarrow> [] | Some l \<Rightarrow> l)
                 (\<lambda>member. run n P (Reference k (member_type member))) T = Some (Inr S')" by blast
        then have "run (Suc n) P (Reference k (TObject ms r)) T = Some (Inr S')"
          by (simp del: run.simps add: run.simps(2)[of n])
        then show "\<exists>n T'. run n P (Reference k (TObject ms r)) T = Some (Inr T')" by blast
      qed
    next
      case (TArray t lo hi r)
      show ?case
      proof (intro allI impI)
        fix T assume j: "J m T"
        with TArray obtain n T' where "run n P (Reference k t) T = Some (Inr T')" by blast
        then have "run (Suc n) P (Reference k (TArray t lo hi r)) T = Some (Inr T')"
          by (simp del: run.simps add: run.simps(2)[of n])
        then show "\<exists>n T'. run n P (Reference k (TArray t lo hi r)) T = Some (Inr T')" by blast
      qed
    next
      case (TTuple ts mn rest r)
      show ?case
      proof (intro allI impI)
        fix T assume j: "J m T"
        have "\<exists>n S'. forEach ts (\<lambda>x. run n P (Reference k x)) T = Some (Inr S') \<and> J m S'"
          by (rule forEach_total[where J="J m", OF _ _ j]) (use TTuple presJ in auto)
        then obtain n S' where "forEach ts (\<lambda>x. run n P (Reference k x)) T = Some (Inr S')" by blast
        then have "run (Suc n) P (Reference k (TTuple ts mn rest r)) T = Some (Inr S')"
          by (simp del: run.simps add: run.simps(2)[of n])
        then show "\<exists>n T'. run n P (Reference k (TTuple ts mn rest r)) T = Some (Inr T')" by blast
      qed
    next
      case (TUnion ts r)
      show ?case
      proof (intro allI impI)
        fix T assume j: "J m T"
        have "\<exists>n S'. forEach ts (\<lambda>x. run n P (Reference k x)) T = Some (Inr S') \<and> J m S'"
          by (rule forEach_total[where J="J m", OF _ _ j]) (use TUnion presJ in auto)
        then obtain n S' where "forEach ts (\<lambda>x. run n P (Reference k x)) T = Some (Inr S')" by blast
        then have "run (Suc n) P (Reference k (TUnion ts r)) T = Some (Inr S')"
          by (simp del: run.simps add: run.simps(2)[of n])
        then show "\<exists>n T'. run n P (Reference k (TUnion ts r)) T = Some (Inr T')" by blast
      qed
    next
      case (TIntersection ts r)
      show ?case
      proof (intro allI impI)
        fix T assume j: "J m T"
        have "\<exists>n S'. forEach ts (\<lambda>x. run n P (Reference k x)) T = Some (Inr S') \<and> J m S'"
          by (rule forEach_total[where J="J m", OF _ _ j]) (use TIntersection presJ in auto)
        then obtain n S' where "forEach ts (\<lambda>x. run n P (Reference k x)) T = Some (Inr S')" by blast
        then have "run (Suc n) P (Reference k (TIntersection ts r)) T = Some (Inr S')"
          by (simp del: run.simps add: run.simps(2)[of n])
        then show "\<exists>n T'. run n P (Reference k (TIntersection ts r)) T = Some (Inr T')" by blast
      qed
    next
      case (TTypeReference nm r)
      show ?case
      proof (intro allI impI)
        fix T assume j: "J m T"
        show "\<exists>n T'. run n P (Reference k (TTypeReference nm r)) T = Some (Inr T')"
        proof (cases "has T k nm")
          case True
          then have "run (Suc 0) P (Reference k (TTypeReference nm r)) T = Some (Inr T)" by simp
          then show ?thesis by blast
        next
          case False
          from us[OF j] obtain n T' where "run n P (Use k nm) T = Some (Inr T')" by blast
          then have "run (Suc n) P (Reference k (TTypeReference nm r)) T = Some (Inr (add T' k nm))"
            using False by (simp del: run.simps add: run.simps(2)[of n])
          then show ?thesis by blast
        qed
      qed
    next
      case (TTypeAccess nm ac r)
      show ?case
      proof (intro allI impI)
        fix T assume j: "J m T"
        show "\<exists>n T'. run n P (Reference k (TTypeAccess nm ac r)) T = Some (Inr T')"
        proof (cases "has T k nm")
          case True
          then have "run (Suc 0) P (Reference k (TTypeAccess nm ac r)) T = Some (Inr T)" by simp
          then show ?thesis by blast
        next
          case False
          from us[OF j] obtain n T' where "run n P (Use k nm) T = Some (Inr T')" by blast
          then have "run (Suc n) P (Reference k (TTypeAccess nm ac r)) T = Some (Inr (add T' k nm))"
            using False by (simp del: run.simps add: run.simps(2)[of n])
          then show ?thesis by blast
        qed
      qed
    next
      case (TBase x1 x2)
      have "run (Suc 0) P (Reference k (TBase x1 x2)) T = Some (Inr T)" for T by simp
      then show ?case by blast
    next
      case (TString x1 x2)
      have "run (Suc 0) P (Reference k (TString x1 x2)) T = Some (Inr T)" for T by simp
      then show ?case by blast
    next
      case (TNumber x1 x2 x3 x4)
      have "run (Suc 0) P (Reference k (TNumber x1 x2 x3 x4)) T = Some (Inr T)" for T by simp
      then show ?case by blast
    next
      case (TLiteral x1 x2 x3)
      have "run (Suc 0) P (Reference k (TLiteral x1 x2 x3)) T = Some (Inr T)" for T by simp
      then show ?case by blast
    next
      case (IMemberDeclaration x1 x2 x3 x4 x5)
      then show ?case by simp
    qed
    show ?case using ui ut us ref by blast
  qed
  have "J (card (U S)) S" using nf by (simp add: J_def sch_def)
  with main show ?thesis by blast
qed

lemma importCycle_diverges:
  "run n posixPath (Use ''/src/a.ts'' ''Q'') importCycle = None \<and>
   run n posixPath (ProgramUse ''/src/b'' ''X'') importCycle = None \<and>
   run n posixPath (Use ''/src/b.ts'' ''X'') importCycle = None \<and>
   run n posixPath (ProgramUse ''/src/a'' ''Q'') importCycle = None"
proof (induction n)
  case 0
  show ?case by simp
next
  case (Suc n)
  have a: "run (Suc n) posixPath (Use ''/src/a.ts'' ''Q'') importCycle = None"
    using Suc by (simp add: importCycle_def has_def boundOrName_def resolveSourceFile_def
        posixPath_def posix_dirname_def posix_join_def newBuilder_def)
  have b: "run (Suc n) posixPath (ProgramUse ''/src/b'' ''X'') importCycle = None"
    using Suc by (simp add: getSchema_def) (simp add: importCycle_def)
  have c: "run (Suc n) posixPath (Use ''/src/b.ts'' ''X'') importCycle = None"
    using Suc by (simp add: importCycle_def has_def boundOrName_def resolveSourceFile_def
        posixPath_def posix_dirname_def posix_join_def newBuilder_def)
  have d: "run (Suc n) posixPath (ProgramUse ''/src/a'' ''Q'') importCycle = None"
    using Suc by (simp add: getSchema_def) (simp add: importCycle_def)
  from a b c d show ?case by blast
qed

text \<open>
  Claim C10, as the code has it.  On a file schema that is not finalized yet (every call
  made while declarations are written), \<open>use(name)\<close> returns normally, whatever the schema
  holds.  Whenever a call of \<open>use(name)\<close> returns normally, on a finalized file schema or not,
  \<open>name\<close> is in the \<open>referencedNames\<close> of the file schema it was called on; a second call on
  the resulting store returns that store unchanged (so no \<open>referencedNames\<close> set of any file
  schema changes), and it does so within a call depth of two: \<open>use\<close> itself and, for a
  local interface or type, the guarded \<open>useInterface\<close>/\<open>useType\<close>.  A call of
  \<open>SchemaProgram.use\<close>, which is what propagates usage to another file, would need a
  third frame to reach \<open>use\<close> on the other builder, so none is made.
\<close>

theorem use_idempotent:
  "(\<not> finalized (builders S k) \<longrightarrow> (\<exists>n S'. use n P S k name = Some (Inr S'))) \<and>
   (use n P S k name = Some (Inr S') \<longrightarrow>
      name \<in> referencedNames (builders S' k) \<and> (\<forall>m. use (m + 2) P S' k name = Some (Inr S')))"
proof (rule conjI)
  show "\<not> finalized (builders S k) \<longrightarrow> (\<exists>n S'. use n P S k name = Some (Inr S'))"
    unfolding use_def by (rule impI) (rule run_local_total)
next
  show "use n P S k name = Some (Inr S') \<longrightarrow>
      name \<in> referencedNames (builders S' k) \<and> (\<forall>m. use (m + 2) P S' k name = Some (Inr S'))"
  proof
    assume a: "use n P S k name = Some (Inr S')"
    show "name \<in> referencedNames (builders S' k) \<and> (\<forall>m. use (m + 2) P S' k name = Some (Inr S'))"
      using use_marks[OF a] use_again[of S' k name] by (simp add: has_def)
  qed
qed

text \<open>
  For C10: \<open>use('Other')\<close> on the finalized \<open>a.ts\<close> of \<open>importedName\<close>, which marks \<open>Other\<close> in
  \<open>b.ts\<close> through the import and then in \<open>a.ts\<close>, and \<open>use('INode')\<close> on the unfinalized
  \<open>list.ts\<close>; the second call changes nothing in either.
\<close>

theorem use_idempotent_witness:
  "use 4 posixPath importedName ''/src/a.ts'' ''Other'' =
     Some (Inr (add (add importedName ''/src/b.ts'' ''Other'') ''/src/a.ts'' ''Other'')) \<and>
   ''Other'' \<in> referencedNames
      (builders (add (add importedName ''/src/b.ts'' ''Other'') ''/src/a.ts'' ''Other'') ''/src/a.ts'') \<and>
   ''Other'' \<in> referencedNames
      (builders (add (add importedName ''/src/b.ts'' ''Other'') ''/src/a.ts'' ''Other'') ''/src/b.ts'') \<and>
   use 2 posixPath (add (add importedName ''/src/b.ts'' ''Other'') ''/src/a.ts'' ''Other'')
     ''/src/a.ts'' ''Other'' =
     Some (Inr (add (add importedName ''/src/b.ts'' ''Other'') ''/src/a.ts'' ''Other'')) \<and>
   \<not> finalized (builders linkedList ''/src/list.ts'') \<and>
   use 4 posixPath linkedList ''/src/list.ts'' ''INode'' =
     Some (Inr (add linkedList ''/src/list.ts'' ''INode'')) \<and>
   use 2 posixPath (add linkedList ''/src/list.ts'' ''INode'') ''/src/list.ts'' ''INode'' =
     Some (Inr (add linkedList ''/src/list.ts'' ''INode''))"
proof -
  let ?X = "add (add importedName ''/src/b.ts'' ''Other'') ''/src/a.ts'' ''Other''"
  let ?Y = "add linkedList ''/src/list.ts'' ''INode''"
  have h: "use 4 posixPath importedName ''/src/a.ts'' ''Other'' = Some (Inr ?X)"
    by (simp add: use_def eval_nat_numeral importedName_def newBuilder_def has_def add_def
          getSchema_def boundOrName_def resolveSourceFile_def posixPath_def posix_dirname_def
          posix_join_def)
  have g: "use 4 posixPath linkedList ''/src/list.ts'' ''INode'' = Some (Inr ?Y)"
    by (simp add: use_def eval_nat_numeral linkedList_def newBuilder_def has_def add_def)
  have nf: "\<not> finalized (builders linkedList ''/src/list.ts'')"
    by (simp add: linkedList_def)
  from use_idempotent[of importedName "''/src/a.ts''" posixPath "''Other''" 4 ?X] h
  have x1: "''Other'' \<in> referencedNames (builders ?X ''/src/a.ts'')"
    and x2: "use (0 + 2) posixPath ?X ''/src/a.ts'' ''Other'' = Some (Inr ?X)"
    by blast+
  from use_idempotent[of linkedList "''/src/list.ts''" posixPath "''INode''" 4 ?Y] g nf
  have y2: "use (0 + 2) posixPath ?Y ''/src/list.ts'' ''INode'' = Some (Inr ?Y)"
    by blast
  have x3: "''Other'' \<in> referencedNames (builders ?X ''/src/b.ts'')"
    by (simp add: add_def)
  from h g nf x1 x2 x3 y2 show ?thesis by (simp add: numeral_2_eq_2)
qed

text \<open>
  Claim C10 as stated fails: a first call need not mark the name.  On the finalized
  \<open>a.ts\<close> of \<open>ghostProgram\<close>, whose import of \<open>Other\<close> names a file without a schema,
  \<open>use('Other')\<close> throws before \<open>referencedNames.add\<close> is reached.
\<close>

theorem use_idempotent_counterexample:
  "finalized (builders ghostProgram ''/src/a.ts'') \<and>
   ''Other'' \<notin> referencedNames (builders ghostProgram ''/src/a.ts'') \<and>
   use 3 posixPath ghostProgram ''/src/a.ts'' ''Other'' =
     Some (Inl (Error ''Couldn't find schema for: /src/b''))"
  by (simp add: use_def eval_nat_numeral ghostProgram_def newBuilder_def has_def getSchema_def
        boundOrName_def resolveSourceFile_def posixPath_def posix_dirname_def posix_join_def)

text \<open>
  Claim C3, as the code has it.  \<open>use(name)\<close> with a name that is no local interface,
  type alias or enum and that no import or export binding of the file schema carries
  is accepted silently: the call returns normally and its only effect is that \<open>name\<close> is
  added to \<open>referencedNames\<close>.  \<open>SchemaProgram.use(file, name)\<close> throws when the store has no
  schema for \<open>file\<close> (tried as given and with \<open>.ts\<close> appended), and this is the only error
  a call of \<open>use\<close> throws: whenever \<open>use\<close> throws, the error is the one for some file the
  store has no schema for.  A call that does not throw it returns normally or exhausts
  the call stack, as \<open>use('X')\<close> does on the \<open>b.ts\<close> of \<open>importCycle\<close> at every depth.
\<close>

theorem use_unresolved_accepted:
  "(find (\<lambda>d. interface_name d = name) (interfaces (schema (builders S k))) = None \<and>
    find (\<lambda>d. type_name d = name) (types (schema (builders S k))) = None \<and>
    find (\<lambda>d. enum_name d = name) (enums (schema (builders S k))) = None \<and>
    (\<forall>d \<in> set (schema_imports (schema (builders S k))). \<forall>b \<in> set (import_namedBindings d). binding_name b \<noteq> name) \<and>
    (\<forall>d \<in> set (schema_exports (schema (builders S k))). \<forall>b \<in> set (export_namedBindings d). binding_name b \<noteq> name)
    \<longrightarrow> use (Suc n) P S k name = Some (Inr (add S k name))) \<and>
   (getSchema S f = None \<longrightarrow>
      program_use (Suc n) P S f name = Some (Inl (Error (''Couldn't find schema for: '' @ f)))) \<and>
   (use m P S k name = Some (Inl e) \<longrightarrow>
      (\<exists>f'. e = Error (''Couldn't find schema for: '' @ f') \<and> getSchema S f' = None)) \<and>
   use d posixPath importCycle ''/src/b.ts'' ''X'' = None"
proof (intro conjI impI)
  assume a: "find (\<lambda>d. interface_name d = name) (interfaces (schema (builders S k))) = None \<and>
    find (\<lambda>d. type_name d = name) (types (schema (builders S k))) = None \<and>
    find (\<lambda>d. enum_name d = name) (enums (schema (builders S k))) = None \<and>
    (\<forall>d \<in> set (schema_imports (schema (builders S k))). \<forall>b \<in> set (import_namedBindings d). binding_name b \<noteq> name) \<and>
    (\<forall>d \<in> set (schema_exports (schema (builders S k))). \<forall>b \<in> set (export_namedBindings d). binding_name b \<noteq> name)"
  have imps: "forEach (schema_imports (schema (builders S k))) (\<lambda>declaration.
                    forEach (import_namedBindings declaration) (\<lambda>binding S'.
                      if name = binding_name binding \<and> \<not> has S' k (binding_name binding)
                      then run n P (ProgramUse (resolveSourceFile P (builders S' k) (import_file declaration))
                                      (boundOrName binding)) S'
                      else Some (Inr S'))) S = Some (Inr S)"
    using a by (intro forEach_skip) auto
  have exps: "forEach (schema_exports (schema (builders S k))) (\<lambda>declaration S'.
                    case export_file declaration of
                      None \<Rightarrow> Some (Inr S')
                    | Some f \<Rightarrow>
                        if f = [] then Some (Inr S')
                        else forEach (export_namedBindings declaration) (\<lambda>binding S''.
                          if name = binding_name binding \<and> \<not> has S'' k (binding_name binding)
                          then run n P (ProgramUse (resolveSourceFile P (builders S'' k) f)
                                          (boundOrName binding)) S''
                          else Some (Inr S'')) S') S = Some (Inr S)"
    using a by (intro forEach_skip) (fastforce split: option.splits intro!: forEach_skip)
  show "use (Suc n) P S k name = Some (Inr (add S k name))"
    using a imps exps by (simp add: use_def)
next
  assume "getSchema S f = None"
  then show "program_use (Suc n) P S f name = Some (Inl (Error (''Couldn't find schema for: '' @ f)))"
    by (simp add: program_use_def)
next
  assume "use m P S k name = Some (Inl e)"
  then show "\<exists>f'. e = Error (''Couldn't find schema for: '' @ f') \<and> getSchema S f' = None"
    unfolding use_def by (rule run_error)
next
  show "use d posixPath importCycle ''/src/b.ts'' ''X'' = None"
    using importCycle_diverges[of d] by (simp add: use_def)
qed

text \<open>
  For C3: \<open>Ghost\<close> on \<open>ghostProgram\<close> is accepted, a file without a schema is refused, and
  \<open>use('Other')\<close>, whose import names the file \<open>./b\<close> without a schema, throws that error.
\<close>

theorem use_unresolved_accepted_witness:
  "use 1 posixPath ghostProgram ''/src/a.ts'' ''Ghost'' =
     Some (Inr (add ghostProgram ''/src/a.ts'' ''Ghost'')) \<and>
   program_use 1 posixPath ghostProgram ''/src/missing'' ''Ghost'' =
     Some (Inl (Error ''Couldn't find schema for: /src/missing'')) \<and>
   use 2 posixPath ghostProgram ''/src/a.ts'' ''Other'' =
     Some (Inl (Error ''Couldn't find schema for: /src/b'')) \<and>
   getSchema ghostProgram ''/src/b'' = None"
proof -
  have h: "use 2 posixPath ghostProgram ''/src/a.ts'' ''Other'' =
     Some (Inl (Error ''Couldn't find schema for: /src/b''))"
    by (simp add: use_def eval_nat_numeral ghostProgram_def newBuilder_def has_def getSchema_def
          boundOrName_def resolveSourceFile_def posixPath_def posix_dirname_def posix_join_def)
  from use_unresolved_accepted[where name="''Ghost''" and S=ghostProgram and k="''/src/a.ts''"
      and n=0 and P=posixPath and f="''/src/missing''" and m=0 and e="TypeError"]
  have a: "use 1 posixPath ghostProgram ''/src/a.ts'' ''Ghost'' =
             Some (Inr (add ghostProgram ''/src/a.ts'' ''Ghost''))"
    and b: "program_use 1 posixPath ghostProgram ''/src/missing'' ''Ghost'' =
             Some (Inl (Error ''Couldn't find schema for: /src/missing''))"
    by (simp_all add: ghostProgram_def getSchema_def newBuilder_def)
  from use_unresolved_accepted[where name="''Other''" and S=ghostProgram and k="''/src/a.ts''"
      and n=0 and P=posixPath and f="''/src/b''" and m=2
      and e="Error ''Couldn't find schema for: /src/b''"] h
  have c: "getSchema ghostProgram ''/src/b'' = None" by auto
  from a b c h show ?thesis by simp
qed

text \<open>
  Claim C3 as stated fails: on a finalized file schema that neither declares nor imports
  nor exports \<open>Ghost\<close>, \<open>use('Ghost')\<close> returns normally instead of throwing.
\<close>

theorem use_unresolved_counterexample:
  "use 1 posixPath ghostProgram ''/src/a.ts'' ''Ghost'' =
     Some (Inr (add ghostProgram ''/src/a.ts'' ''Ghost''))"
  by (simp add: use_def ghostProgram_def newBuilder_def has_def)
text \<open>
  Claim C2 fails on the code.  On \<open>importCycle\<close>, \<open>use('Q')\<close> on \<open>a.ts\<close> finds the export
  binding \<open>Q\<close> unmarked and calls \<open>use('X')\<close> on \<open>b.ts\<close>, which finds the import binding \<open>X\<close>
  unmarked and calls \<open>use('Q')\<close> on \<open>a.ts\<close> again; \<open>referencedNames.add(name)\<close> is reached
  only after these calls return, so the guard never stops the recursion.  No call depth
  suffices.
\<close>

theorem use_import_cycle_never_returns:
  "use n posixPath importCycle ''/src/a.ts'' ''Q'' = None"
  using importCycle_diverges[of n] by (simp add: use_def)


text \<open>
  Claim C1 fails on the code.  \<open>finalize\<close> on \<open>h.ts\<close> finds nothing to do and sets its flag.
  \<open>finalize\<close> on \<open>f.ts\<close> takes its list of used imports (only \<open>A\<close>) and calls \<open>use('A')\<close> on
  \<open>h.ts\<close>, which, being finalized, follows its import of \<open>J\<close> back into \<open>f.ts\<close>; there \<open>J\<close> and
  the \<open>M\<close> it references are marked, but \<open>f.ts\<close> is not finalized yet and the import of \<open>M\<close>
  is not in the list taken before.  After every schema is finalized, \<open>f.ts\<close> renders \<open>J\<close>
  with a reference to \<open>M\<close> and imports \<open>M\<close> from \<open>./k\<close>, and \<open>k.ts\<close>, which declares \<open>M\<close>,
  has nothing marked.
\<close>

theorem finalize_reentrant_misses_import:
  "(case finalizeAll 10 posixPath reentrantFinalize of
      Some (Inr S') \<Rightarrow>
        finalized (builders S' ''/src/h.ts'') \<and> finalized (builders S' ''/src/f.ts'') \<and>
        finalized (builders S' ''/src/k.ts'') \<and>
        ''J'' \<in> referencedNames (builders S' ''/src/f.ts'') \<and>
        ''M'' \<in> referencedNames (builders S' ''/src/f.ts'') \<and>
        getUsedImports (builders S' ''/src/f.ts'') =
          [\<lparr>import_file = ''./h'', import_namedBindings = [\<lparr>bound = None, binding_name = ''A''\<rparr>]\<rparr>,
           \<lparr>import_file = ''./k'', import_namedBindings = [\<lparr>bound = None, binding_name = ''M''\<rparr>]\<rparr>] \<and>
        getSchema S' (resolveSourceFile posixPath (builders S' ''/src/f.ts'') ''./k'') = Some ''/src/k.ts'' \<and>
        find (\<lambda>d. interface_name d = ''M'') (interfaces (schema (builders S' ''/src/k.ts''))) \<noteq> None \<and>
        referencedNames (builders S' ''/src/k.ts'') = {}
    | _ \<Rightarrow> False)"
  by (simp add: finalizeAll_def finalize_def reentrantFinalize_def getUsedImports_def getUsedExports_def
     program_use_def eval_nat_numeral getSchema_def has_def add_def boundOrName_def resolveSourceFile_def
        posixPath_def posix_dirname_def posix_join_def newBuilder_def)
subsection \<open>The Type IR Compiler\<close>

lemmas compile_eval = compileTsType.simps compileNonNullableType.simps hasFlag_def hasObjectFlag_def
  aliasReference_def plainType_def strictChecker_def stringSchema_def numberSchema_def
  getPropertyTags_def tagString_def tagBool_def tagNumber_def mergeBooleanLiterals_def
  isBooleanLiteral_def splice1_def tupleRest_def tupleElementTypes_def

lemma aliasReference_None: "aliasSymbol t = None \<Longrightarrow> aliasReference t ig = None"
  by (simp add: aliasReference_def)

lemma compile_null_core:
  "set (flags t) = {TF_Null} \<Longrightarrow> aliasSymbol t = None \<Longrightarrow>
   compileNonNullableType C property t ig = Inr (TBase KNull None)"
  by (subst compileNonNullableType.simps) (simp add: hasFlag_def aliasReference_None)

lemma compile_undefined_core:
  "set (flags t) = {TF_Undefined} \<Longrightarrow> aliasSymbol t = None \<Longrightarrow>
   compileNonNullableType C property t ig = Inr (TBase KUndefined (Some False))"
  by (subst compileNonNullableType.simps) (simp add: hasFlag_def aliasReference_None)

lemma ex_if_Inr: "(\<exists>s. (if c then Inr a else e) = Inr s) \<longleftrightarrow> c \<or> (\<exists>s. e = Inr s)"
  by auto

lemma compile_nullish_core_returns:
  assumes "hasFlag t [TF_Null, TF_Undefined]"
  shows "\<exists>s0. compileNonNullableType C property t ig = Inr s0"
proof (cases "aliasReference t ig")
  case (Some name)
  then show ?thesis by (subst compileNonNullableType.simps) simp
next
  case None
  have "hasFlag t [TF_Undefined] \<or> hasFlag t [TF_Null]"
    using assms by (auto simp: hasFlag_def)
  then show ?thesis
    apply (subst compileNonNullableType.simps)
    apply (simp only: None option.case ex_if_Inr)
    apply blast
    done
qed

lemma compileTsType_nullish:
  "hasFlag t [TF_Null, TF_Undefined] \<Longrightarrow>
   compileTsType C property t ignoreRef =
     (case compileNonNullableType C property t None of
        Inl e \<Rightarrow> Inl e
      | Inr schemaType \<Rightarrow>
          Inr (if required schemaType = None then setRequired True schemaType else schemaType))"
  by (subst compileTsType.simps) (simp only: if_True)

text \<open>
  Claim C4, as the code has it.  When the type has the \<open>Null\<close> or the \<open>Undefined\<close> flag,
  \<open>compileTsType\<close> returns what \<open>compileNonNullableType\<close> returns for it (which never
  throws there), with \<open>required\<close> set to true only if that result left the flag unset.
  For a type that is exactly \<open>null\<close> the result is the \<open>null\<close> node with \<open>required = true\<close>; for
  a type that is exactly \<open>undefined\<close> the core already carries \<open>required = false\<close> and the
  result is the \<open>undefined\<close> node with \<open>required = false\<close>.
\<close>

theorem null_undefined_required:
  "(hasFlag t [TF_Null, TF_Undefined] \<longrightarrow>
      (\<exists>s0. compileNonNullableType C property t None = Inr s0 \<and>
            compileTsType C property t ignoreRef =
              Inr (if required s0 = None then setRequired True s0 else s0))) \<and>
   (set (flags t) = {TF_Null} \<and> aliasSymbol t = None \<longrightarrow>
      compileTsType C property t ignoreRef = Inr (TBase KNull (Some True))) \<and>
   (set (flags t) = {TF_Undefined} \<and> aliasSymbol t = None \<longrightarrow>
      compileTsType C property t ignoreRef = Inr (TBase KUndefined (Some False)))"
proof (intro conjI impI)
  assume h: "hasFlag t [TF_Null, TF_Undefined]"
  from compile_nullish_core_returns[OF h] obtain s0 where
    s0: "compileNonNullableType C property t None = Inr s0" by blast
  show "\<exists>s0. compileNonNullableType C property t None = Inr s0 \<and>
            compileTsType C property t ignoreRef =
              Inr (if required s0 = None then setRequired True s0 else s0)"
    using s0 by (simp add: compileTsType_nullish[OF h])
next
  assume a: "set (flags t) = {TF_Null} \<and> aliasSymbol t = None"
  then have h: "hasFlag t [TF_Null, TF_Undefined]" by (simp add: hasFlag_def)
  show "compileTsType C property t ignoreRef = Inr (TBase KNull (Some True))"
    using a by (simp add: compileTsType_nullish[OF h] compile_null_core)
next
  assume a: "set (flags t) = {TF_Undefined} \<and> aliasSymbol t = None"
  then have h: "hasFlag t [TF_Null, TF_Undefined]" by (simp add: hasFlag_def)
  show "compileTsType C property t ignoreRef = Inr (TBase KUndefined (Some False))"
    using a by (simp add: compileTsType_nullish[OF h] compile_undefined_core)
qed

theorem null_undefined_required_witness:
  "compileTsType strictChecker None nullType None = Inr (TBase KNull (Some True)) \<and>
   compileTsType strictChecker None undefinedType None = Inr (TBase KUndefined (Some False))"
  using null_undefined_required[where t=nullType and C=strictChecker and property=None and ignoreRef=None]
    null_undefined_required[where t=undefinedType and C=strictChecker and property=None and ignoreRef=None]
  by (simp add: nullType_def undefinedType_def plainType_def)

text \<open>
  Claim C4 as stated fails for \<open>undefined\<close>: the compiled node has \<open>required = false\<close>, not
  \<open>true\<close>.
\<close>

theorem undefined_not_required_counterexample:
  "compileTsType strictChecker None undefinedType None = Inr (TBase KUndefined (Some False))"
  by (simp add: undefinedType_def compile_eval)















lemma mapE_Inl:
  "x \<in> set xs \<Longrightarrow> f x = Inl e \<Longrightarrow> \<exists>e'. mapE f xs = Inl e'"
  by (induction xs) (auto split: sum.splits)

lemma yup_tuple_fails_aux:
  "(containsTuple t \<longrightarrow> (\<forall>ind b. \<exists>e. Yup_renderRule E ind b t = Inl e))"
  "(memberContainsTuple m \<longrightarrow> member_indexer m = None \<longrightarrow> (\<forall>ind. \<exists>e. Yup_renderMember E ind m = Inl e))"
proof (induction t and m)
  case (TObject ms r)
  show ?case
  proof (intro impI allI)
    fix ind b
    assume ct: "containsTuple (TObject ms r)"
    then obtain l m where l: "ms = Some l" and m: "m \<in> set l" and mt: "memberContainsTuple m"
      by (cases ms) auto
    have ne: "length l > 0" using m by (cases l) auto
    have "\<exists>e. Yup_renderMembers E ind ms = Inl e"
    proof (cases "member_indexer m")
      case None
      from TObject[of l m] l m mt None obtain e where "Yup_renderMember E ind m = Inl e"
        by auto
      from mapE_Inl[of m l "Yup_renderMember E ind" e, OF m this]
      obtain e' where "mapE (Yup_renderMember E ind) l = Inl e'" ..
      then show ?thesis using l ne by (subst Yup_renderMembers.simps) simp
    next
      case (Some ix)
      then have "find (\<lambda>m. member_indexer m \<noteq> None) l \<noteq> None"
        using m by (auto simp: find_None_iff)
      then obtain m' where f: "find (\<lambda>m. member_indexer m \<noteq> None) l = Some m'" by auto
      then have "member_indexer m' \<noteq> None" by (auto simp: find_Some_iff)
      then have "Yup_renderIndexer (find (\<lambda>m. member_indexer m \<noteq> None) l) =
                   Inl (Error ''Indexer currently not supported'')"
        using f by (simp add: Yup_renderIndexer_def)
      then show ?thesis using l ne
        by (subst Yup_renderMembers.simps) (simp split: sum.splits)
    qed
    then show "\<exists>e. Yup_renderRule E ind b (TObject ms r) = Inl e"
      by (subst Yup_renderRule.simps) auto
  qed
next
  case (TArray t lo hi r)
  show ?case
  proof (intro impI allI)
    fix ind b
    assume "containsTuple (TArray t lo hi r)"
    then obtain e where "Yup_renderRule E ind False t = Inl e" using TArray by auto
    then have "\<exists>e. Yup_renderSchemaType E ind t None = Inl e"
      by (subst Yup_renderSchemaType.simps) simp
    then show "\<exists>e. Yup_renderRule E ind b (TArray t lo hi r) = Inl e"
      by (subst Yup_renderRule.simps) auto
  qed
next
  case (IMemberDeclaration n i t x q)
  show ?case
  proof (intro impI allI)
    fix ind
    assume ct: "memberContainsTuple (IMemberDeclaration n i t x q)"
      and ni: "member_indexer (IMemberDeclaration n i t x q) = None"
    then obtain e where "Yup_renderRule E (Suc ind) (case q of None \<Rightarrow> False | Some b \<Rightarrow> b) t = Inl e"
      using IMemberDeclaration by auto
    then have "\<exists>e. Yup_renderSchemaType E (Suc ind) t q = Inl e"
      by (subst Yup_renderSchemaType.simps) simp
    then show "\<exists>e. Yup_renderMember E ind (IMemberDeclaration n i t x q) = Inl e"
      using ni by (subst Yup_renderMember.simps) auto
  qed
qed (simp_all add: Yup_renderRule.simps)

lemma yup_tuple_fails:
  assumes "containsTuple t"
  shows "\<exists>e. Yup_renderSchemaType E ind t req = Inl e"
proof -
  from assms yup_tuple_fails_aux(1)[of t E]
  obtain e where "Yup_renderRule E ind (case req of None \<Rightarrow> False | Some b \<Rightarrow> b) t = Inl e"
    by blast
  then show ?thesis by (subst Yup_renderSchemaType.simps) simp
qed


lemma Yup_renderRule_setRequired:
  "Yup_renderRule E ind b (setRequired r t) = Yup_renderRule E ind b t"
  by (cases t) (simp_all add: Yup_renderRule.simps)

lemma set_take_drop: "set (take n xs) \<union> set (drop n xs) = set xs"
  by (metis append_take_drop_id set_append)

lemma countAndMakeRun_shape:
  "\<exists>d n. countAndMakeRun c xs = (if d then rev (take n xs) else take n xs, drop n xs)"
proof (cases xs)
  case Nil
  then show ?thesis by (intro exI[of _ False] exI[of _ 0]) (simp add: countAndMakeRun_def)
next
  case (Cons x xs')
  show ?thesis
  proof (cases xs')
    case Nil
    with Cons show ?thesis
      by (intro exI[of _ False] exI[of _ 1]) (simp add: countAndMakeRun_def)
  next
    case (Cons y zs)
    with \<open>xs = x # xs'\<close> show ?thesis
      by (intro exI[of _ "c y x < 0"] exI[of _ "2 + countRun c (c y x < 0) y zs"])
         (simp add: countAndMakeRun_def Let_def)
  qed
qed

lemma set_countAndMakeRun:
  "countAndMakeRun c xs = (ys, zs) \<Longrightarrow> set ys \<union> set zs = set xs"
proof -
  assume a: "countAndMakeRun c xs = (ys, zs)"
  from countAndMakeRun_shape[of c xs] obtain d n where
    "countAndMakeRun c xs = (if d then rev (take n xs) else take n xs, drop n xs)" by blast
  with a have "set ys = set (take n xs)" and "zs = drop n xs" by (auto split: if_splits)
  then show ?thesis using set_take_drop[of n xs] by simp
qed

lemma set_binaryInsertionSort:
  "set (binaryInsertionSort c s xs) = set s \<union> set xs"
proof (induction xs arbitrary: s)
  case Nil
  show ?case by simp
next
  case (Cons p xs)
  have "set (take n s @ [p] @ drop n s) = insert p (set s)" for n
    using set_take_drop[of n s] by auto
  then show ?case by (simp add: Cons.IH Let_def)
qed

lemma set_sort_js: "set (sort_js c xs) = set xs"
  by (cases "countAndMakeRun c xs")
     (simp add: sort_js_def set_binaryInsertionSort set_countAndMakeRun)

lemma Yup_renderTypes_fails:
  assumes "d \<in> set (types (schema b))" "type_name d \<in> referencedNames b"
    "containsTuple (type_type d)"
  shows "\<exists>e. Yup_renderTypes E b = Inl e"
proof -
  from yup_tuple_fails[OF assms(3), of E 1 None]
  obtain e where "Yup_renderType E d = Inl e" by (auto simp: Yup_renderType_def)
  moreover have "d \<in> set (filter (\<lambda>declaration. type_name declaration \<in> referencedNames b)
                            (types (schema b)))"
    using assms by simp
  ultimately obtain e' where
    "mapE (Yup_renderType E)
       (filter (\<lambda>declaration. type_name declaration \<in> referencedNames b) (types (schema b))) = Inl e'"
    using mapE_Inl[of d _ "Yup_renderType E" e] by blast
  then show ?thesis by (simp add: Yup_renderTypes_def)
qed

lemma Yup_renderInterfaces_fails:
  assumes "d \<in> set (interfaces (schema b))" "interface_name d \<in> referencedNames b"
    "containsTuple (TObject (Some (members d)) None)"
  shows "\<exists>e. Yup_renderInterfaces E b = Inl e"
proof -
  from yup_tuple_fails_aux(1)[of "TObject (Some (members d)) None" E] assms(3)
  obtain e where "Yup_renderRule E 1 False (TObject (Some (members d)) None) = Inl e" by blast
  then obtain e1 where "Yup_renderMembers E 1 (Some (members d)) = Inl e1"
    by (subst (asm) Yup_renderRule.simps) (auto split: sum.splits)
  then have "Yup_renderInterface E d = Inl e1" by (simp add: Yup_renderInterface_def)
  moreover have "d \<in> set (referencedInterfaces b)"
    using assms by (simp add: referencedInterfaces_def set_sort_js)
  ultimately obtain e' where "mapE (Yup_renderInterface E) (referencedInterfaces b) = Inl e'"
    using mapE_Inl[of d _ "Yup_renderInterface E" e1] by blast
  then show ?thesis by (simp add: Yup_renderInterfaces_def)
qed

lemma Yup_render_fails:
  assumes "(\<exists>e. Yup_renderInterfaces E b = Inl e) \<or> (\<exists>e. Yup_renderTypes E b = Inl e)"
  shows "\<exists>e. Yup_render E b = Inl e"
  using assms by (auto simp: Yup_render_def split: sum.splits)

lemma renderAll_fails:
  assumes "k \<in> set (files S)" "builder_render E (builders S k) = Inl e"
  shows "\<exists>e'. renderAll E S = Inl e'"
proof -
  let ?f = "\<lambda>f. case builder_render E (builders S f) of
             Inl e \<Rightarrow> Inl e
           | Inr None \<Rightarrow> Inr None
           | Inr (Some c) \<Rightarrow>
               (let (dir, name) = path_parse E f;
                    outFile = path_format E (orElse (outDir (options E)) dir)
                                (name @ orElse (fileSuffix (options E)) (Defaults_fileSuffix (defaults E)))
                                (Some ''.ts'')
                in Inr (Some \<lparr>schemaFile = path_relative E ''./'' outFile, content = c\<rparr>))"
  have "?f k = Inl e" using assms(2) by simp
  from mapE_Inl[of k "files S" ?f e, OF assms(1) this]
  obtain e' where "mapE ?f (files S) = Inl e'" ..
  then show ?thesis unfolding renderAll_def by simp
qed

lemma mapE_map: "mapE f (map g xs) = mapE (\<lambda>x. f (g x)) xs"
  by (induction xs) (auto split: sum.splits)

lemma mapE_Inr:
  "(\<And>x. x \<in> set xs \<Longrightarrow> \<exists>y. f x = Inr y) \<Longrightarrow> \<exists>ys. mapE f xs = Inr ys"
proof (induction xs)
  case Nil
  show ?case by simp
next
  case (Cons x xs)
  from Cons.prems[of x] obtain y where "f x = Inr y" by auto
  moreover from Cons.IH Cons.prems obtain ys where "mapE f xs = Inr ys" by auto
  ultimately show ?case by simp
qed

lemma mapE_list_all2:
  "mapE f xs = Inr ys \<Longrightarrow> list_all2 (\<lambda>x y. f x = Inr y) xs ys"
  by (induction xs arbitrary: ys) (auto split: sum.splits)

lemma member_indexer_stripMember [simp]: "member_indexer (stripMember m) = member_indexer m"
  by (cases m) simp

lemma Yup_renderIndexer_strip:
  "Yup_renderIndexer (find (\<lambda>m. member_indexer m \<noteq> None) (map stripMember l)) =
   Yup_renderIndexer (find (\<lambda>m. member_indexer m \<noteq> None) l)"
  by (induction l) (simp_all add: Yup_renderIndexer_def)

lemma Yup_strip_aux:
  "\<forall>ind b. Yup_renderRule E ind b (stripRequired t) = Yup_renderRule E ind b t"
  "\<forall>ind. Yup_renderMember E ind (stripMember mem) = Yup_renderMember E ind mem"
proof (induction t and mem)
  case (TObject ms r)
  have "Yup_renderMembers E ind (map_option (map stripMember) ms) = Yup_renderMembers E ind ms" for ind
  proof (cases ms)
    case None
    then show ?thesis by (simp add: Yup_renderMembers.simps)
  next
    case (Some l)
    have mp: "mapE (Yup_renderMember E ind) (map stripMember l) = mapE (Yup_renderMember E ind) l"
      unfolding mapE_map using TObject Some by (intro mapE_cong) auto
    have ix: "Yup_renderIndexer (find (\<lambda>m. member_indexer m \<noteq> None) (map stripMember l)) =
              Yup_renderIndexer (find (\<lambda>m. member_indexer m \<noteq> None) l)"
      by (rule Yup_renderIndexer_strip)
    show ?thesis unfolding Some
      by (simp only: Yup_renderMembers.simps[of E ind "Some (map stripMember l)"]
            Yup_renderMembers.simps[of E ind "Some l"] option.map option.case length_map mp ix)
  qed
  then show ?case by (simp add: Yup_renderRule.simps)
next
  case (TArray t lo hi r)
  then show ?case by (simp add: Yup_renderRule.simps Yup_renderSchemaType.simps)
next
  case (IMemberDeclaration n i t x q)
  then show ?case
    by (auto simp: Yup_renderMember.simps Yup_renderSchemaType.simps split: sum.splits)
qed (simp_all add: Yup_renderRule.simps)

lemma Yup_strip:
  "Yup_renderSchemaType E ind (stripRequired t) req = Yup_renderSchemaType E ind t req"
  using Yup_strip_aux(1)[of E t] by (simp add: Yup_renderSchemaType.simps)

lemma Yup_ambient:
  "Yup_renderRule E ind True t =
     (case Yup_renderRule E ind False t of
        Inl e \<Rightarrow> Inl e
      | Inr rule \<Rightarrow>
          Inr (case t of
                 TBase k _ \<Rightarrow> if k = KAny \<or> k = KUnknown then rule else rule @ ''.required()''
               | TTypeReference name _ \<Rightarrow> ''lazy(() => '' @ toSchemaName E name @ ''.required())''
               | TTypeAccess name access _ \<Rightarrow>
                   ''lazy(() => '' @ getAccessName E name access @ ''.required())''
               | _ \<Rightarrow> rule @ ''.required()''))"
proof (cases t)
  case (TBase k r)
  then show ?thesis by (cases k) (simp_all add: Yup_renderRule.simps Yup_required_def)
qed (simp_all add: Yup_renderRule.simps Yup_required_def split: sum.splits)

lemma joi_supported_aux:
  "\<not> joiUnsupported t \<longrightarrow> (\<forall>ind. \<exists>s. Joi_renderRule E ind t = Inr s)"
  "\<not> memberJoiUnsupported mem \<longrightarrow> (\<forall>ind. \<exists>s. Joi_renderRule E ind (member_type mem) = Inr s)"
proof (induction t and mem)
  case (TBase k r)
  then show ?case by (cases k) (simp_all add: Joi_renderRule.simps)
next
  case (TLiteral v raw r)
  then show ?case by (cases v) (simp_all add: Joi_renderRule.simps Joi_renderLiteral_def)
next
  case (TObject ms r)
  show ?case
  proof (intro impI allI)
    fix ind
    assume ok: "\<not> joiUnsupported (TObject ms r)"
    have "\<exists>s. Joi_renderMembers E ind ms = Inr s"
    proof (cases ms)
      case None
      then show ?thesis by (simp add: Joi_renderMembers.simps)
    next
      case (Some l)
      have each: "\<exists>s. Joi_renderRule E i (member_type m) = Inr s" if "m \<in> set l" for m i
        using that TObject[of l m] ok Some by auto
      have st: "\<exists>s. Joi_renderSchemaType E i (member_type m) ov = Inr s" if "m \<in> set l" for m i ov
        using each[OF that, of i] by (auto simp: Joi_renderSchemaType.simps)
      have "\<exists>y. Joi_renderMember E ind m = Inr y" if "m \<in> set l" for m
        using st[OF that, of "Suc ind" None] by (auto simp: Joi_renderMember.simps)
      then obtain ps where ps: "mapE (Joi_renderMember E ind) l = Inr ps"
        using mapE_Inr[of l "Joi_renderMember E ind"] by blast
      have "\<exists>x. Joi_renderIndexer E ind (find (\<lambda>m. member_indexer m \<noteq> None) l) = Inr x"
      proof (cases "find (\<lambda>m. member_indexer m \<noteq> None) l")
        case None
        then show ?thesis by (simp add: Joi_renderIndexer.simps)
      next
        case (Some m)
        then have "m \<in> set l" by (rule find_member)
        from st[OF this, of ind None] Some show ?thesis
          by (auto simp: Joi_renderIndexer.simps split: option.splits)
      qed
      with ps Some show ?thesis by (auto simp: Joi_renderMembers.simps)
    qed
    then show "\<exists>s. Joi_renderRule E ind (TObject ms r) = Inr s"
      by (auto simp: Joi_renderRule.simps)
  qed
next
  case (TArray t lo hi r)
  show ?case
  proof (intro impI allI)
    fix ind
    assume "\<not> joiUnsupported (TArray t lo hi r)"
    with TArray obtain s where "Joi_renderRule E ind t = Inr s" by auto
    then show "\<exists>s. Joi_renderRule E ind (TArray t lo hi r) = Inr s"
      by (simp add: Joi_renderRule.simps[of _ _ "TArray t lo hi r"] Joi_renderSchemaType.simps)
  qed
next
  case (TTuple ts mn rest r)
  show ?case
  proof (intro impI allI)
    fix ind
    assume ok: "\<not> joiUnsupported (TTuple ts mn rest r)"
    have "\<exists>y. Joi_renderTypeListItem E ind t = Inr y" if "t \<in> set ts" for t
    proof -
      from TTuple(1)[OF that] ok that obtain s where "Joi_renderRule E (Suc ind) t = Inr s"
        by auto
      then show ?thesis by (simp add: Joi_renderTypeListItem.simps Joi_renderSchemaType.simps)
    qed
    then obtain items where items: "mapE (Joi_renderTypeListItem E ind) ts = Inr items"
      using mapE_Inr[of ts "Joi_renderTypeListItem E ind"] by blast
    show "\<exists>s. Joi_renderRule E ind (TTuple ts mn rest r) = Inr s"
    proof (cases rest)
      case None
      with items show ?thesis by (subst Joi_renderRule.simps) simp
    next
      case (Some x)
      with TTuple(2)[of x] ok obtain s where "Joi_renderRule E ind x = Inr s" by auto
      with items Some show ?thesis
        by (subst Joi_renderRule.simps) (simp add: Joi_renderSchemaType.simps)
    qed
  qed
next
  case (TUnion ts r)
  show ?case
  proof (intro impI allI)
    fix ind
    assume ok: "\<not> joiUnsupported (TUnion ts r)"
    have "\<exists>y. Joi_renderTypeListItem E ind t = Inr y" if "t \<in> set ts" for t
    proof -
      from TUnion[OF that] ok that obtain s where "Joi_renderRule E (Suc ind) t = Inr s"
        by auto
      then show ?thesis by (simp add: Joi_renderTypeListItem.simps Joi_renderSchemaType.simps)
    qed
    then obtain items where items: "mapE (Joi_renderTypeListItem E ind) ts = Inr items"
      using mapE_Inr[of ts "Joi_renderTypeListItem E ind"] by blast
    then show "\<exists>s. Joi_renderRule E ind (TUnion ts r) = Inr s"
      by (simp add: Joi_renderRule.simps[of _ _ "TUnion ts r"])
  qed
next
  case (IMemberDeclaration n i t x q)
  then show ?case by simp
qed (simp_all add: Joi_renderRule.simps)

lemma joi_supported_renders:
  assumes "\<not> joiUnsupported t"
  shows "\<exists>s. Joi_renderSchemaType E ind t ov = Inr s"
proof -
  from assms joi_supported_aux(1)[of t E] obtain s where "Joi_renderRule E ind t = Inr s" by blast
  then show ?thesis by (simp add: Joi_renderSchemaType.simps)
qed

lemma joi_tuple_shape:
  assumes "Joi_renderRule E ind (TTuple ts m rest r) = Inr s"
  shows "\<exists>items.
           list_all2 (\<lambda>t item. \<exists>x. Joi_renderSchemaType E (Suc ind) t None = Inr x \<and>
                                   item = indent ind 0 @ x @ '',\<newline>'') ts items \<and>
           (case rest of
              None \<Rightarrow> s = ''array().ordered(\<newline>'' @ concat items @ indent ind (- 1) @ '')''
            | Some t \<Rightarrow>
                \<exists>x. Joi_renderSchemaType E ind t (Some False) = Inr x \<and>
                    s = ''array().ordered(\<newline>'' @ concat items @ indent ind (- 1) @ '')'' @
                        ''.items('' @ x @ '')'')"
proof -
  from assms obtain items where items: "mapE (Joi_renderTypeListItem E ind) ts = Inr items"
    by (auto simp: Joi_renderRule.simps[of _ _ "TTuple ts m rest r"] split: sum.splits)
  have "list_all2 (\<lambda>t item. Joi_renderTypeListItem E ind t = Inr item) ts items"
    using items by (rule mapE_list_all2)
  then have "list_all2 (\<lambda>t item. \<exists>x. Joi_renderSchemaType E (Suc ind) t None = Inr x \<and>
                                   item = indent ind 0 @ x @ '',\<newline>'') ts items"
    by (rule list_all2_mono) (auto simp: Joi_renderTypeListItem.simps split: sum.splits)
  moreover have "(case rest of
              None \<Rightarrow> s = ''array().ordered(\<newline>'' @ concat items @ indent ind (- 1) @ '')''
            | Some t \<Rightarrow>
                \<exists>x. Joi_renderSchemaType E ind t (Some False) = Inr x \<and>
                    s = ''array().ordered(\<newline>'' @ concat items @ indent ind (- 1) @ '')'' @
                        ''.items('' @ x @ '')'')"
    using assms items
    by (auto simp: Joi_renderRule.simps[of _ _ "TTuple ts m rest r"] split: sum.splits option.splits)
  ultimately show ?thesis by blast
qed

lemmas render_eval =
  Joi_renderSchemaType.simps Joi_renderRule.simps Joi_renderTypeListItem.simps
  Joi_renderMembers.simps Joi_renderMember.simps Joi_renderIndexer.simps
  Yup_renderSchemaType.simps Yup_renderRule.simps Yup_renderMembers.simps Yup_renderMember.simps
  Joi_renderString_def Joi_renderNumber_def Joi_renderLiteral_def
  Yup_renderString_def Yup_renderNumber_def Yup_renderIndexer_def Yup_required_def
  toSchemaName_def getAccessName_def indent_def renderEnv_def quoteJSON_def

lemmas program_eval =
  compile_finish_def renderAll_def builder_render_def Yup_render_def Joi_render_def
  Yup_renderInterfaces_def Yup_renderTypes_def Yup_renderInterface_def Yup_renderType_def
  Joi_renderInterfaces_def Joi_renderTypes_def Joi_renderInterface_def Joi_renderType_def
  referencedInterfaces_def sort_js_def countAndMakeRun_def heritageCompare_def renderHeritage_def join_def
  finalizeAll_def finalize_def getUsedImports_def getUsedExports_def
  program_use_def eval_nat_numeral getSchema_def has_def add_def boundOrName_def resolveSourceFile_def
  posixPath_def posix_dirname_def posix_join_def newBuilder_def

text \<open>
  Claim C7, as the code has it.  \<open>JoiSchemaBuilder.renderSchemaType\<close> appends \<open>.required()\<close>
  to the rendered rule exactly when the caller's override is \<open>true\<close>, or the caller gave
  no override and the node's own \<open>required\<close> flag is \<open>true\<close>; an unset flag counts as
  \<open>false\<close>.  The element type of an array and the rest element of a tuple are rendered
  with the override \<open>false\<close>: their rule follows \<open>Joi.\<close> without the modifier, whatever their
  own flag (of which the array only takes \<open>.sparse()\<close>).
  \<open>YupSchemaBuilder.renderSchemaType\<close> renders the rule under the caller's flag, which is
  \<open>false\<close> when the caller gave none, and reads the \<open>required\<close> flag of no node, at any
  depth: the output is the same with the flag of every node unset, or with the flag of
  the node set to any value.  With the ambient flag set, the rule is the rule rendered
  with the flag unset plus \<open>.required()\<close>, which goes inside the \<open>lazy\<close> wrapper of a type
  reference or type access and is left out for \<open>any\<close> and \<open>unknown\<close>.
\<close>

theorem required_modifier:
  "Joi_renderSchemaType E ind t ov =
     (case Joi_renderRule E ind t of
        Inl e \<Rightarrow> Inl e
      | Inr rule \<Rightarrow>
          Inr (''Joi.'' @ rule @
               (if ov = Some True \<or> ov = None \<and> required t = Some True then ''.required()'' else ''''))) \<and>
   Joi_renderSchemaType E ind t None = Joi_renderSchemaType E ind t (Some (required t = Some True)) \<and>
   Joi_renderRule E ind (TArray t lo hi r) =
     (case Joi_renderRule E ind t of
        Inl e \<Rightarrow> Inl e
      | Inr rule \<Rightarrow>
          Inr (''array().items(Joi.'' @ rule @ '')'' @
               (case lo of None \<Rightarrow> '''' | Some m \<Rightarrow> ''.min('' @ m @ '')'') @
               (case hi of None \<Rightarrow> '''' | Some m \<Rightarrow> ''.max('' @ m @ '')'') @
               (if required t = Some True then '''' else ''.sparse()''))) \<and>
   Joi_renderRule E ind (TTuple ts mn (Some t) r) =
     (case mapE (Joi_renderTypeListItem E ind) ts of
        Inl e \<Rightarrow> Inl e
      | Inr items \<Rightarrow>
          (case Joi_renderRule E ind t of
             Inl e \<Rightarrow> Inl e
           | Inr rule \<Rightarrow>
               Inr (''array().ordered(\<newline>'' @ concat items @ indent ind (- 1) @ '')'' @
                    ''.items(Joi.'' @ rule @ '')''))) \<and>
   Yup_renderSchemaType E ind t req =
     (case Yup_renderRule E ind (req = Some True) t of
        Inl e \<Rightarrow> Inl e
      | Inr rule \<Rightarrow> Inr (''Yup.'' @ rule)) \<and>
   Yup_renderSchemaType E ind t None = Yup_renderSchemaType E ind t (Some False) \<and>
   Yup_renderSchemaType E ind (stripRequired t) req = Yup_renderSchemaType E ind t req \<and>
   Yup_renderSchemaType E ind (setRequired b t) req = Yup_renderSchemaType E ind t req \<and>
   Yup_renderRule E ind True t =
     (case Yup_renderRule E ind False t of
        Inl e \<Rightarrow> Inl e
      | Inr rule \<Rightarrow>
          Inr (case t of
                 TBase k _ \<Rightarrow> if k = KAny \<or> k = KUnknown then rule else rule @ ''.required()''
               | TTypeReference name _ \<Rightarrow> ''lazy(() => '' @ toSchemaName E name @ ''.required())''
               | TTypeAccess name access _ \<Rightarrow>
                   ''lazy(() => '' @ getAccessName E name access @ ''.required())''
               | _ \<Rightarrow> rule @ ''.required()''))"
proof (intro conjI)
  show "Joi_renderSchemaType E ind t ov =
     (case Joi_renderRule E ind t of
        Inl e \<Rightarrow> Inl e
      | Inr rule \<Rightarrow>
          Inr (''Joi.'' @ rule @
               (if ov = Some True \<or> ov = None \<and> required t = Some True then ''.required()'' else '''')))"
    by (cases ov) (simp_all add: Joi_renderSchemaType.simps split: sum.splits)
  show "Joi_renderSchemaType E ind t None = Joi_renderSchemaType E ind t (Some (required t = Some True))"
    by (simp add: Joi_renderSchemaType.simps)
  show "Joi_renderRule E ind (TArray t lo hi r) =
     (case Joi_renderRule E ind t of
        Inl e \<Rightarrow> Inl e
      | Inr rule \<Rightarrow>
          Inr (''array().items(Joi.'' @ rule @ '')'' @
               (case lo of None \<Rightarrow> '''' | Some m \<Rightarrow> ''.min('' @ m @ '')'') @
               (case hi of None \<Rightarrow> '''' | Some m \<Rightarrow> ''.max('' @ m @ '')'') @
               (if required t = Some True then '''' else ''.sparse()'')))"
    by (subst Joi_renderRule.simps) (simp add: Joi_renderSchemaType.simps split: sum.splits)
  show "Joi_renderRule E ind (TTuple ts mn (Some t) r) =
     (case mapE (Joi_renderTypeListItem E ind) ts of
        Inl e \<Rightarrow> Inl e
      | Inr items \<Rightarrow>
          (case Joi_renderRule E ind t of
             Inl e \<Rightarrow> Inl e
           | Inr rule \<Rightarrow>
               Inr (''array().ordered(\<newline>'' @ concat items @ indent ind (- 1) @ '')'' @
                    ''.items(Joi.'' @ rule @ '')'')))"
    by (subst Joi_renderRule.simps) (simp add: Joi_renderSchemaType.simps split: sum.splits)
  have "(case req of None \<Rightarrow> False | Some b \<Rightarrow> b) = (req = Some True)"
    by (cases req) auto
  then show "Yup_renderSchemaType E ind t req =
     (case Yup_renderRule E ind (req = Some True) t of
        Inl e \<Rightarrow> Inl e
      | Inr rule \<Rightarrow> Inr (''Yup.'' @ rule))"
    by (simp add: Yup_renderSchemaType.simps)
  show "Yup_renderSchemaType E ind t None = Yup_renderSchemaType E ind t (Some False)"
    by (simp add: Yup_renderSchemaType.simps)
  show "Yup_renderSchemaType E ind (stripRequired t) req = Yup_renderSchemaType E ind t req"
    by (rule Yup_strip)
  show "Yup_renderSchemaType E ind (setRequired b t) req = Yup_renderSchemaType E ind t req"
    by (simp add: Yup_renderSchemaType.simps Yup_renderRule_setRequired)
  show "Yup_renderRule E ind True t =
     (case Yup_renderRule E ind False t of
        Inl e \<Rightarrow> Inl e
      | Inr rule \<Rightarrow>
          Inr (case t of
                 TBase k _ \<Rightarrow> if k = KAny \<or> k = KUnknown then rule else rule @ ''.required()''
               | TTypeReference name _ \<Rightarrow> ''lazy(() => '' @ toSchemaName E name @ ''.required())''
               | TTypeAccess name access _ \<Rightarrow>
                   ''lazy(() => '' @ getAccessName E name access @ ''.required())''
               | _ \<Rightarrow> rule @ ''.required()''))"
    by (rule Yup_ambient)
qed

text \<open>
  For C7: under Joi a required string with and without an override of \<open>false\<close>, and an
  array and a tuple whose element and rest element are required strings; under Yup an
  object whose member is a boolean flagged required, with and without the flags, and a
  boolean whose own flag disagrees with the caller's.
\<close>

theorem required_modifier_witness:
  "Joi_renderSchemaType (renderEnv ''joi'') 0 (TString None (Some True)) None =
     Inr ''Joi.string().required()'' \<and>
   Joi_renderSchemaType (renderEnv ''joi'') 0 (TString None (Some True)) (Some False) =
     Inr ''Joi.string()'' \<and>
   Joi_renderRule (renderEnv ''joi'') 0 (TArray (TString None (Some True)) None None (Some True)) =
     Inr ''array().items(Joi.string())'' \<and>
   Joi_renderRule (renderEnv ''joi'') 0
     (TTuple [TBase KBoolean (Some True)] 1 (Some (TString None (Some True))) (Some True)) =
     Inr ''array().ordered(\<newline>Joi.boolean().required(),\<newline>).items(Joi.string())'' \<and>
   Yup_renderSchemaType (renderEnv ''yup'') 1
     (TObject (Some [IMemberDeclaration ''b'' None (TBase KBoolean (Some True)) None None]) (Some True))
     None =
     Inr ''Yup.object().shape({\<newline>  b: Yup.boolean(),\<newline>})'' \<and>
   Yup_renderSchemaType (renderEnv ''yup'') 1
     (TObject (Some [IMemberDeclaration ''b'' None (TBase KBoolean None) None None]) None) None =
     Inr ''Yup.object().shape({\<newline>  b: Yup.boolean(),\<newline>})'' \<and>
   Yup_renderSchemaType (renderEnv ''yup'') 0 (TBase KBoolean (Some False)) (Some True) =
     Inr ''Yup.boolean().required()'' \<and>
   Yup_renderRule (renderEnv ''yup'') 0 True (TTypeReference ''Pair'' (Some False)) =
     Inr ''lazy(() => PairSchema.required())''"
  using required_modifier[where E = "renderEnv ''joi''" and ind = 0 and t = "TString None (Some True)"
      and ov = None and lo = None and hi = None and r = "Some True"
      and ts = "[TBase KBoolean (Some True)]" and mn = 1 and req = None and b = False]
    required_modifier[where E = "renderEnv ''joi''" and ind = 0 and t = "TString None (Some True)"
      and ov = "Some False" and lo = None and hi = None and r = "Some True"
      and ts = "[]" and mn = 0 and req = None and b = False]
    required_modifier[where E = "renderEnv ''yup''" and ind = 1
      and t = "TObject (Some [IMemberDeclaration ''b'' None (TBase KBoolean (Some True)) None None]) (Some True)"
      and ov = None and lo = None and hi = None and r = None
      and ts = "[]" and mn = 0 and req = None and b = False]
    required_modifier[where E = "renderEnv ''yup''" and ind = 0 and t = "TBase KBoolean (Some False)"
      and ov = None and lo = None and hi = None and r = None
      and ts = "[]" and mn = 0 and req = "Some True" and b = True]
    required_modifier[where E = "renderEnv ''yup''" and ind = 0 and t = "TTypeReference ''Pair'' (Some False)"
      and ov = None and lo = None and hi = None and r = None
      and ts = "[]" and mn = 0 and req = None and b = True]
  by (simp add: render_eval eval_nat_numeral)

text \<open>
  Claim C7 as stated fails under Joi: a node whose flag is unset is rendered without
  the modifier, and the element type of an array, rendered with the override \<open>false\<close>,
  gets no modifier although its own flag is \<open>true\<close>.
\<close>

theorem required_modifier_counterexample:
  "Joi_renderSchemaType (renderEnv ''joi'') 0 (TBase KAny None) None = Inr ''Joi.any()'' \<and>
   Joi_renderSchemaType (renderEnv ''joi'') 0
     (TArray (TString None (Some True)) None None (Some True)) None =
     Inr ''Joi.array().items(Joi.string()).required()''"
  by (simp add: render_eval)

text \<open>
  The store \<open>pairAlias\<close> is what the two write calls of the first loop of \<open>compile\<close> make of
  the empty file schema: \<open>Pair\<close> written without the \<open>@schema\<close> tag, \<open>IUses\<close> with it.
\<close>

lemma pairAlias_written:
  "bind_result
     (writeType 6 posixPath emptyFile ''/src/t.ts''
        \<lparr>type_name = ''Pair'',
         type_type = TTuple [TNumber None None None (Some True), TString None (Some True)]
                       2 None (Some True)\<rparr> False)
     (\<lambda>S. writeInterface 6 posixPath S ''/src/t.ts''
        \<lparr>interface_name = ''IUses'', heritages = [],
         members = [IMemberDeclaration ''p'' None (TTypeReference ''Pair'' (Some True)) None None]\<rparr>
        True) =
   Some (Inr pairAlias)"
  by (simp add: writeType_def writeInterface_def useInterface_def emptyFile_def pairAlias_def
        newBuilder_def Let_def eval_nat_numeral has_def add_def insert_commute)

text \<open>
  Claim C8, as the code has it.  Under Joi a tuple none of whose nodes is a \<open>bigint\<close>, a
  bigint literal or an intersection renders; and whenever a tuple renders, the rule is
  \<open>array().ordered(...)\<close> of the rendered elements, one per line in their order, followed
  by \<open>.items(...)\<close> of the rendered rest element when there is one.  Under Yup the
  rendering of every schema type that holds a tuple throws; and when, after every
  schema was finalized, some file schema holds a referenced type alias or a referenced
  interface with a tuple in it, the exception leaves \<open>compile\<close>: the run returns no result
  for any file, whether or not the declaration was tagged.
\<close>

theorem tuple_rendering:
  "(\<not> joiUnsupported (TTuple ts mn rest r) \<longrightarrow>
      (\<exists>s. Joi_renderSchemaType E ind (TTuple ts mn rest r) ov = Inr s)) \<and>
   (Joi_renderRule E ind (TTuple ts mn rest r) = Inr s \<longrightarrow>
      (\<exists>items.
         list_all2 (\<lambda>t item. \<exists>x. Joi_renderSchemaType E (Suc ind) t None = Inr x \<and>
                                 item = indent ind 0 @ x @ '',\<newline>'') ts items \<and>
         (case rest of
            None \<Rightarrow> s = ''array().ordered(\<newline>'' @ concat items @ indent ind (- 1) @ '')''
          | Some t \<Rightarrow>
              \<exists>x. Joi_renderSchemaType E ind t (Some False) = Inr x \<and>
                  s = ''array().ordered(\<newline>'' @ concat items @ indent ind (- 1) @ '')'' @
                      ''.items('' @ x @ '')''))) \<and>
   (containsTuple t \<longrightarrow> (\<exists>e. Yup_renderSchemaType E ind t req = Inl e)) \<and>
   ((render (options E) = ''yup'' \<or> render (options E) = ''yup-0.29'') \<and>
    finalizeAll n P S = Some (Inr S') \<and> k \<in> set (files S') \<and>
    ((\<exists>d \<in> set (types (schema (builders S' k))).
        type_name d \<in> referencedNames (builders S' k) \<and> containsTuple (type_type d)) \<or>
     (\<exists>d \<in> set (interfaces (schema (builders S' k))).
        interface_name d \<in> referencedNames (builders S' k) \<and>
        containsTuple (TObject (Some (members d)) None))) \<longrightarrow>
    (\<exists>e. compile_finish n P E S = Some (Inl e)))"
proof (intro conjI)
  show "\<not> joiUnsupported (TTuple ts mn rest r) \<longrightarrow>
      (\<exists>s. Joi_renderSchemaType E ind (TTuple ts mn rest r) ov = Inr s)"
    by (rule impI) (rule joi_supported_renders)
  show "Joi_renderRule E ind (TTuple ts mn rest r) = Inr s \<longrightarrow>
      (\<exists>items.
         list_all2 (\<lambda>t item. \<exists>x. Joi_renderSchemaType E (Suc ind) t None = Inr x \<and>
                                 item = indent ind 0 @ x @ '',\<newline>'') ts items \<and>
         (case rest of
            None \<Rightarrow> s = ''array().ordered(\<newline>'' @ concat items @ indent ind (- 1) @ '')''
          | Some t \<Rightarrow>
              \<exists>x. Joi_renderSchemaType E ind t (Some False) = Inr x \<and>
                  s = ''array().ordered(\<newline>'' @ concat items @ indent ind (- 1) @ '')'' @
                      ''.items('' @ x @ '')''))"
    by (rule impI) (rule joi_tuple_shape)
  show "containsTuple t \<longrightarrow> (\<exists>e. Yup_renderSchemaType E ind t req = Inl e)"
    by (rule impI) (rule yup_tuple_fails)
  show "(render (options E) = ''yup'' \<or> render (options E) = ''yup-0.29'') \<and>
    finalizeAll n P S = Some (Inr S') \<and> k \<in> set (files S') \<and>
    ((\<exists>d \<in> set (types (schema (builders S' k))).
        type_name d \<in> referencedNames (builders S' k) \<and> containsTuple (type_type d)) \<or>
     (\<exists>d \<in> set (interfaces (schema (builders S' k))).
        interface_name d \<in> referencedNames (builders S' k) \<and>
        containsTuple (TObject (Some (members d)) None))) \<longrightarrow>
    (\<exists>e. compile_finish n P E S = Some (Inl e))"
  proof
    assume a: "(render (options E) = ''yup'' \<or> render (options E) = ''yup-0.29'') \<and>
      finalizeAll n P S = Some (Inr S') \<and> k \<in> set (files S') \<and>
      ((\<exists>d \<in> set (types (schema (builders S' k))).
          type_name d \<in> referencedNames (builders S' k) \<and> containsTuple (type_type d)) \<or>
       (\<exists>d \<in> set (interfaces (schema (builders S' k))).
          interface_name d \<in> referencedNames (builders S' k) \<and>
          containsTuple (TObject (Some (members d)) None)))"
    then have "(\<exists>e. Yup_renderInterfaces E (builders S' k) = Inl e) \<or>
               (\<exists>e. Yup_renderTypes E (builders S' k) = Inl e)"
      using Yup_renderTypes_fails[of _ "builders S' k" E]
        Yup_renderInterfaces_fails[of _ "builders S' k" E] by blast
    then obtain e where "Yup_render E (builders S' k) = Inl e"
      using Yup_render_fails by blast
    then have "builder_render E (builders S' k) = Inl e"
      using a by (auto simp: builder_render_def)
    with a obtain e' where "renderAll E S' = Inl e'" using renderAll_fails by blast
    then show "\<exists>e. compile_finish n P E S = Some (Inl e)"
      using a by (simp add: compile_finish_def)
  qed
qed

text \<open>
  For C8: the tuple \<open>[number, string?, ...boolean[]]\<close> under Joi, an array of tuples under
  Yup, and the run on \<open>pairAlias\<close> under Yup.
\<close>

theorem tuple_rendering_witness:
  "Joi_renderRule (renderEnv ''joi'') 1
     (TTuple [TNumber None None None (Some True), TString None (Some False)] 1
        (Some (TBase KBoolean (Some True))) (Some True)) =
     Inr ''array().ordered(\<newline>  Joi.number().required(),\<newline>  Joi.string(),\<newline>).items(Joi.boolean())'' \<and>
   isl (Yup_renderSchemaType (renderEnv ''yup'') 1
          (TArray (TTuple [TNumber None None None (Some True)] 1 None (Some True)) None None (Some True))
          None) \<and>
   (case compile_finish 5 posixPath (renderEnv ''yup'') pairAlias of
      Some (Inl e) \<Rightarrow> True | _ \<Rightarrow> False)"
  using tuple_rendering[where E = "renderEnv ''joi''" and ind = 1
      and ts = "[TNumber None None None (Some True), TString None (Some False)]"
      and mn = 1 and r = "Some True" and rest = "Some (TBase KBoolean (Some True))"
      and ov = None
      and s = "''array().ordered(\<newline>  Joi.number().required(),\<newline>  Joi.string(),\<newline>).items(Joi.boolean())''"
      and t = "TTuple [] 0 None None" and req = None and n = 0 and P = posixPath and S = pairAlias
      and S' = pairAlias and k = "''''"]
    tuple_rendering[where E = "renderEnv ''yup''" and ind = 1 and ts = "[]"
      and mn = 0 and r = None and rest = None and ov = None and s = "''''"
      and t = "TArray (TTuple [TNumber None None None (Some True)] 1 None (Some True)) None None (Some True)"
      and req = None and n = 5 and P = posixPath and S = pairAlias
      and S' = "pairAlias\<lparr>builders := (builders pairAlias)
                  (''/src/t.ts'' := (builders pairAlias ''/src/t.ts'')\<lparr>finalized := True\<rparr>)\<rparr>"
      and k = "''/src/t.ts''"]
  by (simp add: render_eval program_eval pairAlias_def)

text \<open>
  Claim C8 as stated fails on both sides.  Under Joi the tuple \<open>[bigint]\<close> does not
  render.  Under Yup, on \<open>pairAlias\<close>, where the tuple alias \<open>Pair\<close> is not tagged, the
  failure is not turned into a warning for \<open>Pair\<close> alone: the whole run ends with the
  error and nothing is rendered for \<open>IUses\<close> either.
\<close>

theorem tuple_rendering_counterexample:
  "Joi_renderSchemaType (renderEnv ''joi'') 1
     (TTuple [TBase KBigint (Some True)] 1 None (Some True)) None =
     Inl (Error ''BigInt not supported'') \<and>
   compile_finish 5 posixPath (renderEnv ''yup'') pairAlias =
     Some (Inl (Error ''Tuple not supported''))"
  by (simp add: render_eval program_eval pairAlias_def)

text \<open>
  Claim C9 fails on the code.  The comparison function of \<open>renderInterfaces\<close> returns \<open>-1\<close>
  when its first argument extends its second, so the sort puts the derived interface
  before its base.  On \<open>baseAndDerived\<close>, declared base first, both renderers emit
  \<open>IDerivedSchema\<close>, which refers to \<open>IBaseSchema\<close>, before \<open>IBaseSchema\<close>; declared the other
  way round the order is the same.
\<close>

theorem heritage_order_inverted:
  "map interface_name (interfaces (schema baseAndDerived)) = [''IBase'', ''IDerived''] \<and>
   map interface_name (referencedInterfaces baseAndDerived) = [''IDerived'', ''IBase''] \<and>
   map interface_name (sort_js heritageCompare (rev (interfaces (schema baseAndDerived)))) =
     [''IDerived'', ''IBase''] \<and>
   Joi_renderInterfaces (renderEnv ''joi'') baseAndDerived =
     Inr ''export const IDerivedSchema = Joi.object().concat(IBaseSchema).required().strict();\<newline>\<newline>export const IBaseSchema = Joi.object().required().strict();\<newline>\<newline>'' \<and>
   Yup_renderInterfaces (renderEnv ''yup'') baseAndDerived =
     Inr ''export const IDerivedSchema = Yup.object().concat(IBaseSchema).strict(true);\<newline>\<newline>export const IBaseSchema = Yup.object().strict(true);\<newline>\<newline>''"
  by (simp add: render_eval program_eval baseAndDerived_def)


end
